theory Spec2Isabelle
  imports Complex_Main "HOL-Library.Multiset"
begin

section \<open>Conventions of the embedding\<close>

text \<open>
  The Go packages \<^verbatim>\<open>visibility\<close>, \<^verbatim>\<open>routing\<close>, \<^verbatim>\<open>coverage\<close> and \<^verbatim>\<open>simulation\<close> are
  embedded function by function.

  \<^item> A Go \<^verbatim>\<open>float64\<close> is a value of the type \<open>float64\<close> below: a NaN, an infinity or a
    finite number, and every arithmetic operation rounds its exact result to the nearest
    binary64 number, ties to even, one operation at a time (no fused multiply-add, as on
    amd64).
  \<^item> A Go \<^verbatim>\<open>map[string]T\<close> is a partial function \<open>string \<rightharpoonup> T\<close>; reading a missing key
    of \<^verbatim>\<open>map[string][]Edge\<close> gives the empty list, as Go's nil slice does.
  \<^item> A Go \<^verbatim>\<open>(T, error)\<close> result is \<open>error + T\<close> with \<open>Inl\<close> the error.
  \<^item> A loop that need not terminate returns an \<open>option\<close>: \<open>None\<close> is a call that does not
    return.
  \<^item> Record fields that share a name in Go (\<^verbatim>\<open>ID\<close>, \<^verbatim>\<open>Position\<close>, \<^verbatim>\<open>Nodes\<close>, \<^verbatim>\<open>Lat\<close>, ...)
    carry a prefix in all records but one: \<open>SatID\<close>, \<open>GsID\<close>, \<open>PathNodes\<close>, \<open>nc_id\<close>,
    \<open>s_graph\<close>, and so on. The Go type \<^verbatim>\<open>simulation.Satellite\<close> is \<open>SimSatellite\<close>.
\<close>

section \<open>Go's float64\<close>

text \<open>
  A finite value \<open>Fin x\<close> stands for a binary64 number when \<open>is_double x\<close>; the operations
  below are defined on every \<open>Fin x\<close> and return binary64 numbers. The two zeros of
  binary64 are the one value \<open>Fin 0\<close>: they compare equal, and their sign shows only in a
  division by zero. Every divisor of the embedded code that can be zero is a sum of
  squares, a square root of one, or twice one, which is \<open>+0\<close> in binary64: so a division by
  \<open>Fin 0\<close> is a division by \<open>+0\<close>.
\<close>

datatype float64 = NaN | NegInf | Fin real | PosInf

text \<open>\<open>pow2 e\<close> is \<open>2\<close> to the power \<open>e\<close>, for an integer \<open>e\<close>.\<close>

definition pow2 :: "int \<Rightarrow> real" where
  "pow2 e = (if 0 \<le> e then 2 ^ nat e else 1 / 2 ^ nat (- e))"

text \<open>Rounding to the nearest integer, a tie to the even one.\<close>

definition rhe :: "real \<Rightarrow> int" where
  "rhe y = (let f = \<lfloor>y\<rfloor>; r = y - of_int f
            in if r < 1 / 2 then f else if 1 / 2 < r then f + 1 else if even f then f else f + 1)"

text \<open>
  The exponent of the last place of the binary64 numbers around \<open>x\<close>: 53 significant bits,
  and no exponent below that of the subnormal numbers.
\<close>

definition expo :: "real \<Rightarrow> int" where
  "expo x = max (\<lfloor>log 2 \<bar>x\<bar>\<rfloor> - 52) (- 1074)"

definition rval :: "real \<Rightarrow> real" where
  "rval x = (if x = 0 then 0 else of_int (rhe (x / pow2 (expo x))) * pow2 (expo x))"

definition huge :: real where
  "huge = 2 ^ 1024"

text \<open>\<open>rnd\<close>: the binary64 value of an exact result; a result that rounds past the largest
  finite number is an infinity.\<close>

definition rnd :: "real \<Rightarrow> float64" where
  "rnd x = (let v = rval x
            in if huge \<le> v then PosInf else if v \<le> - huge then NegInf else Fin v)"

definition is_double :: "real \<Rightarrow> bool" where
  "is_double v = (\<exists>m e. v = of_int m * pow2 e \<and> \<bar>m\<bar> < 2 ^ 53 \<and> - 1074 \<le> e \<and> e \<le> 971)"

definition dbl :: "float64 \<Rightarrow> bool" where
  "dbl a = (case a of Fin v \<Rightarrow> is_double v | _ \<Rightarrow> True)"

text \<open>
  A total order on \<open>float64\<close>, with NaN on top. It is the order of the proofs; Go's
  comparisons are \<open>flt\<close>, \<open>fle\<close>, \<open>fgt\<close> and \<open>fge\<close> below, false as soon as one side is a NaN.
\<close>

instantiation float64 :: linorder
begin

definition less_eq_float64 :: "float64 \<Rightarrow> float64 \<Rightarrow> bool" where
  "less_eq_float64 a b =
     (case a of
        NegInf \<Rightarrow> True
      | Fin x \<Rightarrow> (case b of NegInf \<Rightarrow> False | Fin y \<Rightarrow> x \<le> y | PosInf \<Rightarrow> True | NaN \<Rightarrow> True)
      | PosInf \<Rightarrow> (case b of NegInf \<Rightarrow> False | Fin y \<Rightarrow> False | PosInf \<Rightarrow> True | NaN \<Rightarrow> True)
      | NaN \<Rightarrow> (case b of NaN \<Rightarrow> True | _ \<Rightarrow> False))"

definition less_float64 :: "float64 \<Rightarrow> float64 \<Rightarrow> bool" where
  "less_float64 a b = (a \<le> b \<and> \<not> b \<le> a)"

instance
proof
  fix x y z :: float64
  show "(x < y) = (x \<le> y \<and> \<not> y \<le> x)" by (simp add: less_float64_def)
  show "x \<le> x" by (cases x) (simp_all add: less_eq_float64_def)
  show "x \<le> y \<Longrightarrow> y \<le> z \<Longrightarrow> x \<le> z"
    by (cases x; cases y; cases z) (simp_all add: less_eq_float64_def)
  show "x \<le> y \<Longrightarrow> y \<le> x \<Longrightarrow> x = y"
    by (cases x; cases y) (simp_all add: less_eq_float64_def)
  show "x \<le> y \<or> y \<le> x"
    by (cases x; cases y) (auto simp: less_eq_float64_def)
qed

end

definition flt :: "float64 \<Rightarrow> float64 \<Rightarrow> bool" where
  "flt a b = (a \<noteq> NaN \<and> b \<noteq> NaN \<and> a < b)"

definition fle :: "float64 \<Rightarrow> float64 \<Rightarrow> bool" where
  "fle a b = (a \<noteq> NaN \<and> b \<noteq> NaN \<and> a \<le> b)"

definition fgt :: "float64 \<Rightarrow> float64 \<Rightarrow> bool" where
  "fgt a b = flt b a"

definition fge :: "float64 \<Rightarrow> float64 \<Rightarrow> bool" where
  "fge a b = fle b a"

definition fneg :: "float64 \<Rightarrow> float64" where
  "fneg a = (case a of NaN \<Rightarrow> NaN | NegInf \<Rightarrow> PosInf | Fin x \<Rightarrow> Fin (- x) | PosInf \<Rightarrow> NegInf)"

fun fadd :: "float64 \<Rightarrow> float64 \<Rightarrow> float64" where
  "fadd (Fin x) (Fin y) = rnd (x + y)"
| "fadd (Fin x) PosInf = PosInf"
| "fadd (Fin x) NegInf = NegInf"
| "fadd PosInf (Fin y) = PosInf"
| "fadd PosInf PosInf = PosInf"
| "fadd PosInf NegInf = NaN"
| "fadd NegInf (Fin y) = NegInf"
| "fadd NegInf NegInf = NegInf"
| "fadd NegInf PosInf = NaN"
| "fadd NaN b = NaN"
| "fadd a NaN = NaN"

definition fsub :: "float64 \<Rightarrow> float64 \<Rightarrow> float64" where
  "fsub a b = fadd a (fneg b)"

definition inf_of_sign :: "bool \<Rightarrow> float64" where
  "inf_of_sign positive = (if positive then PosInf else NegInf)"

fun fmul :: "float64 \<Rightarrow> float64 \<Rightarrow> float64" where
  "fmul (Fin x) (Fin y) = rnd (x * y)"
| "fmul (Fin x) PosInf = (if x = 0 then NaN else inf_of_sign (0 < x))"
| "fmul (Fin x) NegInf = (if x = 0 then NaN else inf_of_sign (x < 0))"
| "fmul PosInf (Fin y) = (if y = 0 then NaN else inf_of_sign (0 < y))"
| "fmul NegInf (Fin y) = (if y = 0 then NaN else inf_of_sign (y < 0))"
| "fmul PosInf PosInf = PosInf"
| "fmul PosInf NegInf = NegInf"
| "fmul NegInf PosInf = NegInf"
| "fmul NegInf NegInf = PosInf"
| "fmul NaN b = NaN"
| "fmul a NaN = NaN"

fun fdiv :: "float64 \<Rightarrow> float64 \<Rightarrow> float64" where
  "fdiv (Fin x) (Fin y) =
     (if y = 0 then (if x = 0 then NaN else inf_of_sign (0 < x)) else rnd (x / y))"
| "fdiv (Fin x) PosInf = Fin 0"
| "fdiv (Fin x) NegInf = Fin 0"
| "fdiv PosInf (Fin y) = inf_of_sign (0 \<le> y)"
| "fdiv NegInf (Fin y) = inf_of_sign (y < 0)"
| "fdiv PosInf PosInf = NaN"
| "fdiv PosInf NegInf = NaN"
| "fdiv NegInf PosInf = NaN"
| "fdiv NegInf NegInf = NaN"
| "fdiv NaN b = NaN"
| "fdiv a NaN = NaN"

text \<open>\<^verbatim>\<open>math.Sqrt\<close>: correctly rounded, as IEEE 754 requires.\<close>

fun fsqrt :: "float64 \<Rightarrow> float64" where
  "fsqrt (Fin x) = (if x < 0 then NaN else rnd (sqrt x))"
| "fsqrt PosInf = PosInf"
| "fsqrt NegInf = NaN"
| "fsqrt NaN = NaN"

text \<open>
  The other functions of Go's \<^verbatim>\<open>math\<close> package that the code calls. Their special cases
  are those of the package documentation; on the other arguments the model returns the
  binary64 number nearest to the exact value, which Go's implementation may miss by a unit
  in the last place. No result below depends on the last place of these functions.
\<close>

definition math_Pi :: real where
  "math_Pi = 3.14159265358979323846264338327950288419716939937510582097494459"

fun math_Asin :: "float64 \<Rightarrow> float64" where
  "math_Asin (Fin x) = (if x < - 1 \<or> 1 < x then NaN else rnd (arcsin x))"
| "math_Asin PosInf = NaN"
| "math_Asin NegInf = NaN"
| "math_Asin NaN = NaN"

fun math_Sin :: "float64 \<Rightarrow> float64" where
  "math_Sin (Fin x) = rnd (sin x)"
| "math_Sin PosInf = NaN"
| "math_Sin NegInf = NaN"
| "math_Sin NaN = NaN"

fun math_Cos :: "float64 \<Rightarrow> float64" where
  "math_Cos (Fin x) = rnd (cos x)"
| "math_Cos PosInf = NaN"
| "math_Cos NegInf = NaN"
| "math_Cos NaN = NaN"

definition atan2 :: "real \<Rightarrow> real \<Rightarrow> real" where
  "atan2 y x =
     (if x > 0 then arctan (y / x)
      else if x < 0 then (if y \<ge> 0 then arctan (y / x) + pi else arctan (y / x) - pi)
      else if y > 0 then pi / 2
      else if y < 0 then - pi / 2
      else 0)"

fun math_Atan2 :: "float64 \<Rightarrow> float64 \<Rightarrow> float64" where
  "math_Atan2 (Fin y) (Fin x) = rnd (atan2 y x)"
| "math_Atan2 (Fin y) PosInf = Fin 0"
| "math_Atan2 (Fin y) NegInf = (if 0 \<le> y then rnd pi else rnd (- pi))"
| "math_Atan2 PosInf (Fin x) = rnd (pi / 2)"
| "math_Atan2 NegInf (Fin x) = rnd (- pi / 2)"
| "math_Atan2 PosInf PosInf = rnd (pi / 4)"
| "math_Atan2 NegInf PosInf = rnd (- pi / 4)"
| "math_Atan2 PosInf NegInf = rnd (3 * pi / 4)"
| "math_Atan2 NegInf NegInf = rnd (- 3 * pi / 4)"
| "math_Atan2 NaN x = NaN"
| "math_Atan2 y NaN = NaN"

text \<open>Values that are neither NaN nor negative, and the conversion \<^verbatim>\<open>float64(n)\<close>.\<close>

definition nn :: "float64 \<Rightarrow> bool" where
  "nn a = (case a of Fin x \<Rightarrow> 0 \<le> x | PosInf \<Rightarrow> True | _ \<Rightarrow> False)"

definition float64_of_int :: "int \<Rightarrow> float64" where
  "float64_of_int n = rnd (of_int n)"

text \<open>The roundings of the concrete numbers that the examples below run through.\<close>

named_theorems float_eval

section \<open>Package visibility\<close>

record Vector3 =
  X :: float64
  Y :: float64
  Z :: float64

definition EarthRadius :: float64 where
  "EarthRadius = Fin 6371"

definition dot :: "Vector3 \<Rightarrow> Vector3 \<Rightarrow> float64" where
  "dot a b = fadd (fadd (fmul (X a) (X b)) (fmul (Y a) (Y b))) (fmul (Z a) (Z b))"

definition norm_v :: "Vector3 \<Rightarrow> float64" where
  "norm_v v = fsqrt (dot v v)"

definition sub :: "Vector3 \<Rightarrow> Vector3 \<Rightarrow> Vector3" where
  "sub a b = \<lparr>X = fsub (X a) (X b), Y = fsub (Y a) (Y b), Z = fsub (Z a) (Z b)\<rparr>"

definition scale :: "Vector3 \<Rightarrow> float64 \<Rightarrow> Vector3" where
  "scale v factor = \<lparr>X = fmul (X v) factor, Y = fmul (Y v) factor, Z = fmul (Z v) factor\<rparr>"

definition SlantRange :: "Vector3 \<Rightarrow> Vector3 \<Rightarrow> float64" where
  "SlantRange a b = norm_v (sub b a)"

definition Elevation :: "Vector3 \<Rightarrow> Vector3 \<Rightarrow> float64" where
  "Elevation ground satellite =
     (let toSat = sub satellite ground;
          groundHat = scale ground (fdiv (Fin 1) (norm_v ground))
      in math_Asin (fdiv (dot toSat groundHat) (norm_v toSat)))"

definition MeetsElevationMask :: "Vector3 \<Rightarrow> Vector3 \<Rightarrow> float64 \<Rightarrow> bool" where
  "MeetsElevationMask ground satellite elevationMask =
     fge (Elevation ground satellite) elevationMask"

text \<open>
  The constants \<^verbatim>\<open>epsilon\<close> and \<^verbatim>\<open>1-epsilon\<close>: Go evaluates a constant expression exactly
  and rounds it once, where it is used as a \<^verbatim>\<open>float64\<close>.
\<close>

definition epsilon :: float64 where
  "epsilon = rnd (1 / 10 ^ 9)"

definition one_minus_epsilon :: float64 where
  "one_minus_epsilon = rnd (1 - 1 / 10 ^ 9)"

definition segmentIntersectsEarth :: "Vector3 \<Rightarrow> Vector3 \<Rightarrow> float64 \<Rightarrow> bool" where
  "segmentIntersectsEarth p0 p1 radius =
     (let direction = sub p1 p0;
          a = dot direction direction;
          b = fmul (Fin 2) (dot p0 direction);
          c = fsub (dot p0 p0) (fmul radius radius);
          discriminant = fsub (fmul b b) (fmul (fmul (Fin 4) a) c)
      in if flt discriminant (Fin 0) then False
         else
           let sqrtD = fsqrt discriminant;
               denom = fmul (Fin 2) a;
               t1 = fdiv (fsub (fneg b) sqrtD) denom;
               t2 = fdiv (fadd (fneg b) sqrtD) denom
           in (fgt t1 epsilon \<and> flt t1 one_minus_epsilon)
              \<or> (fgt t2 epsilon \<and> flt t2 one_minus_epsilon))"

definition GroundToSatelliteVisible :: "Vector3 \<Rightarrow> Vector3 \<Rightarrow> float64 \<Rightarrow> bool" where
  "GroundToSatelliteVisible ground satellite elevationMask =
     (if \<not> MeetsElevationMask ground satellite elevationMask then False
      else \<not> segmentIntersectsEarth ground satellite EarthRadius)"

definition SatelliteToSatelliteVisible :: "Vector3 \<Rightarrow> Vector3 \<Rightarrow> bool" where
  "SatelliteToSatelliteVisible a b = (\<not> segmentIntersectsEarth a b EarthRadius)"

section \<open>Package routing: the graph\<close>

type_synonym NodeType = string

definition Satellite :: NodeType where
  "Satellite = ''satellite''"

definition Ground :: NodeType where
  "Ground = ''ground''"

record Node =
  ID :: string
  Type :: NodeType
  Position :: Vector3

record Edge =
  From :: string
  To :: string
  LatencyMS :: float64
  Throughput :: float64

record Graph =
  Nodes :: "string \<rightharpoonup> Node"
  Adj :: "string \<rightharpoonup> Edge list"

datatype error =
  ErrNodeIDEmpty
  | ErrUnknownStart string
  | ErrUnknownGoal string
  | ErrNoRoute
  | ErrMissingEdge
  | ErrKNotPositive
  | ErrGridStepsNotPositive
  | ErrGridStepsTooLarge
  | ErrNoSatellite
  | ErrNoGroundStation
  | ErrSatelliteIDEmpty
  | ErrDuplicateSatelliteID
  | ErrGroundStationIDEmpty
  | ErrUnknownSatellite

text \<open>The constant \<^verbatim>\<open>SpeedOfLightKMPerS\<close>, rounded where it meets a \<^verbatim>\<open>float64\<close>.\<close>

definition SpeedOfLightKMPerS :: float64 where
  "SpeedOfLightKMPerS = rnd 299792.458"

text \<open>\<^verbatim>\<open>g.Adj[id]\<close>: the list stored under the key, the nil slice when the key is absent.\<close>

definition adjOf :: "(string \<rightharpoonup> Edge list) \<Rightarrow> string \<Rightarrow> Edge list" where
  "adjOf adj k = (case adj k of None \<Rightarrow> [] | Some es \<Rightarrow> es)"

text \<open>The first loop of \<^verbatim>\<open>BuildGraph\<close>: reject an empty ID, store the node under its ID.\<close>

fun insertNodes :: "Node list \<Rightarrow> (string \<rightharpoonup> Node) \<Rightarrow> error + (string \<rightharpoonup> Node)" where
  "insertNodes [] m = Inr m"
| "insertNodes (n # ns) m =
     (if ID n = [] then Inl ErrNodeIDEmpty else insertNodes ns (m(ID n \<mapsto> n)))"

definition mkEdge :: "Node \<Rightarrow> Node \<Rightarrow> Edge" where
  "mkEdge a b =
     (let dist = SlantRange (Position a) (Position b);
          latency = fmul (fdiv dist SpeedOfLightKMPerS) (Fin 1000);
          throughput = fdiv (Fin 1) (fadd (Fin 1) latency)
      in \<lparr>From = ID a, To = ID b, LatencyMS = latency, Throughput = throughput\<rparr>)"

definition addEdge :: "Node \<Rightarrow> Node \<Rightarrow> (string \<rightharpoonup> Edge list) \<Rightarrow> (string \<rightharpoonup> Edge list)" where
  "addEdge a b adj = adj(ID a \<mapsto> adjOf adj (ID a) @ [mkEdge a b])"

text \<open>The body of the double loop: the \<^verbatim>\<open>switch\<close> over the two node types.\<close>

definition connect :: "float64 \<Rightarrow> Node \<Rightarrow> Node \<Rightarrow> (string \<rightharpoonup> Edge list) \<Rightarrow> (string \<rightharpoonup> Edge list)" where
  "connect elevationMask a b adj =
     (if Type a = Satellite \<and> Type b = Satellite then
        (if SatelliteToSatelliteVisible (Position a) (Position b)
         then addEdge b a (addEdge a b adj) else adj)
      else if Type a = Ground \<and> Type b = Satellite then
        (if GroundToSatelliteVisible (Position a) (Position b) elevationMask
         then addEdge b a (addEdge a b adj) else adj)
      else if Type a = Satellite \<and> Type b = Ground then
        (if GroundToSatelliteVisible (Position b) (Position a) elevationMask
         then addEdge b a (addEdge a b adj) else adj)
      else adj)"

text \<open>The double loop: node \<open>i\<close> against every node \<open>j > i\<close>, in list order.\<close>

fun linkAll :: "float64 \<Rightarrow> Node list \<Rightarrow> (string \<rightharpoonup> Edge list) \<Rightarrow> (string \<rightharpoonup> Edge list)" where
  "linkAll elevationMask [] adj = adj"
| "linkAll elevationMask (a # rest) adj =
     linkAll elevationMask rest (fold (connect elevationMask a) rest adj)"

definition BuildGraph :: "Node list \<Rightarrow> float64 \<Rightarrow> error + Graph" where
  "BuildGraph nodes elevationMask =
     (case insertNodes nodes Map.empty of
        Inl e \<Rightarrow> Inl e
      | Inr nm \<Rightarrow> Inr \<lparr>Nodes = nm, Adj = linkAll elevationMask nodes Map.empty\<rparr>)"

text \<open>\<^verbatim>\<open>Clone\<close> copies both maps; values are immutable here, so the copy is the graph.\<close>

definition Clone :: "Graph \<Rightarrow> Graph" where
  "Clone g = \<lparr>Nodes = Nodes g, Adj = Adj g\<rparr>"

definition RemoveEdge :: "Graph \<Rightarrow> string \<Rightarrow> string \<Rightarrow> Graph" where
  "RemoveEdge g from to =
     (let edges = adjOf (Adj g) from;
          filtered = filter (\<lambda>e. To e \<noteq> to) edges
      in if length filtered = 0 then g\<lparr>Adj := (Adj g)(from := None)\<rparr>
         else g\<lparr>Adj := (Adj g)(from \<mapsto> filtered)\<rparr>)"

text \<open>
  \<^verbatim>\<open>RemoveNode\<close> deletes the node and its adjacency list, then calls \<^verbatim>\<open>RemoveEdge(from, id)\<close>
  for every remaining key. Each call rewrites the entry of its own key only, so the loop
  is the pointwise map below, whatever order Go ranges over the keys in.
\<close>

definition RemoveNode :: "Graph \<Rightarrow> string \<Rightarrow> Graph" where
  "RemoveNode g nid =
     \<lparr>Nodes = (Nodes g)(nid := None),
      Adj = (\<lambda>from.
        if from = nid then None
        else (case Adj g from of
                None \<Rightarrow> None
              | Some edges \<Rightarrow>
                  (let filtered = filter (\<lambda>e. To e \<noteq> nid) edges
                   in if length filtered = 0 then None else Some filtered)))\<rparr>"

definition Heuristic :: "Graph \<Rightarrow> string \<Rightarrow> string \<Rightarrow> float64" where
  "Heuristic g from to =
     (case Nodes g from of
        None \<Rightarrow> Fin 0
      | Some src \<Rightarrow>
          (case Nodes g to of
             None \<Rightarrow> Fin 0
           | Some dst \<Rightarrow>
               (let dist = SlantRange (Position src) (Position dst)
                in fmul (fdiv dist SpeedOfLightKMPerS) (Fin 1000))))"

text \<open>The links of a graph, and the link-level reading of "both ends are ground nodes".\<close>

definition edges_of :: "Graph \<Rightarrow> Edge set" where
  "edges_of g = {e. \<exists>k es. Adj g k = Some es \<and> e \<in> set es}"

definition ground_node :: "Graph \<Rightarrow> string \<Rightarrow> bool" where
  "ground_node g nid = (case Nodes g nid of None \<Rightarrow> False | Some n \<Rightarrow> Type n = Ground)"

definition ground_ground_link :: "Graph \<Rightarrow> Edge \<Rightarrow> bool" where
  "ground_ground_link g e = (ground_node g (From e) \<and> ground_node g (To e))"

section \<open>Package routing: paths and their metrics\<close>

record Path =
  PathNodes :: "string list"
  PathLatencyMS :: float64
  BottleneckThroughput :: float64

text \<open>
  The loop of \<^verbatim>\<open>computePathMetrics\<close>: for each consecutive pair the first link of
  \<^verbatim>\<open>g.Adj[from]\<close> that leads to \<^verbatim>\<open>to\<close> counts; a pair with no link is the error.
\<close>

fun metricsLoop ::
  "Graph \<Rightarrow> string list \<Rightarrow> float64 \<Rightarrow> float64 \<Rightarrow> error + (float64 \<times> float64)" where
  "metricsLoop g (from # to # rest) totalLatency bottleneck =
     (case find (\<lambda>e. To e = to) (adjOf (Adj g) from) of
        None \<Rightarrow> Inl ErrMissingEdge
      | Some e \<Rightarrow>
          metricsLoop g (to # rest) (fadd totalLatency (LatencyMS e))
            (if flt (Throughput e) bottleneck then Throughput e else bottleneck))"
| "metricsLoop g [v] totalLatency bottleneck = Inr (totalLatency, bottleneck)"
| "metricsLoop g [] totalLatency bottleneck = Inr (totalLatency, bottleneck)"

definition computePathMetrics :: "Graph \<Rightarrow> string list \<Rightarrow> error + (float64 \<times> float64)" where
  "computePathMetrics g sequence =
     (if length sequence < 2 then Inr (Fin 0, PosInf) else metricsLoop g sequence (Fin 0) PosInf)"

section \<open>Package routing: the priority queue\<close>

text \<open>
  \<^verbatim>\<open>nodeCost\<close>, with the field \<^verbatim>\<open>index\<close> left out: \<^verbatim>\<open>Swap\<close>, \<^verbatim>\<open>Push\<close> and \<^verbatim>\<open>Pop\<close> write it and
  nothing reads it.
\<close>

record nodeCost =
  nc_id :: string
  nc_cost :: float64
  nc_g :: float64
  nc_path :: "string list"

type_synonym priorityQueue = "nodeCost list"

definition Less :: "priorityQueue \<Rightarrow> nat \<Rightarrow> nat \<Rightarrow> bool" where
  "Less pq i j = flt (nc_cost (pq ! i)) (nc_cost (pq ! j))"

definition Swap :: "priorityQueue \<Rightarrow> nat \<Rightarrow> nat \<Rightarrow> priorityQueue" where
  "Swap pq i j = pq[i := pq ! j, j := pq ! i]"

text \<open>
  \<^verbatim>\<open>container/heap\<close> of the Go standard library, over this queue: \<^verbatim>\<open>up\<close>, \<^verbatim>\<open>down\<close>,
  \<^verbatim>\<open>heap.Push\<close> and \<^verbatim>\<open>heap.Pop\<close>. In \<^verbatim>\<open>up\<close> Go computes \<^verbatim>\<open>(j - 1) / 2\<close> on ints, which is 0 for
  \<^verbatim>\<open>j = 0\<close>, as the truncated subtraction on \<open>nat\<close> gives.
\<close>

function up :: "priorityQueue \<Rightarrow> nat \<Rightarrow> priorityQueue" where
  "up h j =
     (let i = (j - 1) div 2
      in if i = j \<or> \<not> Less h j i then h else up (Swap h i j) i)"
  by pat_completeness auto
termination
  by (relation "measure (\<lambda>(h, j). j)") auto

function down :: "priorityQueue \<Rightarrow> nat \<Rightarrow> nat \<Rightarrow> priorityQueue" where
  "down h i n =
     (let j1 = 2 * i + 1
      in if j1 \<ge> n then h
         else
           let j = (if j1 + 1 < n \<and> Less h (j1 + 1) j1 then j1 + 1 else j1)
           in if \<not> Less h j i then h else down (Swap h i j) j n)"
  by pat_completeness auto
termination
  by (relation "measure (\<lambda>(h, i, n). n - i)") auto

declare up.simps [simp del] down.simps [simp del]

definition heap_Push :: "priorityQueue \<Rightarrow> nodeCost \<Rightarrow> priorityQueue" where
  "heap_Push h x = up (h @ [x]) (length (h @ [x]) - 1)"

text \<open>
  \<^verbatim>\<open>heap.Pop\<close> panics on an empty queue; both callers test \<^verbatim>\<open>Len\<close> first, and the model is
  used on non-empty queues only.
\<close>

definition heap_Pop :: "priorityQueue \<Rightarrow> nodeCost \<times> priorityQueue" where
  "heap_Pop h =
     (let n = length h - 1;
          h' = down (Swap h 0 n) 0 n
      in (h' ! n, take n h'))"

section \<open>Package routing: ShortestPath\<close>

text \<open>The body of the loop over \<^verbatim>\<open>g.Adj[current.id]\<close>: one push per outgoing link.\<close>

definition relax :: "(string \<Rightarrow> float64) \<Rightarrow> nodeCost \<Rightarrow> Edge \<Rightarrow> priorityQueue \<Rightarrow> priorityQueue" where
  "relax heuristic current edge openSet =
     (let tentativeG = fadd (nc_g current) (LatencyMS edge);
          estimate = fadd tentativeG (heuristic (To edge));
          newPath = nc_path current @ [To edge]
      in heap_Push openSet \<lparr>nc_id = To edge, nc_cost = estimate, nc_g = tentativeG, nc_path = newPath\<rparr>)"

definition pruned :: "(string \<rightharpoonup> float64) \<Rightarrow> nodeCost \<Rightarrow> bool" where
  "pruned visited current =
     (case visited (nc_id current) of None \<Rightarrow> False | Some prev \<Rightarrow> fge (nc_g current) prev)"

definition finishPath :: "Graph \<Rightarrow> nodeCost \<Rightarrow> error + Path" where
  "finishPath g current =
     (case computePathMetrics g (nc_path current) of
        Inl err \<Rightarrow> Inl err
      | Inr (latency, throughput) \<Rightarrow>
          Inr \<lparr>PathNodes = nc_path current, PathLatencyMS = latency, BottleneckThroughput = throughput\<rparr>)"

text \<open>
  The search loop. It need not terminate on every graph (a cycle of negative latency is
  relaxed for ever), so not returning is the value \<open>None\<close>. Go writes \<^verbatim>\<open>visited\<close> before it
  tests for the goal and returns at once in that case, so the write shows only when the
  loop goes on.
\<close>

partial_function (option) searchLoop ::
  "Graph \<Rightarrow> string \<Rightarrow> (string \<Rightarrow> float64) \<Rightarrow> priorityQueue \<Rightarrow> (string \<rightharpoonup> float64)
   \<Rightarrow> (error + Path) option"
where
  "searchLoop g goal heuristic openSet visited =
     (if length openSet > 0 then
        (let popped = heap_Pop openSet;
             current = fst popped;
             openSet' = snd popped
         in if pruned visited current then searchLoop g goal heuristic openSet' visited
            else if nc_id current = goal then Some (finishPath g current)
            else searchLoop g goal heuristic
                   (fold (relax heuristic current) (adjOf (Adj g) (nc_id current)) openSet')
                   (visited(nc_id current \<mapsto> nc_g current)))
      else Some (Inl ErrNoRoute))"

declare searchLoop.simps [code]

definition ShortestPath ::
  "Graph \<Rightarrow> string \<Rightarrow> string \<Rightarrow> (string \<Rightarrow> float64) option \<Rightarrow> (error + Path) option" where
  "ShortestPath g start goal heuristic_opt =
     (let heuristic = (case heuristic_opt of None \<Rightarrow> (\<lambda>_. Fin 0) | Some h \<Rightarrow> h)
      in if Nodes g start = None then Some (Inl (ErrUnknownStart start))
         else if Nodes g goal = None then Some (Inl (ErrUnknownGoal goal))
         else searchLoop g goal heuristic
                (heap_Push [] \<lparr>nc_id = start, nc_cost = heuristic start, nc_g = Fin 0,
                             nc_path = [start]\<rparr>)
                Map.empty)"

section \<open>Package routing: KAlternativeRoutes\<close>

definition equalPrefix :: "string list \<Rightarrow> string list \<Rightarrow> bool" where
  "equalPrefix a b = (if length a \<noteq> length b then False else list_all2 (=) a b)"

text \<open>
  The two loops that carve the spur graph. \<^verbatim>\<open>p.Nodes[i+1]\<close> is read whenever
  \<^verbatim>\<open>len(p.Nodes) > i\<close> and the prefix matches; when \<^verbatim>\<open>len(p.Nodes) = i + 1\<close> Go panics with an
  index out of range, which is the outcome \<open>Panic\<close> here.
\<close>

datatype 'a outcome = Panic | Done 'a

fun removeSharedEdges :: "string list \<Rightarrow> nat \<Rightarrow> Path list \<Rightarrow> Graph \<Rightarrow> Graph outcome" where
  "removeSharedEdges rootPath i [] spurGraph = Done spurGraph"
| "removeSharedEdges rootPath i (p # ps) spurGraph =
     (if length (PathNodes p) > i \<and> equalPrefix rootPath (take (i + 1) (PathNodes p)) then
        (if i + 1 < length (PathNodes p)
         then removeSharedEdges rootPath i ps
                (RemoveEdge spurGraph (PathNodes p ! i) (PathNodes p ! (i + 1)))
         else Panic)
      else removeSharedEdges rootPath i ps spurGraph)"

definition spurGraphOf :: "Graph \<Rightarrow> Path list \<Rightarrow> string list \<Rightarrow> nat \<Rightarrow> Graph outcome" where
  "spurGraphOf base paths rootPath i =
     (case removeSharedEdges rootPath i paths (Clone base) of
        Panic \<Rightarrow> Panic
      | Done spurGraph \<Rightarrow> Done (fold (\<lambda>rootNode g. RemoveNode g rootNode) (butlast rootPath) spurGraph))"

text \<open>
  The loop over the spur points \<open>i\<close> of the previous path. Its result is \<open>None\<close> when a
  search does not return, \<open>Some Panic\<close> when Go panics, and the grown candidate queue
  otherwise.
\<close>

fun spurLoop ::
  "Graph \<Rightarrow> string \<Rightarrow> Path list \<Rightarrow> Path \<Rightarrow> nat list \<Rightarrow> priorityQueue
   \<Rightarrow> priorityQueue outcome option" where
  "spurLoop base goal paths previousPath [] potential = Some (Done potential)"
| "spurLoop base goal paths previousPath (i # rest) potential =
     (let spurNode = PathNodes previousPath ! i;
          rootPath = take (i + 1) (PathNodes previousPath)
      in case spurGraphOf base paths rootPath i of
           Panic \<Rightarrow> Some Panic
         | Done spurGraph \<Rightarrow>
             (case ShortestPath spurGraph spurNode goal (Some (\<lambda>_. Fin 0)) of
                None \<Rightarrow> None
              | Some (Inl err) \<Rightarrow> spurLoop base goal paths previousPath rest potential
              | Some (Inr spurPath) \<Rightarrow>
                  (let newPathNodes = butlast rootPath @ PathNodes spurPath
                   in case computePathMetrics base newPathNodes of
                        Inl err \<Rightarrow> spurLoop base goal paths previousPath rest potential
                      | Inr (latency, throughput) \<Rightarrow>
                          spurLoop base goal paths previousPath rest
                            (heap_Push potential
                               \<lparr>nc_id = [], nc_cost = latency, nc_g = throughput,
                                nc_path = newPathNodes\<rparr>))))"

text \<open>
  The loop \<^verbatim>\<open>for pathIndex := 1; pathIndex < k; pathIndex++\<close>, by the number of rounds
  left; \<^verbatim>\<open>paths[pathIndex-1]\<close> is the last accepted path.
\<close>

fun routesLoop ::
  "Graph \<Rightarrow> string \<Rightarrow> nat \<Rightarrow> Path list \<Rightarrow> priorityQueue \<Rightarrow> Path list outcome option" where
  "routesLoop base goal 0 paths potential = Some (Done paths)"
| "routesLoop base goal (Suc n) paths potential =
     (let previousPath = last paths
      in case spurLoop base goal paths previousPath
                [0 ..< length (PathNodes previousPath) - 1] potential of
           None \<Rightarrow> None
         | Some Panic \<Rightarrow> Some Panic
         | Some (Done potential') \<Rightarrow>
             if length potential' = 0 then Some (Done paths)
             else
               (let popped = heap_Pop potential';
                    candidate = fst popped
                in routesLoop base goal n
                     (paths @ [\<lparr>PathNodes = nc_path candidate, PathLatencyMS = nc_cost candidate,
                                BottleneckThroughput = nc_g candidate\<rparr>])
                     (snd popped)))"

text \<open>
  \<^verbatim>\<open>KAlternativeRoutes\<close>: \<open>None\<close> when it does not return, \<open>Some Panic\<close> when it panics,
  \<open>Some (Done r)\<close> when it returns \<open>r\<close>.
\<close>

definition KAlternativeRoutes ::
  "Graph \<Rightarrow> string \<Rightarrow> string \<Rightarrow> int \<Rightarrow> (error + Path list) outcome option" where
  "KAlternativeRoutes g start goal k =
     (if k \<le> 0 then Some (Done (Inl ErrKNotPositive))
      else
        (let base = Clone g
         in case ShortestPath base start goal (Some (\<lambda>_. Fin 0)) of
              None \<Rightarrow> None
            | Some (Inl err) \<Rightarrow> Some (Done (Inl err))
            | Some (Inr primary) \<Rightarrow>
                (case routesLoop base goal (nat (k - 1)) [primary] [] of
                   None \<Rightarrow> None
                 | Some Panic \<Rightarrow> Some Panic
                 | Some (Done paths) \<Rightarrow> Some (Done (Inr paths)))))"

section \<open>Package coverage\<close>

definition EarthRadiusKm :: float64 where
  "EarthRadiusKm = Fin 6371"

record GridConfig =
  LatStep :: float64
  LonStep :: float64

text \<open>\<^verbatim>\<open>Validate\<close>: \<open>None\<close> is Go's nil error.\<close>

definition Validate :: "GridConfig \<Rightarrow> error option" where
  "Validate c =
     (if fle (LatStep c) (Fin 0) \<or> fle (LonStep c) (Fin 0) then Some ErrGridStepsNotPositive
      else if fgt (LatStep c) (Fin 180) \<or> fgt (LonStep c) (Fin 360) then Some ErrGridStepsTooLarge
      else None)"

record Footprint =
  CenterLat :: float64
  CenterLon :: float64
  RadiusKm :: float64
  LinkStrength :: float64

record Cell =
  Lat :: float64
  Lon :: float64
  CoverageCount :: int
  StrongestLink :: float64

definition Covered :: "Cell \<Rightarrow> bool" where
  "Covered c = (CoverageCount c > 0)"

record CoverageGrid =
  GridCfg :: GridConfig
  cells :: "Cell list"

text \<open>
  The two loops of \<^verbatim>\<open>NewCoverageGrid\<close>, appending to \<^verbatim>\<open>cells\<close>. A step that \<^verbatim>\<open>Validate\<close> accepts
  can still be too small to change the sum \<^verbatim>\<open>lat + config.LatStep\<close> once it is rounded, and
  the loop then runs for ever: the result \<open>None\<close>.
\<close>

partial_function (option) lonLoop ::
  "float64 \<Rightarrow> float64 \<Rightarrow> float64 \<Rightarrow> Cell list \<Rightarrow> Cell list option" where
  "lonLoop lonStep lat lon acc =
     (if flt lon (Fin 180)
      then lonLoop lonStep lat (fadd lon lonStep)
             (acc @ [\<lparr>Lat = lat, Lon = lon, CoverageCount = 0, StrongestLink = Fin 0\<rparr>])
      else Some acc)"

partial_function (option) latLoop ::
  "float64 \<Rightarrow> float64 \<Rightarrow> float64 \<Rightarrow> Cell list \<Rightarrow> Cell list option" where
  "latLoop latStep lonStep lat acc =
     (if flt lat (Fin 90)
      then (case lonLoop lonStep lat (fadd (Fin (- 180)) (fdiv lonStep (Fin 2))) acc of
              None \<Rightarrow> None
            | Some acc' \<Rightarrow> latLoop latStep lonStep (fadd lat latStep) acc')
      else Some acc)"

declare lonLoop.simps [code] latLoop.simps [code]

text \<open>\<^verbatim>\<open>NewCoverageGrid\<close>: \<open>None\<close> when it does not return.\<close>

definition NewCoverageGrid :: "GridConfig \<Rightarrow> (error + CoverageGrid) option" where
  "NewCoverageGrid config =
     (case Validate config of
        Some err \<Rightarrow> Some (Inl err)
      | None \<Rightarrow>
          (case latLoop (LatStep config) (LonStep config)
                  (fadd (Fin (- 90)) (fdiv (LatStep config) (Fin 2))) [] of
             None \<Rightarrow> None
           | Some cs \<Rightarrow> Some (Inr \<lparr>GridCfg = config, cells = cs\<rparr>)))"

text \<open>The constant \<^verbatim>\<open>degToRad\<close>, the exact quotient rounded once.\<close>

definition degToRad :: float64 where
  "degToRad = rnd (math_Pi / 180)"

definition haversineDistanceKm :: "float64 \<Rightarrow> float64 \<Rightarrow> float64 \<Rightarrow> float64 \<Rightarrow> float64" where
  "haversineDistanceKm lat1 lon1 lat2 lon2 =
     (let dLat = fmul (fsub lat2 lat1) degToRad;
          dLon = fmul (fsub lon2 lon1) degToRad;
          lat1Rad = fmul lat1 degToRad;
          lat2Rad = fmul lat2 degToRad;
          sinLat = math_Sin (fdiv dLat (Fin 2));
          sinLon = math_Sin (fdiv dLon (Fin 2));
          a = fadd (fmul sinLat sinLat)
                (fmul (fmul (fmul sinLon sinLon) (math_Cos lat1Rad)) (math_Cos lat2Rad));
          c = fmul (Fin 2) (math_Atan2 (fsqrt a) (fsqrt (fsub (Fin 1) a)))
      in fmul EarthRadiusKm c)"

definition pointInsideFootprint :: "float64 \<Rightarrow> float64 \<Rightarrow> Footprint \<Rightarrow> bool" where
  "pointInsideFootprint lat lon footprint =
     (let distance = haversineDistanceKm lat lon (CenterLat footprint) (CenterLon footprint)
      in fle distance (RadiusKm footprint))"

text \<open>The body of the inner loop of \<^verbatim>\<open>ApplyFootprints\<close>: one footprint against one cell.\<close>

definition applyFootprint :: "Footprint \<Rightarrow> Cell \<Rightarrow> Cell" where
  "applyFootprint footprint cell =
     (if fle (RadiusKm footprint) (Fin 0) then cell
      else if pointInsideFootprint (Lat cell) (Lon cell) footprint then
        cell\<lparr>CoverageCount := CoverageCount cell + 1,
             StrongestLink := (if fgt (LinkStrength footprint) (StrongestLink cell)
                               then LinkStrength footprint else StrongestLink cell)\<rparr>
      else cell)"

definition ApplyFootprints :: "CoverageGrid \<Rightarrow> Footprint list \<Rightarrow> CoverageGrid" where
  "ApplyFootprints g footprints =
     g\<lparr>cells := map (\<lambda>cell. fold applyFootprint footprints cell) (cells g)\<rparr>"

record GapSample =
  GapLat :: float64
  GapLon :: float64

record Summary =
  TotalCells :: int
  CoveredCells :: int
  CoveragePercent :: float64
  UncoveredSamples :: "GapSample list"

text \<open>The loop of \<^verbatim>\<open>Summarize\<close>: count the covered cells, list the others in grid order.\<close>

fun summarizeLoop :: "Cell list \<Rightarrow> int \<Rightarrow> GapSample list \<Rightarrow> int \<times> GapSample list" where
  "summarizeLoop [] covered gaps = (covered, gaps)"
| "summarizeLoop (cell # rest) covered gaps =
     (if Covered cell then summarizeLoop rest (covered + 1) gaps
      else summarizeLoop rest covered (gaps @ [\<lparr>GapLat = Lat cell, GapLon = Lon cell\<rparr>]))"

definition Summarize :: "CoverageGrid \<Rightarrow> Summary" where
  "Summarize g =
     (let r = summarizeLoop (cells g) 0 [];
          covered = fst r;
          gaps = snd r;
          total = int (length (cells g));
          percent = (if total > 0
                     then fmul (fdiv (float64_of_int covered) (float64_of_int total)) (Fin 100)
                     else Fin 0)
      in \<lparr>TotalCells = total, CoveredCells = covered, CoveragePercent = percent,
          UncoveredSamples = gaps\<rparr>)"

record HeatmapCell =
  HeatLat :: float64
  HeatLon :: float64
  HeatCovered :: bool
  HeatCount :: int
  HeatStrength :: float64

definition HeatmapData :: "CoverageGrid \<Rightarrow> HeatmapCell list" where
  "HeatmapData g =
     map (\<lambda>cell. \<lparr>HeatLat = Lat cell, HeatLon = Lon cell, HeatCovered = Covered cell,
                   HeatCount = CoverageCount cell, HeatStrength = StrongestLink cell\<rparr>) (cells g)"

section \<open>Package simulation\<close>

datatype EventType = EventTopologyUpdated | EventCoverageUpdated

record SimSatellite =
  SatID :: string
  SatPosition :: Vector3
  SatFootprint :: Footprint
  Active :: bool

record GroundStation =
  GsID :: string
  GsPosition :: Vector3

record TrafficDemand =
  DemandID :: string
  FromID :: string
  ToID :: string

record Config =
  Satellites :: "SimSatellite list"
  GroundStations :: "GroundStation list"
  Traffic :: "TrafficDemand list"
  CfgGrid :: GridConfig
  ElevationMask :: float64

text \<open>\<^verbatim>\<open>Timestamp\<close> is the reading of the clock, a number here.\<close>

record Snapshot =
  Timestamp :: nat
  ActiveSatellites :: "string list"
  DisabledSatellites :: "string list"
  Coverage :: Summary
  Heatmap :: "HeatmapCell list"
  Routes :: "string \<rightharpoonup> Path"

record Event =
  EvType :: EventType
  EvSnapshot :: Snapshot

text \<open>
  The simulator, without its mutex: the model is sequential. \<^verbatim>\<open>satellites\<close> maps an identity
  to a pointer in Go and every pointer is owned by the map, so the map holds the values.
  \<^verbatim>\<open>events\<close> is the content of the buffered channel, oldest first.
\<close>

record Simulator =
  s_elevationMask :: float64
  s_gridConfig :: GridConfig
  s_satellites :: "string \<rightharpoonup> SimSatellite"
  s_ground :: "string \<rightharpoonup> GroundStation"
  s_traffic :: "TrafficDemand list"
  s_graph :: "Graph option"
  s_routes :: "string \<rightharpoonup> Path"
  s_events :: "Event list"
  s_snapshot :: Snapshot

text \<open>Go's zero \<^verbatim>\<open>Snapshot{}\<close>: the value of the field before the first recompute.\<close>

definition zeroSnapshot :: Snapshot where
  "zeroSnapshot =
     \<lparr>Timestamp = 0, ActiveSatellites = [], DisabledSatellites = [],
      Coverage = \<lparr>TotalCells = 0, CoveredCells = 0, CoveragePercent = Fin 0,
                  UncoveredSamples = []\<rparr>,
      Heatmap = [], Routes = Map.empty\<rparr>"

definition eventCapacity :: nat where
  "eventCapacity = 8"

text \<open>\<^verbatim>\<open>publishEvent\<close>: a send that does not block; a full channel drops the event.\<close>

definition publishEvent :: "Simulator \<Rightarrow> EventType \<Rightarrow> Snapshot \<Rightarrow> Simulator" where
  "publishEvent s eventType snapshot =
     (if length (s_events s) < eventCapacity
      then s\<lparr>s_events := s_events s @ [\<lparr>EvType = eventType, EvSnapshot = snapshot\<rparr>]\<rparr>
      else s)"

text \<open>The loop over the traffic demands: a demand with no route is left out.\<close>

fun routeAll :: "Graph \<Rightarrow> TrafficDemand list \<Rightarrow> (string \<rightharpoonup> Path) \<Rightarrow> (string \<rightharpoonup> Path) option" where
  "routeAll graph [] routes = Some routes"
| "routeAll graph (demand # rest) routes =
     (case ShortestPath graph (FromID demand) (ToID demand)
             (Some (\<lambda>nid. Heuristic graph nid (ToID demand))) of
        None \<Rightarrow> None
      | Some (Inl err) \<Rightarrow> routeAll graph rest routes
      | Some (Inr path) \<Rightarrow> routeAll graph rest (routes(DemandID demand \<mapsto> path)))"

text \<open>
  Go ranges over a map in an order it does not specify and that changes from one loop to
  the next. \<^verbatim>\<open>recomputeLocked\<close> ranges over \<^verbatim>\<open>s.satellites\<close> and \<^verbatim>\<open>s.ground\<close>, so the model takes
  the two orders as arguments: \<open>satOrder\<close> and \<open>groundOrder\<close> list the keys in the order of
  the visit. An order is meaningful when it enumerates the keys of its map.
\<close>

definition enumerates :: "string list \<Rightarrow> (string \<rightharpoonup> 'a) \<Rightarrow> bool" where
  "enumerates order m = (distinct order \<and> set order = dom m)"

text \<open>
  \<^verbatim>\<open>recomputeLocked\<close>, with the clock reading \<open>now\<close>. The result is \<open>None\<close> when a path search
  or the construction of the grid does not return; otherwise the simulator after the call
  and what the call returns.
\<close>

definition recomputeLocked ::
  "nat \<Rightarrow> string list \<Rightarrow> string list \<Rightarrow> Simulator \<Rightarrow> (Simulator \<times> (error + Snapshot)) option" where
  "recomputeLocked now satOrder groundOrder s =
     (let sats = List.map_filter (s_satellites s) satOrder;
          stations = List.map_filter (s_ground s) groundOrder;
          active = filter Active sats;
          nodes = map (\<lambda>sat. \<lparr>ID = SatID sat, Type = Satellite, Position = SatPosition sat\<rparr>) active
                  @ map (\<lambda>gs. \<lparr>ID = GsID gs, Type = Ground, Position = GsPosition gs\<rparr>) stations;
          activeIDs = map SatID active;
          disabledIDs = map SatID (filter (\<lambda>sat. \<not> Active sat) sats);
          footprints = map SatFootprint active
      in case BuildGraph nodes (s_elevationMask s) of
           Inl err \<Rightarrow> Some (s, Inl err)
         | Inr graph \<Rightarrow>
             (case routeAll graph (s_traffic s) Map.empty of
                None \<Rightarrow> None
              | Some routes \<Rightarrow>
                  (let s1 = s\<lparr>s_graph := Some graph, s_routes := routes\<rparr>
                   in case NewCoverageGrid (s_gridConfig s) of
                        None \<Rightarrow> None
                      | Some (Inl err) \<Rightarrow> Some (s1, Inl err)
                      | Some (Inr grid) \<Rightarrow>
                          (let grid' = ApplyFootprints grid footprints;
                               summary = Summarize grid';
                               snapshot = \<lparr>Timestamp = now, ActiveSatellites = activeIDs,
                                           DisabledSatellites = disabledIDs, Coverage = summary,
                                           Heatmap = HeatmapData grid', Routes = routes\<rparr>;
                               s2 = s1\<lparr>s_snapshot := snapshot\<rparr>;
                               s3 = publishEvent s2 EventTopologyUpdated snapshot;
                               s4 = publishEvent s3 EventCoverageUpdated snapshot
                           in Some (s4, Inr snapshot)))))"

text \<open>The two loops of \<^verbatim>\<open>NewSimulator\<close> that fill the maps.\<close>

fun insertSatellites ::
  "SimSatellite list \<Rightarrow> (string \<rightharpoonup> SimSatellite) \<Rightarrow> error + (string \<rightharpoonup> SimSatellite)" where
  "insertSatellites [] sats = Inr sats"
| "insertSatellites (sat # rest) sats =
     (if SatID sat = [] then Inl ErrSatelliteIDEmpty
      else if sats (SatID sat) \<noteq> None then Inl ErrDuplicateSatelliteID
      else insertSatellites rest (sats(SatID sat \<mapsto> sat\<lparr>Active := True\<rparr>)))"

fun insertGroundStations ::
  "GroundStation list \<Rightarrow> (string \<rightharpoonup> GroundStation) \<Rightarrow> error + (string \<rightharpoonup> GroundStation)" where
  "insertGroundStations [] ground = Inr ground"
| "insertGroundStations (gs # rest) ground =
     (if GsID gs = [] then Inl ErrGroundStationIDEmpty
      else insertGroundStations rest (ground(GsID gs \<mapsto> gs)))"

definition NewSimulator ::
  "nat \<Rightarrow> string list \<Rightarrow> string list \<Rightarrow> Config \<Rightarrow> (error + Simulator) option" where
  "NewSimulator now satOrder groundOrder cfg =
     (case Validate (CfgGrid cfg) of
        Some err \<Rightarrow> Some (Inl err)
      | None \<Rightarrow>
          if length (Satellites cfg) = 0 then Some (Inl ErrNoSatellite)
          else if length (GroundStations cfg) = 0 then Some (Inl ErrNoGroundStation)
          else
            (case insertSatellites (Satellites cfg) Map.empty of
               Inl err \<Rightarrow> Some (Inl err)
             | Inr sats \<Rightarrow>
                 (case insertGroundStations (GroundStations cfg) Map.empty of
                    Inl err \<Rightarrow> Some (Inl err)
                  | Inr ground \<Rightarrow>
                      (let sim = \<lparr>s_elevationMask = ElevationMask cfg,
                                  s_gridConfig = CfgGrid cfg,
                                  s_satellites = sats,
                                  s_ground = ground,
                                  s_traffic = Traffic cfg,
                                  s_graph = None,
                                  s_routes = Map.empty,
                                  s_events = [],
                                  s_snapshot = zeroSnapshot\<rparr>
                       in case recomputeLocked now satOrder groundOrder sim of
                            None \<Rightarrow> None
                          | Some (sim', Inl err) \<Rightarrow> Some (Inl err)
                          | Some (sim', Inr snapshot) \<Rightarrow> Some (Inr sim')))))"

definition DisableSatellite ::
  "nat \<Rightarrow> string list \<Rightarrow> string list \<Rightarrow> Simulator \<Rightarrow> string
   \<Rightarrow> (Simulator \<times> (error + Snapshot)) option" where
  "DisableSatellite now satOrder groundOrder s sid =
     (case s_satellites s sid of
        None \<Rightarrow> Some (s, Inl ErrUnknownSatellite)
      | Some sat \<Rightarrow>
          recomputeLocked now satOrder groundOrder
            (s\<lparr>s_satellites := (s_satellites s)(sid \<mapsto> sat\<lparr>Active := False\<rparr>)\<rparr>))"

definition RemoveSatellite ::
  "nat \<Rightarrow> string list \<Rightarrow> string list \<Rightarrow> Simulator \<Rightarrow> string
   \<Rightarrow> (Simulator \<times> (error + Snapshot)) option" where
  "RemoveSatellite now satOrder groundOrder s sid =
     (case s_satellites s sid of
        None \<Rightarrow> Some (s, Inl ErrUnknownSatellite)
      | Some sat \<Rightarrow>
          recomputeLocked now satOrder groundOrder
            (s\<lparr>s_satellites := (s_satellites s)(sid := None)\<rparr>))"

definition Recompute ::
  "nat \<Rightarrow> string list \<Rightarrow> string list \<Rightarrow> Simulator \<Rightarrow> (Simulator \<times> (error + Snapshot)) option" where
  "Recompute now satOrder groundOrder s = recomputeLocked now satOrder groundOrder s"

section \<open>Notions used to state the properties\<close>

text \<open>The links stored in an adjacency map, and when the builder links a pair of nodes.\<close>

definition adj_edges :: "(string \<rightharpoonup> Edge list) \<Rightarrow> Edge set" where
  "adj_edges adj = {e. \<exists>k es. adj k = Some es \<and> e \<in> set es}"

definition visible_pair :: "float64 \<Rightarrow> Node \<Rightarrow> Node \<Rightarrow> bool" where
  "visible_pair elevationMask a b =
     ((Type a = Satellite \<and> Type b = Satellite \<and> SatelliteToSatelliteVisible (Position a) (Position b))
      \<or> (Type a = Ground \<and> Type b = Satellite \<and> GroundToSatelliteVisible (Position a) (Position b) elevationMask)
      \<or> (Type a = Satellite \<and> Type b = Ground \<and> GroundToSatelliteVisible (Position b) (Position a) elevationMask))"

text \<open>A structural edit of a graph: the operations of \<^verbatim>\<open>RemoveEdge\<close> and \<^verbatim>\<open>RemoveNode\<close>.\<close>

datatype edit = DelEdge string string | DelNode string

fun apply_edit :: "edit \<Rightarrow> Graph \<Rightarrow> Graph" where
  "apply_edit (DelEdge from to) g = RemoveEdge g from to"
| "apply_edit (DelNode nid) g = RemoveNode g nid"


text \<open>Every link is stored under the identity it starts from.\<close>

definition keyed :: "(string \<rightharpoonup> Edge list) \<Rightarrow> bool" where
  "keyed adj = (\<forall>k es e. adj k = Some es \<longrightarrow> e \<in> set es \<longrightarrow> From e = k)"

text \<open>A position whose three coordinates are finite numbers.\<close>

definition finite_vec :: "Vector3 \<Rightarrow> bool" where
  "finite_vec p = (\<exists>x y z. p = \<lparr>X = Fin x, Y = Fin y, Z = Fin z\<rparr>)"

text \<open>
  The geometry the specification speaks of, in exact real arithmetic. The elevation angle of
  a satellite seen from a ground point is the angle between the line of sight and the local
  horizontal plane, that is the arcsine of the cosine of the angle between the line of sight
  and the local vertical; and a segment meets the ball of some radius around the centre of
  the Earth when one of its points is at that distance or nearer.
\<close>

definition fval :: "float64 \<Rightarrow> real" where
  "fval a = (case a of Fin x \<Rightarrow> x | _ \<Rightarrow> 0)"

definition exact_elevation :: "Vector3 \<Rightarrow> Vector3 \<Rightarrow> real" where
  "exact_elevation ground satellite =
     (let gx = fval (X ground); gy = fval (Y ground); gz = fval (Z ground);
          tx = fval (X satellite) - gx; ty = fval (Y satellite) - gy; tz = fval (Z satellite) - gz
      in arcsin ((tx * gx + ty * gy + tz * gz)
                 / (sqrt (tx * tx + ty * ty + tz * tz) * sqrt (gx * gx + gy * gy + gz * gz))))"

definition segment_meets_ball :: "Vector3 \<Rightarrow> Vector3 \<Rightarrow> real \<Rightarrow> bool" where
  "segment_meets_ball p0 p1 radius =
     (\<exists>t. 0 \<le> t \<and> t \<le> 1
          \<and> (fval (X p0) + t * (fval (X p1) - fval (X p0)))\<^sup>2
            + (fval (Y p0) + t * (fval (Y p1) - fval (Y p0)))\<^sup>2
            + (fval (Z p0) + t * (fval (Z p1) - fval (Z p0)))\<^sup>2 \<le> radius\<^sup>2)"

section \<open>Concrete inputs\<close>

text \<open>
  A satellite 500 km above a ground station on the x axis, and a ground station on the far
  side of the Earth that reuses the satellite's identity.
\<close>

definition ex_sat :: Node where
  "ex_sat = \<lparr>ID = ''x'', Type = Satellite, Position = \<lparr>X = Fin 6871, Y = Fin 0, Z = Fin 0\<rparr>\<rparr>"
definition ex_ground :: Node where
  "ex_ground = \<lparr>ID = ''g'', Type = Ground, Position = \<lparr>X = Fin 6371, Y = Fin 0, Z = Fin 0\<rparr>\<rparr>"
definition ex_ground_x :: Node where
  "ex_ground_x = \<lparr>ID = ''x'', Type = Ground, Position = \<lparr>X = Fin (- 6371), Y = Fin 0, Z = Fin 0\<rparr>\<rparr>"

text \<open>A second satellite, 1000 km above the same ground station.\<close>

definition ex_sat_far :: Node where
  "ex_sat_far = \<lparr>ID = ''y'', Type = Satellite, Position = \<lparr>X = Fin 7371, Y = Fin 0, Z = Fin 0\<rparr>\<rparr>"

text \<open>The graph \<^verbatim>\<open>BuildGraph\<close> returns for the satellite, the ground station and the ground
  station that reuses the satellite's identity.\<close>

definition dup_graph :: Graph where
  "dup_graph = \<lparr>Nodes = [''x'' \<mapsto> ex_ground_x, ''g'' \<mapsto> ex_ground],
          Adj = [''x'' \<mapsto> [mkEdge ex_sat ex_ground], ''g'' \<mapsto> [mkEdge ex_ground ex_sat]]\<rparr>"


text \<open>
  Three satellites: \<open>b\<close> is 64 km from \<open>a\<close>, and \<open>c\<close> is farther from \<open>a\<close> by \<open>2\<close> to the
  power \<open>-44\<close> km. Then \<^verbatim>\<open>BuildGraph\<close> links every pair.
\<close>

definition near_a :: Node where
  "near_a = \<lparr>ID = ''a'', Type = Satellite, Position = \<lparr>X = Fin 7000, Y = Fin 0, Z = Fin 0\<rparr>\<rparr>"
definition near_b :: Node where
  "near_b = \<lparr>ID = ''b'', Type = Satellite, Position = \<lparr>X = Fin 7000, Y = Fin 64, Z = Fin 0\<rparr>\<rparr>"
definition near_c :: Node where
  "near_c = \<lparr>ID = ''c'', Type = Satellite,
             Position = \<lparr>X = Fin 7000, Y = Fin 0, Z = Fin (64 + 1 / 2 ^ 44)\<rparr>\<rparr>"

definition near_graph :: Graph where
  "near_graph =
     \<lparr>Nodes = [''a'' \<mapsto> near_a, ''b'' \<mapsto> near_b, ''c'' \<mapsto> near_c],
      Adj = [''a'' \<mapsto> [mkEdge near_a near_b, mkEdge near_a near_c],
             ''b'' \<mapsto> [mkEdge near_b near_a, mkEdge near_b near_c],
             ''c'' \<mapsto> [mkEdge near_c near_a, mkEdge near_c near_b]]\<rparr>"

text \<open>Two satellites so far apart that the square of their distance overflows.\<close>

definition far_a :: Node where
  "far_a = \<lparr>ID = ''a'', Type = Satellite, Position = \<lparr>X = Fin (2 ^ 512), Y = Fin 0, Z = Fin 0\<rparr>\<rparr>"
definition far_b :: Node where
  "far_b = \<lparr>ID = ''b'', Type = Satellite, Position = \<lparr>X = Fin (- (2 ^ 512)), Y = Fin 0, Z = Fin 0\<rparr>\<rparr>"

definition far_graph :: Graph where
  "far_graph =
     \<lparr>Nodes = [''a'' \<mapsto> far_a, ''b'' \<mapsto> far_b],
      Adj = [''a'' \<mapsto> [mkEdge far_a far_b], ''b'' \<mapsto> [mkEdge far_b far_a]]\<rparr>"

text \<open>
  A ground point 6500 km from the centre of the Earth and a satellite straight above it,
  1300 km higher.
\<close>

definition overhead_ground :: Vector3 where
  "overhead_ground = \<lparr>X = Fin 6000, Y = Fin 2500, Z = Fin 0\<rparr>"
definition overhead_sat :: Vector3 where
  "overhead_sat = \<lparr>X = Fin 7200, Y = Fin 3000, Z = Fin 0\<rparr>"

text \<open>Four satellites on a line: \<^verbatim>\<open>BuildGraph\<close> links every pair.\<close>

definition line_a :: Node where
  "line_a = \<lparr>ID = ''a'', Type = Satellite, Position = \<lparr>X = Fin 7000, Y = Fin 0, Z = Fin 0\<rparr>\<rparr>"
definition line_b :: Node where
  "line_b = \<lparr>ID = ''b'', Type = Satellite, Position = \<lparr>X = Fin 7100, Y = Fin 0, Z = Fin 0\<rparr>\<rparr>"
definition line_c :: Node where
  "line_c = \<lparr>ID = ''c'', Type = Satellite, Position = \<lparr>X = Fin 7950, Y = Fin 0, Z = Fin 0\<rparr>\<rparr>"
definition line_d :: Node where
  "line_d = \<lparr>ID = ''d'', Type = Satellite, Position = \<lparr>X = Fin 8650, Y = Fin 0, Z = Fin 0\<rparr>\<rparr>"

definition line_graph :: Graph where
  "line_graph =
     \<lparr>Nodes = [''a'' \<mapsto> line_a, ''b'' \<mapsto> line_b, ''c'' \<mapsto> line_c, ''d'' \<mapsto> line_d],
      Adj = [''a'' \<mapsto> [mkEdge line_a line_b, mkEdge line_a line_c, mkEdge line_a line_d],
             ''b'' \<mapsto> [mkEdge line_b line_a, mkEdge line_b line_c, mkEdge line_b line_d],
             ''c'' \<mapsto> [mkEdge line_c line_a, mkEdge line_c line_b, mkEdge line_c line_d],
             ''d'' \<mapsto> [mkEdge line_d line_a, mkEdge line_d line_b, mkEdge line_d line_c]]\<rparr>"
section \<open>Notions used to state the properties of the simulator\<close>

text \<open>The mutating operations of the engine, and running one of them.\<close>

datatype operation = OpDisable string | OpRemove string | OpRecompute

fun run_operation ::
  "nat \<Rightarrow> string list \<Rightarrow> string list \<Rightarrow> Simulator \<Rightarrow> operation
   \<Rightarrow> (Simulator \<times> (error + Snapshot)) option" where
  "run_operation now satOrder groundOrder s (OpDisable sid) = DisableSatellite now satOrder groundOrder s sid"
| "run_operation now satOrder groundOrder s (OpRemove sid) = RemoveSatellite now satOrder groundOrder s sid"
| "run_operation now satOrder groundOrder s OpRecompute = Recompute now satOrder groundOrder s"

text \<open>The node list \<^verbatim>\<open>recomputeLocked\<close> hands to \<^verbatim>\<open>BuildGraph\<close>.\<close>

definition sim_nodes :: "Simulator \<Rightarrow> string list \<Rightarrow> string list \<Rightarrow> Node list" where
  "sim_nodes s satOrder groundOrder =
     map (\<lambda>sat. \<lparr>ID = SatID sat, Type = Satellite, Position = SatPosition sat\<rparr>)
                  (filter Active (List.map_filter (s_satellites s) satOrder))
                @ map (\<lambda>gs. \<lparr>ID = GsID gs, Type = Ground, Position = GsPosition gs\<rparr>)
                  (List.map_filter (s_ground s) groundOrder)"

text \<open>
  What \<^verbatim>\<open>NewSimulator\<close> has checked of the state it returns: the grid steps are valid and no
  stored satellite or ground station has the empty identity.
\<close>

definition wf_sim :: "Simulator \<Rightarrow> bool" where
  "wf_sim s =
     (Validate (s_gridConfig s) = None
      \<and> (\<forall>k sat. s_satellites s k = Some sat \<longrightarrow> SatID sat \<noteq> [])
      \<and> (\<forall>k gs. s_ground s k = Some gs \<longrightarrow> GsID gs \<noteq> []))"

text \<open>
  The states the engine can be in: the fields of \<^verbatim>\<open>Simulator\<close> are unexported, so a state is
  what \<^verbatim>\<open>NewSimulator\<close> returned, or what a mutating operation left behind, whatever it
  returned. The clock reading and the two iteration orders of each call are arbitrary.
\<close>

inductive reachable :: "Simulator \<Rightarrow> bool" where
  initial: "NewSimulator now satOrder groundOrder cfg = Some (Inr s) \<Longrightarrow> reachable s"
| step: "reachable s \<Longrightarrow> run_operation now satOrder groundOrder s op = Some (s', r)
         \<Longrightarrow> reachable s'"

text \<open>
  A configuration whose two ground stations share the identity \<open>g\<close>, and one with a single
  satellite above a single ground station.
\<close>

definition dup_ground_config :: Config where
  "dup_ground_config =
     \<lparr>Satellites = [\<lparr>SatID = ''s'', SatPosition = \<lparr>X = Fin 6871, Y = Fin 0, Z = Fin 0\<rparr>,
                      SatFootprint = \<lparr>CenterLat = Fin 0, CenterLon = Fin 0, RadiusKm = Fin 900,
                                      LinkStrength = Fin 1\<rparr>,
                      Active = False\<rparr>],
      GroundStations = [\<lparr>GsID = ''g'', GsPosition = \<lparr>X = Fin 6371, Y = Fin 0, Z = Fin 0\<rparr>\<rparr>,
                        \<lparr>GsID = ''g'', GsPosition = \<lparr>X = Fin 0, Y = Fin 6371, Z = Fin 0\<rparr>\<rparr>],
      Traffic = [],
      CfgGrid = \<lparr>LatStep = Fin 180, LonStep = Fin 360\<rparr>,
      ElevationMask = Fin 0\<rparr>"

definition ex_config :: Config where
  "ex_config =
     \<lparr>Satellites = [\<lparr>SatID = ''s'', SatPosition = \<lparr>X = Fin 6871, Y = Fin 0, Z = Fin 0\<rparr>,
                      SatFootprint = \<lparr>CenterLat = Fin 0, CenterLon = Fin 0, RadiusKm = Fin 900,
                                      LinkStrength = Fin 1\<rparr>,
                      Active = False\<rparr>],
      GroundStations = [\<lparr>GsID = ''g'', GsPosition = \<lparr>X = Fin 6371, Y = Fin 0, Z = Fin 0\<rparr>\<rparr>],
      Traffic = [],
      CfgGrid = \<lparr>LatStep = Fin 180, LonStep = Fin 360\<rparr>,
      ElevationMask = Fin 0\<rparr>"

section \<open>Rounding and the arithmetic of float64\<close>

lemma pow2_powr: "pow2 e = 2 powr (of_int e)"
proof (cases "0 \<le> e")
  case True
  then have "2 powr (of_int e) = (2::real) powr (real (nat e))" by simp
  also have "\<dots> = 2 ^ nat e" by (simp add: powr_realpow)
  finally show ?thesis using True by (simp add: pow2_def)
next
  case False
  then have "2 powr (of_int e) = (2::real) powr (- real (nat (- e)))" by simp
  also have "\<dots> = 1 / 2 ^ nat (- e)" by (simp add: powr_minus powr_realpow divide_inverse)
  finally show ?thesis using False by (simp add: pow2_def)
qed

lemma pow2_pos [simp]: "0 < pow2 e"
  by (simp add: pow2_powr)

lemma pow2_add: "pow2 (a + b) = pow2 a * pow2 b"
  by (simp add: pow2_powr powr_add)

lemma pow2_mono: "a \<le> b \<Longrightarrow> pow2 a \<le> pow2 b"
  by (simp add: pow2_powr)

lemma pow2_strict_mono: "a < b \<Longrightarrow> pow2 a < pow2 b"
  by (simp add: pow2_powr)

lemma pow2_nat: "pow2 (int n) = 2 ^ n"
  by (simp add: pow2_def)

lemma rhe_cases: "rhe y = \<lfloor>y\<rfloor> \<or> rhe y = \<lfloor>y\<rfloor> + 1"
  by (simp add: rhe_def Let_def)

lemma rhe_of_int [simp]: "rhe (of_int n) = n"
  by (simp add: rhe_def)

lemma rhe_char:
  "(rhe y = \<lfloor>y\<rfloor> \<and> y - of_int \<lfloor>y\<rfloor> \<le> 1 / 2)
   \<or> (rhe y = \<lfloor>y\<rfloor> + 1 \<and> 1 / 2 \<le> y - of_int \<lfloor>y\<rfloor>)"
proof -
  let ?r = "y - of_int \<lfloor>y\<rfloor>"
  consider "?r < 1 / 2" | "1 / 2 < ?r" | "?r = 1 / 2" by linarith
  then show ?thesis
  proof cases
    case 1
    then have "rhe y = \<lfloor>y\<rfloor>" by (simp add: rhe_def Let_def)
    with 1 show ?thesis by linarith
  next
    case 2
    then have "rhe y = \<lfloor>y\<rfloor> + 1" by (simp add: rhe_def Let_def)
    with 2 show ?thesis by linarith
  next
    case 3
    then have "rhe y = \<lfloor>y\<rfloor> \<or> rhe y = \<lfloor>y\<rfloor> + 1" by (simp add: rhe_def Let_def)
    with 3 show ?thesis by linarith
  qed
qed

lemma rhe_lower: "of_int (rhe y) - 1 / 2 \<le> y"
proof -
  have "of_int \<lfloor>y\<rfloor> \<le> y" by linarith
  with rhe_char [of y] show ?thesis by linarith
qed

lemma rhe_upper: "y \<le> of_int (rhe y) + 1 / 2"
proof -
  have "y < of_int \<lfloor>y\<rfloor> + 1" by linarith
  with rhe_char [of y] show ?thesis by linarith
qed

lemma rhe_mono:
  assumes "y \<le> y'"
  shows "rhe y \<le> rhe y'"
proof (cases "\<lfloor>y\<rfloor> = \<lfloor>y'\<rfloor>")
  case True
  with assms have le: "y - of_int \<lfloor>y\<rfloor> \<le> y' - of_int \<lfloor>y'\<rfloor>" by simp
  show ?thesis
  proof (cases "rhe y = \<lfloor>y\<rfloor>")
    case True
    with rhe_cases [of y'] \<open>\<lfloor>y\<rfloor> = \<lfloor>y'\<rfloor>\<close> show ?thesis by auto
  next
    case False
    with rhe_cases [of y] have 1: "rhe y = \<lfloor>y\<rfloor> + 1" by simp
    then have "\<not> y - of_int \<lfloor>y\<rfloor> < 1 / 2" by (auto simp: rhe_def Let_def)
    with le have n: "\<not> y' - of_int \<lfloor>y'\<rfloor> < 1 / 2" by linarith
    show ?thesis
    proof (cases "1 / 2 < y' - of_int \<lfloor>y'\<rfloor>")
      case True
      then have "rhe y' = \<lfloor>y'\<rfloor> + 1" by (simp add: rhe_def Let_def)
      with 1 \<open>\<lfloor>y\<rfloor> = \<lfloor>y'\<rfloor>\<close> show ?thesis by simp
    next
      case False
      with n le have e: "y' - of_int \<lfloor>y'\<rfloor> = 1 / 2" by linarith
      moreover from 1 have "\<not> 1 / 2 < y - of_int \<lfloor>y\<rfloor> \<Longrightarrow> odd \<lfloor>y\<rfloor>"
        by (auto simp: rhe_def Let_def split: if_splits)
      moreover have "\<not> 1 / 2 < y - of_int \<lfloor>y\<rfloor>" using le e by linarith
      ultimately have "rhe y' = \<lfloor>y'\<rfloor> + 1"
        using \<open>\<lfloor>y\<rfloor> = \<lfloor>y'\<rfloor>\<close> by (simp add: rhe_def Let_def)
      with 1 \<open>\<lfloor>y\<rfloor> = \<lfloor>y'\<rfloor>\<close> show ?thesis by simp
    qed
  qed
next
  case False
  with assms have "\<lfloor>y\<rfloor> < \<lfloor>y'\<rfloor>" using floor_mono [OF assms] by linarith
  then have "\<lfloor>y\<rfloor> + 1 \<le> \<lfloor>y'\<rfloor>" by simp
  moreover have "rhe y \<le> \<lfloor>y\<rfloor> + 1" using rhe_cases [of y] by auto
  moreover have "\<lfloor>y'\<rfloor> \<le> rhe y'" using rhe_cases [of y'] by auto
  ultimately show ?thesis by linarith
qed

lemma rhe_minus: "rhe (- y) = - rhe y"
proof (cases "y = of_int \<lfloor>y\<rfloor>")
  case True
  then obtain n where "y = of_int n" ..
  then have "- y = of_int (- n)" by simp
  then have "rhe (- y) = - n" by (simp only: rhe_of_int)
  with \<open>y = of_int n\<close> show ?thesis by simp
next
  case False
  then have fl: "\<lfloor>- y\<rfloor> = - \<lfloor>y\<rfloor> - 1"
    by (metis ceiling_altdef ceiling_def add_diff_cancel minus_diff_eq diff_minus_eq_add uminus_add_conv_diff minus_minus)
  let ?r = "y - of_int \<lfloor>y\<rfloor>"
  have r: "- y - of_int \<lfloor>- y\<rfloor> = 1 - ?r" by (simp add: fl)
  have ev: "even (- \<lfloor>y\<rfloor> - 1) \<longleftrightarrow> odd \<lfloor>y\<rfloor>" by simp
  show ?thesis
    unfolding rhe_def Let_def r
    unfolding fl ev
    by auto
qed

lemma pow2_nonneg [simp]: "0 \<le> pow2 e"
  using pow2_pos [of e] by linarith

lemma pow2_neq0 [simp]: "pow2 e \<noteq> 0"
  using pow2_pos [of e] by linarith

lemma pow2_numeral [simp]: "pow2 (numeral k) = 2 ^ numeral k"
  by (simp add: pow2_def)

lemma pow2_neg_numeral [simp]: "pow2 (- numeral k) = 1 / 2 ^ numeral k"
  by (simp add: pow2_def)

lemma pow2_0 [simp]: "pow2 0 = 1"
  by (simp add: pow2_def)

lemma pow2_1 [simp]: "pow2 1 = 2"
  by (simp add: pow2_def)

lemma floor_log2_bounds:
  assumes "0 < x"
  shows "pow2 \<lfloor>log 2 x\<rfloor> \<le> x" and "x < pow2 (\<lfloor>log 2 x\<rfloor> + 1)"
proof -
  have "of_int \<lfloor>log 2 x\<rfloor> \<le> log 2 x" by linarith
  then have "2 powr (of_int \<lfloor>log 2 x\<rfloor>) \<le> 2 powr (log 2 x)" by (simp only: powr_le_cancel_iff) 
  with assms show "pow2 \<lfloor>log 2 x\<rfloor> \<le> x" by (simp add: pow2_powr)
  have "log 2 x < of_int (\<lfloor>log 2 x\<rfloor> + 1)" by linarith
  then have "2 powr (log 2 x) < 2 powr (of_int (\<lfloor>log 2 x\<rfloor> + 1))" by (simp only: powr_less_cancel_iff)
  with assms show "x < pow2 (\<lfloor>log 2 x\<rfloor> + 1)" by (simp add: pow2_powr)
qed

lemma floor_log2_eq:
  assumes "pow2 k \<le> x" "x < pow2 (k + 1)"
  shows "\<lfloor>log 2 x\<rfloor> = k"
proof -
  have x: "0 < x" using assms(1) pow2_pos [of k] by linarith
  have "2 powr (of_int k) \<le> 2 powr (log 2 x)" using assms(1) x by (simp add: pow2_powr)
  then have 1: "of_int k \<le> log 2 x" by simp
  have "2 powr (log 2 x) < 2 powr (of_int (k + 1))" using assms(2) x by (simp add: pow2_powr)
  then have 2: "log 2 x < of_int (k + 1)" by (simp only: powr_less_cancel_iff) 
  from 1 2 show ?thesis by linarith
qed

lemma expo_ge: "- 1074 \<le> expo x"
  by (simp add: expo_def)

lemma expo_minus [simp]: "expo (- x) = expo x"
  by (simp add: expo_def)

lemma expo_upper:
  assumes "x \<noteq> 0"
  shows "\<bar>x\<bar> < pow2 (expo x + 53)"
proof -
  have "\<bar>x\<bar> < pow2 (\<lfloor>log 2 \<bar>x\<bar>\<rfloor> + 1)" using assms by (intro floor_log2_bounds) simp
  also have "\<dots> \<le> pow2 (expo x + 53)" by (rule pow2_mono) (simp add: expo_def)
  finally show ?thesis .
qed

lemma expo_lower:
  assumes "x \<noteq> 0" "- 1074 < expo x"
  shows "pow2 (expo x + 52) \<le> \<bar>x\<bar>"
proof -
  from assms(2) have "expo x = \<lfloor>log 2 \<bar>x\<bar>\<rfloor> - 52" by (simp add: expo_def max_def split: if_splits)
  then have "pow2 (expo x + 52) = pow2 \<lfloor>log 2 \<bar>x\<bar>\<rfloor>" by simp
  also have "\<dots> \<le> \<bar>x\<bar>" using assms(1) by (intro floor_log2_bounds) simp
  finally show ?thesis .
qed

lemma expo_mono:
  assumes "x \<noteq> 0" "\<bar>x\<bar> \<le> \<bar>y\<bar>"
  shows "expo x \<le> expo y"
proof -
  have "log 2 \<bar>x\<bar> \<le> log 2 \<bar>y\<bar>" using assms by simp
  then have "\<lfloor>log 2 \<bar>x\<bar>\<rfloor> \<le> \<lfloor>log 2 \<bar>y\<bar>\<rfloor>" by (rule floor_mono)
  then show ?thesis by (simp add: expo_def)
qed

lemma expo_eq:
  assumes "pow2 k \<le> \<bar>x\<bar>" "\<bar>x\<bar> < pow2 (k + 1)"
  shows "expo x = max (k - 52) (- 1074)"
  using floor_log2_eq [OF assms] by (simp add: expo_def)

lemma expo_small:
  assumes "x \<noteq> 0" "\<bar>x\<bar> < pow2 (- 1022)"
  shows "expo x = - 1074"
proof -
  have "\<lfloor>log 2 \<bar>x\<bar>\<rfloor> < - 1022"
  proof (rule ccontr)
    assume "\<not> \<lfloor>log 2 \<bar>x\<bar>\<rfloor> < - 1022"
    then have "pow2 (- 1022) \<le> pow2 \<lfloor>log 2 \<bar>x\<bar>\<rfloor>" by (intro pow2_mono) simp
    also have "\<dots> \<le> \<bar>x\<bar>" using assms(1) by (intro floor_log2_bounds) simp
    finally show False using assms(2) by simp
  qed
  then have "\<lfloor>log 2 \<bar>x\<bar>\<rfloor> - 52 \<le> - 1074" by linarith
  then show ?thesis unfolding expo_def by (rule max_absorb2)
qed

lemma rval_minus: "rval (- x) = - rval x"
  by (simp add: rval_def rhe_minus)

lemma rval_nonneg: "0 \<le> x \<Longrightarrow> 0 \<le> rval x"
proof -
  assume "0 \<le> x"
  then have "0 \<le> x / pow2 (expo x)" by (intro divide_nonneg_pos) simp_all
  then have "rhe 0 \<le> rhe (x / pow2 (expo x))" by (rule rhe_mono)
  moreover have "rhe 0 = 0" using rhe_of_int [of 0] by simp
  ultimately show ?thesis by (simp add: rval_def)
qed

lemma rval_mono_pos:
  assumes "0 < x" "x \<le> y"
  shows "rval x \<le> rval y"
proof -
  have x: "x \<noteq> 0" and y: "y \<noteq> 0" and ay: "\<bar>y\<bar> = y" and ax: "\<bar>x\<bar> = x" using assms by simp_all
  have e: "expo x \<le> expo y" using assms by (intro expo_mono) simp_all
  show ?thesis
  proof (cases "expo x = expo y")
    case True
    have "x / pow2 (expo y) \<le> y / pow2 (expo y)" using assms(2) by (intro divide_right_mono) simp_all
    then have "rhe (x / pow2 (expo y)) \<le> rhe (y / pow2 (expo y))" by (rule rhe_mono)
    then have "of_int (rhe (x / pow2 (expo y))) * pow2 (expo y)
             \<le> of_int (rhe (y / pow2 (expo y))) * pow2 (expo y)"
      by (simp add: mult_right_mono)
    with True x y show ?thesis by (simp add: rval_def)
  next
    case False
    with e have lt: "expo x < expo y" by simp
    then have "- 1074 < expo y" using expo_ge [of x] by linarith
    from expo_lower [OF y this] ay have "pow2 (expo y + 52) \<le> y" by simp
    then have "pow2 52 * pow2 (expo y) \<le> y" by (simp add: pow2_add mult.commute)
    then have "pow2 52 \<le> y / pow2 (expo y)" by (simp add: pos_le_divide_eq)
    then have "of_int (2 ^ 52) \<le> y / pow2 (expo y)" by simp
    then have "rhe (of_int (2 ^ 52)) \<le> rhe (y / pow2 (expo y))" by (rule rhe_mono)
    then have "2 ^ 52 \<le> rhe (y / pow2 (expo y))" by (simp only: rhe_of_int)
    then have "(of_int (2 ^ 52) :: real) \<le> of_int (rhe (y / pow2 (expo y)))"
      by (simp only: of_int_le_iff)
    then have "(2 ^ 52 :: real) \<le> of_int (rhe (y / pow2 (expo y)))" by simp
    then have "2 ^ 52 * pow2 (expo y) \<le> of_int (rhe (y / pow2 (expo y))) * pow2 (expo y)"
      by (simp add: mult_right_mono)
    then have b: "pow2 (expo y + 52) \<le> rval y"
      using y by (simp add: rval_def pow2_add mult.commute)
    from expo_upper [OF x] ax have "x < pow2 (expo x + 53)" by simp
    then have "x < pow2 53 * pow2 (expo x)" by (simp add: pow2_add mult.commute)
    then have "x / pow2 (expo x) \<le> pow2 53" by (simp add: pos_divide_le_eq less_imp_le)
    then have "x / pow2 (expo x) \<le> of_int (2 ^ 53)" by simp
    then have "rhe (x / pow2 (expo x)) \<le> rhe (of_int (2 ^ 53))" by (rule rhe_mono)
    then have "rhe (x / pow2 (expo x)) \<le> 2 ^ 53" by (simp only: rhe_of_int)
    then have "of_int (rhe (x / pow2 (expo x))) \<le> (of_int (2 ^ 53) :: real)"
      by (simp only: of_int_le_iff)
    then have "of_int (rhe (x / pow2 (expo x))) \<le> (2 ^ 53 :: real)" by simp
    then have "of_int (rhe (x / pow2 (expo x))) * pow2 (expo x) \<le> 2 ^ 53 * pow2 (expo x)"
      by (simp add: mult_right_mono)
    then have a: "rval x \<le> pow2 (expo x + 53)"
      using x by (simp add: rval_def pow2_add mult.commute)
    have "pow2 (expo x + 53) \<le> pow2 (expo y + 52)" using lt by (intro pow2_mono) simp
    with a b show ?thesis by linarith
  qed
qed

lemma rval_mono:
  assumes "x \<le> y"
  shows "rval x \<le> rval y"
proof -
  consider "0 < x" | "x \<le> 0" "0 \<le> y" | "y < 0" by linarith
  then show ?thesis
  proof cases
    case 1
    then show ?thesis using assms by (rule rval_mono_pos)
  next
    case 2
    from 2(1) have "0 \<le> rval (- x)" by (intro rval_nonneg) simp
    then have "rval x \<le> 0" by (simp add: rval_minus)
    moreover have "0 \<le> rval y" using 2(2) by (rule rval_nonneg)
    ultimately show ?thesis by linarith
  next
    case 3
    then have "rval (- y) \<le> rval (- x)" using assms by (intro rval_mono_pos) simp_all
    then show ?thesis by (simp add: rval_minus)
  qed
qed

lemma float64_le_simps [simp]:
  "Fin x \<le> Fin y \<longleftrightarrow> x \<le> y" "Fin x \<le> PosInf" "NegInf \<le> a" "a \<le> NaN"
  "\<not> PosInf \<le> Fin y" "\<not> Fin x \<le> NegInf" "\<not> PosInf \<le> NegInf" "\<not> NaN \<le> Fin x"
  "\<not> NaN \<le> PosInf" "\<not> NaN \<le> NegInf"
  by (cases a; simp add: less_eq_float64_def)+

lemma float64_less_simps [simp]:
  "Fin x < Fin y \<longleftrightarrow> x < y" "Fin x < PosInf" "NegInf < Fin x" "NegInf < PosInf"
  "\<not> PosInf < Fin y" "\<not> Fin x < NegInf" "\<not> a < NegInf" "\<not> NaN < a" "PosInf < NaN" "Fin x < NaN"
  by (auto simp: less_float64_def less_eq_float64_def split: float64.splits)

lemma flt_iff: "a \<noteq> NaN \<Longrightarrow> b \<noteq> NaN \<Longrightarrow> flt a b \<longleftrightarrow> a < b"
  by (simp add: flt_def)

lemma fle_iff: "a \<noteq> NaN \<Longrightarrow> b \<noteq> NaN \<Longrightarrow> fle a b \<longleftrightarrow> a \<le> b"
  by (simp add: fle_def)

lemma huge_pos [simp]: "0 < huge"
  by (simp add: huge_def)

lemma huge_not_le0 [simp]: "\<not> huge \<le> 0"
  using huge_pos by linarith

lemma rnd_Fin: "\<bar>rval x\<bar> < huge \<Longrightarrow> rnd x = Fin (rval x)"
proof -
  assume "\<bar>rval x\<bar> < huge"
  then have "\<not> huge \<le> rval x" "\<not> rval x \<le> - huge" by linarith+
  then show ?thesis by (simp add: rnd_def Let_def)
qed

lemma rnd_mono: "x \<le> y \<Longrightarrow> rnd x \<le> rnd y"
  using rval_mono [of x y] by (auto simp: rnd_def Let_def)

lemma rnd_not_NaN [simp]: "rnd x \<noteq> NaN"
  by (simp add: rnd_def Let_def)

lemma rval_0 [simp]: "rval 0 = 0"
  by (simp add: rval_def)

lemma rnd_0 [simp]: "rnd 0 = Fin 0"
  by (simp add: rnd_def)

lemma rval_exact:
  assumes "v = of_int m * pow2 e" "\<bar>m\<bar> < 2 ^ 53" "- 1074 \<le> e"
  shows "rval v = v"
proof (cases "v = 0")
  case True
  then show ?thesis by simp
next
  case False
  have "\<bar>v\<bar> = \<bar>of_int m\<bar> * pow2 e" using assms(1) by (simp add: abs_mult)
  also have "\<dots> < 2 ^ 53 * pow2 e"
  proof -
    have "(of_int \<bar>m\<bar> :: real) < of_int (2 ^ 53)" using assms(2) by (simp only: of_int_less_iff)
    then have "\<bar>of_int m :: real\<bar> < 2 ^ 53" by simp
    then show ?thesis by (simp add: mult_strict_right_mono)
  qed
  finally have up: "\<bar>v\<bar> < pow2 (e + 53)" by (simp add: pow2_add mult.commute)
  have le: "expo v \<le> e"
  proof (rule ccontr)
    assume "\<not> expo v \<le> e"
    then have lt: "e < expo v" by simp
    then have "- 1074 < expo v" using assms(3) by linarith
    from expo_lower [OF False this] have "pow2 (expo v + 52) \<le> \<bar>v\<bar>" .
    moreover have "pow2 (e + 53) \<le> pow2 (expo v + 52)" using lt by (intro pow2_mono) simp
    ultimately show False using up by linarith
  qed
  define E where "E = expo v"
  define d where "d = nat (e - E)"
  have e: "e = E + int d" using le by (simp add: d_def E_def)
  have v: "v = of_int (m * 2 ^ d) * pow2 E"
    using assms(1) by (simp add: e pow2_add pow2_nat mult.commute)
  then have "v / pow2 E = of_int (m * 2 ^ d)" by (simp del: of_int_mult of_int_power)
  then have "rhe (v / pow2 E) = m * 2 ^ d" by (simp only: rhe_of_int)
  then have "rval v = of_int (m * 2 ^ d) * pow2 E" using False by (simp add: rval_def E_def)
  with v show ?thesis by simp
qed

lemma is_double_bound: "is_double v \<Longrightarrow> \<bar>v\<bar> < huge"
proof -
  assume "is_double v"
  then obtain m e where v: "v = of_int m * pow2 e" and m: "\<bar>m\<bar> < 2 ^ 53" and e: "e \<le> 971"
    by (auto simp: is_double_def)
  have "(of_int \<bar>m\<bar> :: real) < of_int (2 ^ 53)" using m by (simp only: of_int_less_iff)
  then have "\<bar>of_int m :: real\<bar> < 2 ^ 53" by simp
  then have "\<bar>v\<bar> < 2 ^ 53 * pow2 e" by (simp add: v abs_mult mult_strict_right_mono)
  also have "\<dots> \<le> 2 ^ 53 * pow2 971" using e by (simp add: pow2_mono del: pow2_numeral)
  also have "\<dots> = huge" by (simp add: huge_def)
  finally show ?thesis .
qed

lemma rnd_double: "is_double v \<Longrightarrow> rnd v = Fin v"
proof -
  assume d: "is_double v"
  then obtain m e where "v = of_int m * pow2 e" "\<bar>m\<bar> < 2 ^ 53" "- 1074 \<le> e"
    by (auto simp: is_double_def)
  then have "rval v = v" by (rule rval_exact)
  with is_double_bound [OF d] rnd_Fin [of v] show ?thesis by simp
qed

lemma of_int_abs_less_pow:
  "\<bar>m\<bar> < 2 ^ n \<Longrightarrow> \<bar>of_int m :: real\<bar> < 2 ^ n"
proof -
  assume "\<bar>m\<bar> < 2 ^ n"
  then have "(of_int \<bar>m\<bar> :: real) < of_int (2 ^ n)" by (simp only: of_int_less_iff)
  then show ?thesis by simp
qed

lemma rhe_abs_le:
  assumes "\<bar>y\<bar> \<le> of_int n"
  shows "\<bar>rhe y\<bar> \<le> n"
proof -
  from assms have 1: "y \<le> of_int n" and 2: "of_int (- n) \<le> y" by simp_all
  from rhe_mono [OF 1] have "rhe y \<le> n" by (simp only: rhe_of_int)
  moreover from rhe_mono [OF 2] have "- n \<le> rhe y" by (simp only: rhe_of_int)
  ultimately show ?thesis by simp
qed

lemma rhe_abs_ge:
  assumes "of_int n \<le> \<bar>y\<bar>"
  shows "n \<le> \<bar>rhe y\<bar>"
proof (cases "0 \<le> y")
  case True
  with assms have "of_int n \<le> y" by simp
  then have "rhe (of_int n) \<le> rhe y" by (rule rhe_mono)
  then have "n \<le> rhe y" by (simp only: rhe_of_int)
  then show ?thesis by simp
next
  case False
  with assms have "y \<le> of_int (- n)" by simp
  then have "rhe y \<le> rhe (of_int (- n))" by (rule rhe_mono)
  then have "rhe y \<le> - n" by (simp only: rhe_of_int)
  then show ?thesis by simp
qed

lemma rval_range:
  assumes "\<bar>rval x\<bar> < huge"
  shows "is_double (rval x)"
proof (cases "x = 0")
  case True
  have "(0::real) = of_int 0 * pow2 0" by simp
  then have "is_double 0" unfolding is_double_def by (intro exI [of _ 0] conjI) simp_all
  with True show ?thesis by simp
next
  case False
  define E where "E = expo x"
  define M where "M = rhe (x / pow2 E)"
  have v: "rval x = of_int M * pow2 E" using False by (simp add: rval_def M_def E_def)
  have E: "- 1074 \<le> E" by (simp add: E_def expo_ge)
  have "\<bar>x\<bar> < pow2 53 * pow2 E" using expo_upper [OF False] by (simp add: E_def pow2_add mult.commute)
  then have "\<bar>x\<bar> / pow2 E < pow2 53" by (simp add: pos_divide_less_eq)
  then have "\<bar>x / pow2 E\<bar> \<le> of_int (2 ^ 53)" by simp
  then have M: "\<bar>M\<bar> \<le> 2 ^ 53" unfolding M_def by (rule rhe_abs_le)
  have big: "2 ^ 52 \<le> \<bar>M\<bar>" if "- 1074 < E"
  proof -
    from expo_lower [OF False] that have "pow2 52 * pow2 E \<le> \<bar>x\<bar>"
      by (simp add: E_def pow2_add mult.commute)
    then have "pow2 52 \<le> \<bar>x\<bar> / pow2 E" by (simp add: pos_le_divide_eq)
    then have "of_int (2 ^ 52) \<le> \<bar>x / pow2 E\<bar>" by simp
    then show ?thesis unfolding M_def by (rule rhe_abs_ge)
  qed
  have absv: "\<bar>rval x\<bar> = of_int \<bar>M\<bar> * pow2 E" by (simp add: v abs_mult)
  show ?thesis
  proof (cases "\<bar>M\<bar> = 2 ^ 53")
    case True
    have "E < 971"
    proof (rule ccontr)
      assume "\<not> E < 971"
      then have "pow2 971 \<le> pow2 E" by (intro pow2_mono) simp
      then have "2 ^ 53 * pow2 971 \<le> 2 ^ 53 * pow2 E" by simp
      then have "huge \<le> 2 ^ 53 * pow2 E" by (simp add: huge_def)
      with assms absv True show False by simp
    qed
    moreover have "rval x = of_int (M div 2) * pow2 (E + 1)"
    proof -
      from True have "M = 2 ^ 53 \<or> M = - (2 ^ 53)" by (simp add: abs_if split: if_splits)
      then have "M = 2 * (M div 2)" by auto
      then have "of_int M = (2 :: real) * of_int (M div 2)" by (metis of_int_mult of_int_numeral)
      then show ?thesis by (simp add: v pow2_add)
    qed
    moreover have "\<bar>M div 2\<bar> < 2 ^ 53" using True by (cases "0 \<le> M") auto
    ultimately show ?thesis using E unfolding is_double_def
      by (intro exI [of _ "M div 2"] exI [of _ "E + 1"]) simp
  next
    case False
    with M have lt: "\<bar>M\<bar> < 2 ^ 53" by simp
    have "E \<le> 971"
    proof (rule ccontr)
      assume n: "\<not> E \<le> 971"
      then have "- 1074 < E" by simp
      from big [OF this] have "(of_int (2 ^ 52) :: real) \<le> of_int \<bar>M\<bar>" by (simp only: of_int_le_iff)
      then have "(2 ^ 52 :: real) * pow2 E \<le> of_int \<bar>M\<bar> * pow2 E" by (simp add: mult_right_mono)
      moreover from n have "pow2 972 \<le> pow2 E" by (intro pow2_mono) simp
      then have "(2 ^ 52 :: real) * pow2 972 \<le> 2 ^ 52 * pow2 E" by simp
      then have "huge \<le> 2 ^ 52 * pow2 E" by (simp add: huge_def)
      ultimately show False using assms absv by linarith
    qed
    with lt E v show ?thesis unfolding is_double_def by blast
  qed
qed

lemma rnd_range: "rnd x = Fin v \<Longrightarrow> is_double v"
proof -
  assume a: "rnd x = Fin v"
  then have "v = rval x" "\<bar>rval x\<bar> < huge"
    by (auto simp: rnd_def Let_def split: if_splits)
  with rval_range show ?thesis by simp
qed

lemma dbl_rnd [simp]: "dbl (rnd x)"
  by (cases "rnd x") (auto simp: dbl_def dest: rnd_range)

lemma rnd_eqI:
  assumes "pow2 k \<le> \<bar>x\<bar>" "\<bar>x\<bar> < pow2 (k + 1)" "- 1022 \<le> k"
    and "rhe (x / pow2 (k - 52)) = m" "v = of_int m * pow2 (k - 52)" "\<bar>v\<bar> < huge"
  shows "rnd x = Fin v"
proof -
  have "0 < \<bar>x\<bar>" using assms(1) pow2_pos [of k] by linarith
  then have x: "x \<noteq> 0" by simp
  have "expo x = k - 52" using expo_eq [OF assms(1,2)] assms(3) by simp
  then have "rval x = v" using x assms(4,5) by (simp add: rval_def)
  with assms(6) rnd_Fin [of x] show ?thesis by simp
qed

lemma rnd_eqI_subnormal:
  assumes "\<bar>x\<bar> < pow2 (- 1022)" "rhe (x / pow2 (- 1074)) = m" "v = of_int m * pow2 (- 1074)"
  shows "rnd x = Fin v"
proof (cases "x = 0")
  case True
  with assms(2) have "m = 0" using rhe_of_int [of 0] by simp
  with True assms(3) show ?thesis by simp
next
  case False
  from expo_small [OF False assms(1)] have e: "expo x = - 1074" .
  then have r: "rval x = v" using False assms(2,3) by (simp add: rval_def)
  have "\<bar>rval x\<bar> \<le> \<bar>rval (pow2 (- 1022))\<bar>"
  proof -
    from assms(1) have 1: "x \<le> pow2 (- 1022)" and 2: "- pow2 (- 1022) \<le> x" by linarith+
    from rval_mono [OF 1] rval_mono [OF 2] rval_nonneg [of "pow2 (- 1022)"]
    show ?thesis by (simp add: rval_minus del: pow2_neg_numeral)
  qed
  moreover have "rval (pow2 (- 1022)) = pow2 (- 1022)"
    by (rule rval_exact [of _ 1 "- 1022"]) simp_all
  moreover have "pow2 (- 1022) < huge"
  proof -
    have "pow2 (- 1022) < pow2 1024" by (rule pow2_strict_mono) simp
    then show ?thesis by (simp add: huge_def del: pow2_neg_numeral)
  qed
  ultimately have "\<bar>rval x\<bar> < huge" by simp
  with r rnd_Fin [of x] show ?thesis by simp
qed

lemma is_double_of_int: "\<bar>n\<bar> < 2 ^ 53 \<Longrightarrow> is_double (of_int n)"
  unfolding is_double_def by (intro exI [of _ n] exI [of _ 0]) simp

lemma rnd_of_int: "\<bar>n\<bar> < 2 ^ 53 \<Longrightarrow> rnd (of_int n) = Fin (of_int n)"
  by (intro rnd_double is_double_of_int)

lemma rnd_numeral [simp]:
  "numeral n < (2 ^ 53 :: int) \<Longrightarrow> rnd (numeral n) = Fin (numeral n)"
  using rnd_of_int [of "numeral n"] by simp

lemma rnd_neg_numeral [simp]:
  "numeral n < (2 ^ 53 :: int) \<Longrightarrow> rnd (- numeral n) = Fin (- numeral n)"
  using rnd_of_int [of "- numeral n"] by simp

lemma rnd_1 [simp]: "rnd 1 = Fin 1"
  using rnd_of_int [of 1] by simp

lemma is_double_numeral [simp]: "numeral n < (2 ^ 53 :: int) \<Longrightarrow> is_double (numeral n)"
  using is_double_of_int [of "numeral n"] by simp

lemma is_double_0 [simp]: "is_double 0"
  using is_double_of_int [of 0] by simp

lemma is_double_1 [simp]: "is_double 1"
  using is_double_of_int [of 1] by simp

lemma nn_simps [simp]:
  "nn (Fin x) \<longleftrightarrow> 0 \<le> x" "nn PosInf" "\<not> nn NegInf" "\<not> nn NaN"
  by (simp_all add: nn_def)

lemma nn_iff: "nn a \<longleftrightarrow> a \<noteq> NaN \<and> Fin 0 \<le> a"
  by (cases a) simp_all

lemma nn_rnd: "0 \<le> x \<Longrightarrow> nn (rnd x)"
  using rnd_mono [of 0 x] by (simp add: nn_iff)

lemma nn_fadd: "nn a \<Longrightarrow> nn b \<Longrightarrow> nn (fadd a b)"
  by (cases a; cases b) (simp_all add: nn_rnd)

lemma dbl_fadd [simp]: "dbl (fadd a b)"
  by (cases a; cases b) (simp_all, simp_all add: dbl_def)

lemma le_PosInf [simp]: "a \<noteq> NaN \<Longrightarrow> a \<le> PosInf"
  by (cases a) simp_all

lemma fadd_mono_left: "nn a \<Longrightarrow> nn a' \<Longrightarrow> nn b \<Longrightarrow> a \<le> a' \<Longrightarrow> fadd a b \<le> fadd a' b"
  by (cases a; cases a'; cases b) (simp_all add: rnd_mono)

lemma fadd_mono_right: "nn a \<Longrightarrow> nn b \<Longrightarrow> nn b' \<Longrightarrow> b \<le> b' \<Longrightarrow> fadd a b \<le> fadd a b'"
  by (cases a; cases b; cases b') (simp_all add: rnd_mono)

lemma rnd_ge: "is_double x \<Longrightarrow> 0 \<le> y \<Longrightarrow> Fin x \<le> rnd (x + y)"
  using rnd_mono [of x "x + y"] by (simp add: rnd_double)

lemma fadd_ge_left: "nn a \<Longrightarrow> dbl a \<Longrightarrow> nn b \<Longrightarrow> a \<le> fadd a b"
  by (cases a; cases b) (simp_all add: dbl_def rnd_ge)

lemma fadd_zero_right: "dbl a \<Longrightarrow> fadd a (Fin 0) = a"
  by (cases a) (simp_all add: dbl_def rnd_double)

lemma fadd_zero_left: "dbl a \<Longrightarrow> fadd (Fin 0) a = a"
  by (cases a) (simp_all add: dbl_def rnd_double)

lemma pow2_m1 [simp]: "pow2 (- 1) = 1 / 2"
  by (simp add: pow2_def)

lemma rnd_PosInf: "huge \<le> x \<Longrightarrow> rnd x = PosInf"
proof -
  assume "huge \<le> x"
  then have "rval huge \<le> rval x" by (rule rval_mono)
  moreover have "rval huge = huge" unfolding huge_def by (rule rval_exact [of _ 1 1024]) simp_all
  ultimately show ?thesis by (simp add: rnd_def Let_def)
qed

lemma rnd_NegInf: "x \<le> - huge \<Longrightarrow> rnd x = NegInf"
proof -
  assume "x \<le> - huge"
  then have "rval x \<le> rval (- huge)" by (rule rval_mono)
  moreover have "rval huge = huge" unfolding huge_def by (rule rval_exact [of _ 1 1024]) simp_all
  ultimately have "rval x \<le> - huge" by (simp add: rval_minus)
  moreover have "\<not> huge \<le> rval x" using \<open>rval x \<le> - huge\<close> huge_pos by linarith
  ultimately show ?thesis by (simp add: rnd_def Let_def)
qed

lemma arcsin_le_arg: "- 1 \<le> q \<Longrightarrow> q \<le> 0 \<Longrightarrow> arcsin q \<le> q"
proof -
  assume q: "- 1 \<le> q" "q \<le> 0"
  then have "arcsin q \<le> 0" by (simp add: arcsin_le_iff)
  then have "0 \<le> - arcsin q" by simp
  then have "sin (- arcsin q) \<le> - arcsin q" by (rule sin_x_le_x)
  moreover have "sin (arcsin q) = q" using q by (intro sin_arcsin) simp_all
  ultimately show ?thesis by simp
qed

lemma math_Asin_nonneg: "0 \<le> q \<Longrightarrow> q \<le> 1 \<Longrightarrow> fge (math_Asin (Fin q)) (Fin 0)"
proof -
  assume q: "0 \<le> q" "q \<le> 1"
  then have "0 \<le> arcsin q" by (simp add: arcsin_nonneg)
  then have "rnd 0 \<le> rnd (arcsin q)" by (rule rnd_mono)
  with q show ?thesis by (simp add: fge_def fle_def)
qed

lemma math_Asin_negative:
  "- 1 \<le> q \<Longrightarrow> q < 0 \<Longrightarrow> rnd q = Fin q \<Longrightarrow> \<not> fge (math_Asin (Fin q)) (Fin 0)"
proof -
  assume q: "- 1 \<le> q" "q < 0" and r: "rnd q = Fin q"
  have "arcsin q \<le> q" using q by (intro arcsin_le_arg) simp_all
  then have "rnd (arcsin q) \<le> rnd q" by (rule rnd_mono)
  with r q have "rnd (arcsin q) < Fin 0"
    by (metis float64_less_simps(1) le_less_trans)
  with q show ?thesis by (simp add: fge_def fle_def not_le)
qed

lemma rhe_eqI: "of_int m - 1 / 2 < y \<Longrightarrow> y < of_int m + 1 / 2 \<Longrightarrow> rhe y = m"
proof -
  assume a: "of_int m - 1 / 2 < y" "y < of_int m + 1 / 2"
  from rhe_lower [of y] a(2) have "(of_int (rhe y) :: real) < of_int m + 1" by linarith
  then have "(of_int (rhe y) :: real) < of_int (m + 1)" by simp
  then have 1: "rhe y < m + 1" by (simp only: of_int_less_iff)
  from rhe_upper [of y] a(1) have "(of_int m :: real) - 1 < of_int (rhe y)" by linarith
  then have "(of_int (m - 1) :: real) < of_int (rhe y)" by simp
  then have 2: "m - 1 < rhe y" by (simp only: of_int_less_iff)
  from 1 2 show ?thesis by linarith
qed

lemma rnd_sqrt_eqI:
  assumes m: "2 ^ 52 < m" "m < 2 ^ 53" and k: "- 1022 \<le> k" "k \<le> 1023"
    and lo: "((of_int m - 1 / 2) * pow2 (k - 52))\<^sup>2 < x"
    and hi: "x < ((of_int m + 1 / 2) * pow2 (k - 52))\<^sup>2"
    and v: "v = of_int m * pow2 (k - 52)"
  shows "rnd (sqrt x) = Fin v"
proof (rule rnd_eqI [where k = k and m = m])
  let ?e = "k - 52" and ?s = "sqrt x"
  have m1: "(2 ^ 52 :: real) + 1 \<le> of_int m"
  proof -
    from m(1) have "2 ^ 52 + 1 \<le> m" by simp
    then have "(of_int (2 ^ 52 + 1) :: real) \<le> of_int m" by (simp only: of_int_le_iff)
    then show ?thesis by simp
  qed
  have m2: "(of_int m :: real) \<le> 2 ^ 53 - 1"
  proof -
    from m(2) have "m \<le> 2 ^ 53 - 1" by simp
    then have "(of_int m :: real) \<le> of_int (2 ^ 53 - 1)" by (simp only: of_int_le_iff)
    then show ?thesis by simp
  qed
  have L: "(of_int m - 1 / 2) * pow2 ?e < ?s" using lo by (rule real_less_rsqrt)
  have U0: "0 \<le> (of_int m + 1 / 2) * pow2 ?e" using m1 by simp
  have U: "?s < (of_int m + 1 / 2) * pow2 ?e" using U0 hi by (rule real_less_lsqrt)
  have p: "pow2 k = 2 ^ 52 * pow2 ?e" "pow2 (k + 1) = 2 ^ 53 * pow2 ?e"
    using pow2_add [of 52 ?e] pow2_add [of 53 ?e] by (simp_all add: add.commute)
  have "2 ^ 52 * pow2 ?e \<le> (of_int m - 1 / 2) * pow2 ?e"
    using m1 by (intro mult_right_mono) simp_all
  then have "pow2 k \<le> (of_int m - 1 / 2) * pow2 ?e" by (simp only: p)
  with L have lo': "pow2 k < ?s" by linarith
  then have pos: "0 < ?s" using pow2_pos [of k] by linarith
  from lo' pos show "pow2 k \<le> \<bar>?s\<bar>" by simp
  have "(of_int m + 1 / 2) * pow2 ?e \<le> 2 ^ 53 * pow2 ?e"
    using m2 by (intro mult_right_mono) simp_all
  then have "(of_int m + 1 / 2) * pow2 ?e \<le> pow2 (k + 1)" by (simp only: p)
  with U have "?s < pow2 (k + 1)" by linarith
  with pos show "\<bar>?s\<bar> < pow2 (k + 1)" by simp
  show "- 1022 \<le> k" by (rule k)
  have "of_int m - 1 / 2 < ?s / pow2 ?e" using L by (simp add: pos_less_divide_eq)
  moreover have "?s / pow2 ?e < of_int m + 1 / 2" using U by (simp add: pos_divide_less_eq)
  ultimately show "rhe (?s / pow2 ?e) = m" by (rule rhe_eqI)
  show "v = of_int m * pow2 ?e" by (rule v)
  have "\<bar>v\<bar> = of_int m * pow2 ?e" using m1 by (simp add: v abs_mult)
  also have "\<dots> < 2 ^ 53 * pow2 ?e" using m2 by (intro mult_strict_right_mono) simp_all
  also have "\<dots> = pow2 (k + 1)" by (simp add: p)
  also have "\<dots> \<le> pow2 1024" using k by (intro pow2_mono) simp
  finally show "\<bar>v\<bar> < huge" by (simp add: huge_def)
qed

lemma dbl_fmul [simp]: "dbl (fmul a b)"
  by (cases a; cases b) (simp_all add: inf_of_sign_def, simp_all add: dbl_def)

section \<open>Roundings at the concrete inputs\<close>

lemma ev_1 [float_eval]: "sqrt 40589641 = 6371"
  by (rule real_sqrt_unique) simp_all

lemma ev_2 [float_eval]: "rnd (1 / 6371) = Fin (5790847299861733 / 36893488147419103232)"
  by (rule rnd_eqI [where k = "- 13" and m = "5790847299861733"]) (simp_all add: rhe_def Let_def huge_def)

lemma ev_3 [float_eval]: "rnd (36893488147419100943 / 36893488147419103232) = Fin (9007199254740991 / 9007199254740992)"
  by (rule rnd_eqI [where k = "- 1" and m = "9007199254740991"]) (simp_all add: rhe_def Let_def huge_def)

lemma ev_4 [float_eval]: "rnd (1125899906842623875 / 2251799813685248) = Fin (8796093022207999 / 17592186044416)"
  by (rule rnd_eqI [where k = "8" and m = "8796093022207999"]) (simp_all add: rhe_def Let_def huge_def)

lemma ev_5 [float_eval]: "rnd (8796093022207999 / 17592186044416) = Fin (8796093022207999 / 17592186044416)"
  by (rule rnd_eqI [where k = "8" and m = "8796093022207999"]) (simp_all add: rhe_def Let_def huge_def)

lemma ev_6 [float_eval]: "sqrt 250000 = 500"
  by (rule real_sqrt_unique) simp_all

lemma ev_7 [float_eval]: "rnd (8796093022207999 / 8796093022208000) = Fin (9007199254740991 / 9007199254740992)"
  by (rule rnd_eqI [where k = "- 1" and m = "9007199254740991"]) (simp_all add: rhe_def Let_def huge_def)

lemma ev_8 [float_eval]: "sqrt 40589641000000 = 6371000"
  by (rule real_sqrt_unique) simp_all

lemma ev_9 [float_eval]: "rnd (- (6371 / 250)) = Fin (- (3586554153247179 / 140737488355328))"
  by (rule rnd_eqI [where k = "4" and m = "- 7173108306494358"]) (simp_all add: rhe_def Let_def huge_def)

lemma ev_10 [float_eval]: "rnd (1 / 1000000000) = Fin (4835703278458517 / 4835703278458516698824704)"
  by (rule rnd_eqI [where k = "- 30" and m = "4835703278458517"]) (simp_all add: rhe_def Let_def huge_def)

lemma ev_11 [float_eval]: "rnd (999999999 / 1000000000) = Fin (9007199245733793 / 9007199254740992)"
  by (rule rnd_eqI [where k = "- 1" and m = "9007199245733793"]) (simp_all add: rhe_def Let_def huge_def)

lemma ev_12 [float_eval]: "rnd (1125899906842623875 / 1125899906842624) = Fin (8796093022207999 / 8796093022208)"
  by (rule rnd_eqI [where k = "9" and m = "8796093022207999"]) (simp_all add: rhe_def Let_def huge_def)

lemma ev_13 [float_eval]: "rnd (8796093022207999 / 8796093022208) = Fin (8796093022207999 / 8796093022208)"
  by (rule rnd_eqI [where k = "9" and m = "8796093022207999"]) (simp_all add: rhe_def Let_def huge_def)

lemma ev_14 [float_eval]: "sqrt 1000000 = 1000"
  by (rule real_sqrt_unique) simp_all

lemma ev_15 [float_eval]: "sqrt 162358564000000 = 12742000"
  by (rule real_sqrt_unique) simp_all

lemma ev_16 [float_eval]: "rnd (- (6371 / 500)) = Fin (- (3586554153247179 / 281474976710656))"
  by (rule rnd_eqI [where k = "3" and m = "- 7173108306494358"]) (simp_all add: rhe_def Let_def huge_def)

lemma ev_17 [float_eval]: "rnd (- (36893488147419100943 / 36893488147419103232)) = Fin (- (9007199254740991 / 9007199254740992))"
  by (rule rnd_eqI [where k = "- 1" and m = "- 9007199254740991"]) (simp_all add: rhe_def Let_def huge_def)

lemma ev_18 [float_eval]: "rnd (- (59636666265640101411 / 4503599627370496)) = Fin (- (7279866487504895 / 549755813888))"
  by (rule rnd_eqI [where k = "13" and m = "- 7279866487504895"]) (simp_all add: rhe_def Let_def huge_def)

lemma ev_19 [float_eval]: "rnd (- (7279866487504895 / 549755813888)) = Fin (- (7279866487504895 / 549755813888))"
  by (rule rnd_eqI [where k = "13" and m = "- 7279866487504895"]) (simp_all add: rhe_def Let_def huge_def)

lemma ev_20 [float_eval]: "sqrt 175350564 = 13242"
  by (rule real_sqrt_unique) simp_all

lemma ev_21 [float_eval]: "rnd (- (7279866487504895 / 7279866487504896)) = Fin (- (9007199254740991 / 9007199254740992))"
  by (rule rnd_eqI [where k = "- 1" and m = "- 9007199254740991"]) (simp_all add: rhe_def Let_def huge_def)

lemma ev_22 [float_eval]: "rnd (- (9007199254740991 / 9007199254740992)) = Fin (- (9007199254740991 / 9007199254740992))"
  by (rule rnd_eqI [where k = "- 1" and m = "- 9007199254740991"]) (simp_all add: rhe_def Let_def huge_def)

lemma ev_23 [float_eval]: "rnd (149896229 / 500) = Fin (2575197605394907 / 8589934592)"
  by (rule rnd_eqI [where k = "18" and m = "5150395210789814"]) (simp_all add: rhe_def Let_def huge_def)

lemma ev_24 [float_eval]: "rnd (4294967296000 / 2575197605394907) = Fin (1922866092593375 / 1152921504606846976)"
  by (rule rnd_eqI [where k = "- 10" and m = "7691464370373500"]) (simp_all add: rhe_def Let_def huge_def)

lemma ev_25 [float_eval]: "rnd (240358261574171875 / 144115188075855872) = Fin (7511195674192871 / 4503599627370496)"
  by (rule rnd_eqI [where k = "0" and m = "7511195674192871"]) (simp_all add: rhe_def Let_def huge_def)

lemma ev_26 [float_eval]: "rnd (12014795301563367 / 4503599627370496) = Fin (1501849412695421 / 562949953421312)"
  by (rule rnd_eqI [where k = "1" and m = "6007397650781684"]) (simp_all add: rhe_def Let_def huge_def)

lemma ev_27 [float_eval]: "rnd (562949953421312 / 1501849412695421) = Fin (6752477789118061 / 18014398509481984)"
  by (rule rnd_eqI [where k = "- 2" and m = "6752477789118061"]) (simp_all add: rhe_def Let_def huge_def)

lemma ev_28 [float_eval]: "rnd (8589934592000 / 2575197605394907) = Fin (1922866092593375 / 576460752303423488)"
  by (rule rnd_eqI [where k = "- 9" and m = "7691464370373500"]) (simp_all add: rhe_def Let_def huge_def)

lemma ev_29 [float_eval]: "rnd (240358261574171875 / 72057594037927936) = Fin (7511195674192871 / 2251799813685248)"
  by (rule rnd_eqI [where k = "1" and m = "7511195674192871"]) (simp_all add: rhe_def Let_def huge_def)

lemma ev_30 [float_eval]: "rnd (9762995487878119 / 2251799813685248) = Fin (1220374435984765 / 281474976710656)"
  by (rule rnd_eqI [where k = "2" and m = "4881497743939060"]) (simp_all add: rhe_def Let_def huge_def)

lemma ev_31 [float_eval]: "rnd (281474976710656 / 1220374435984765) = Fin (8309912517663093 / 36028797018963968)"
  by (rule rnd_eqI [where k = "- 3" and m = "8309912517663093"]) (simp_all add: rhe_def Let_def huge_def)

lemma ev_32 [float_eval]: "rnd (1125899906842625 / 17592186044416) = Fin (1125899906842625 / 17592186044416)"
  by (rule rnd_eqI [where k = "6" and m = "4503599627370500"]) (simp_all add: rhe_def Let_def huge_def)

lemma ev_33 [float_eval]: "rnd (1267650600228231653296516890625 / 309485009821345068724781056) = Fin (562949953421313 / 137438953472)"
  by (rule rnd_eqI [where k = "12" and m = "4503599627370504"]) (simp_all add: rhe_def Let_def huge_def)

lemma ev_34 [float_eval]: "rnd (562949953421313 / 137438953472) = Fin (562949953421313 / 137438953472)"
  by (rule rnd_eqI [where k = "12" and m = "4503599627370504"]) (simp_all add: rhe_def Let_def huge_def)

lemma ev_35 [float_eval]: "rnd (562949953421313 / 34359738368) = Fin (562949953421313 / 34359738368)"
  by (rule rnd_eqI [where k = "14" and m = "4503599627370504"]) (simp_all add: rhe_def Let_def huge_def)

lemma ev_36 [float_eval]: "rnd (4734611207306520581367 / 34359738368) = Fin (564409638322177 / 4096)"
  by (rule rnd_eqI [where k = "37" and m = "4515277106577416"]) (simp_all add: rhe_def Let_def huge_def)

lemma ev_37 [float_eval]: "rnd (- (564409638322177 / 4096)) = Fin (- (564409638322177 / 4096))"
  by (rule rnd_eqI [where k = "37" and m = "- 4515277106577416"]) (simp_all add: rhe_def Let_def huge_def)

lemma ev_38 [float_eval]: "rnd (1125899906842625 / 137438953472) = Fin (1125899906842625 / 137438953472)"
  by (rule rnd_eqI [where k = "13" and m = "4503599627370500"]) (simp_all add: rhe_def Let_def huge_def)

lemma ev_39 [float_eval]: "rnd (1125899906842625 / 34359738368) = Fin (1125899906842625 / 34359738368)"
  by (rule rnd_eqI [where k = "15" and m = "4503599627370500"]) (simp_all add: rhe_def Let_def huge_def)

lemma ev_40 [float_eval]: "rnd (9473834100631460144375 / 34359738368) = Fin (1129369032458241 / 4096)"
  by (rule rnd_eqI [where k = "38" and m = "4517476129832964"]) (simp_all add: rhe_def Let_def huge_def)

lemma ev_41 [float_eval]: "rnd (- (1129094154551297 / 4096)) = Fin (- (1129094154551297 / 4096))"
  by (rule rnd_eqI [where k = "38" and m = "- 4516376618205188"]) (simp_all add: rhe_def Let_def huge_def)

lemma ev_42 [float_eval]: "sqrt 4096 = 64"
  by (rule real_sqrt_unique) simp_all

lemma ev_43 [float_eval]: "rnd (549755813888 / 2575197605394907) = Fin (15382928740747 / 72057594037927936)"
  by (rule rnd_eqI [where k = "- 13" and m = "7876059515262464"]) (simp_all add: rhe_def Let_def huge_def)

lemma ev_44 [float_eval]: "rnd (1922866092593375 / 9007199254740992) = Fin (1922866092593375 / 9007199254740992)"
  by (rule rnd_eqI [where k = "- 3" and m = "7691464370373500"]) (simp_all add: rhe_def Let_def huge_def)

lemma ev_45 [float_eval]: "rnd (10930065347334367 / 9007199254740992) = Fin (341564542104199 / 281474976710656)"
  by (rule rnd_eqI [where k = "0" and m = "5465032673667184"]) (simp_all add: rhe_def Let_def huge_def)

lemma ev_46 [float_eval]: "rnd (281474976710656 / 341564542104199) = Fin (3711306192437021 / 4503599627370496)"
  by (rule rnd_eqI [where k = "- 1" and m = "7422612384874042"]) (simp_all add: rhe_def Let_def huge_def)

lemma ev_47 [float_eval]: "rnd (sqrt (562949953421313 / 137438953472)) = Fin (1125899906842625 / 17592186044416)"
  by (rule rnd_sqrt_eqI [where k = "6" and m = "4503599627370500"]) (simp_all add: power2_eq_square)

lemma ev_48 [float_eval]: "rnd (1125899906842625 / 5274004695848769536) = Fin (7876059515262471 / 36893488147419103232)"
  by (rule rnd_eqI [where k = "- 13" and m = "7876059515262471"]) (simp_all add: rhe_def Let_def huge_def)

lemma ev_49 [float_eval]: "rnd (984507439407808875 / 4611686018427387904) = Fin (7691464370373507 / 36028797018963968)"
  by (rule rnd_eqI [where k = "- 3" and m = "7691464370373507"]) (simp_all add: rhe_def Let_def huge_def)

lemma ev_50 [float_eval]: "rnd (43720261389337475 / 36028797018963968) = Fin (341564542104199 / 281474976710656)"
  by (rule rnd_eqI [where k = "0" and m = "5465032673667184"]) (simp_all add: rhe_def Let_def huge_def)

lemma ev_51 [float_eval]: "rnd (- 26815615859885194199148049996411692254958731641184786755447122887443528060147093953603748596333806855380063716372972101707507765623893139892867298012168192) = Fin (- 26815615859885194199148049996411692254958731641184786755447122887443528060147093953603748596333806855380063716372972101707507765623893139892867298012168192)"
  by (rule rnd_eqI [where k = "513" and m = "- 4503599627370496"]) (simp_all add: rhe_def Let_def huge_def)

lemma ev_52 [float_eval]: "rnd (719077253944926363091722076315609893447190791576922629093720324630930703222003852530833909289630144084480455519485573430635159075257666489971389722557896497511071573699461941105208878404984376477812331808340023075352602729369851525895652442163308948653402042738345192959788983753918865219341425318496896548864) = PosInf"
  by (rule rnd_PosInf) (simp add: huge_def)

lemma ev_53 [float_eval]: "rnd (- 359538626972463181545861038157804946723595395788461314546860162315465351611001926265416954644815072042240227759742786715317579537628833244985694861278948248755535786849730970552604439202492188238906165904170011537676301364684925762947826221081654474326701021369172596479894491876959432609670712659248448274432) = NegInf"
  by (rule rnd_NegInf) (simp add: huge_def)

lemma ev_54 [float_eval]: "rnd (179769313486231590772930519078902473361797697894230657273430081157732675805500963132708477322407536021120113879871393357658789768814416622492847430639474124377767893424865485276302219601246094119453082952085005768838150682342462881473913110540827237163350510684586298239947245938479716304835356329624224137216) = PosInf"
  by (rule rnd_PosInf) (simp add: huge_def)

lemma ev_55 [float_eval]: "sqrt 42250000 = 6500"
  by (rule real_sqrt_unique) simp_all

lemma ev_56 [float_eval]: "rnd (1 / 6500) = Fin (5675921253449093 / 36893488147419103232)"
  by (rule rnd_eqI [where k = "- 13" and m = "5675921253449093"]) (simp_all add: rhe_def Let_def huge_def)

lemma ev_57 [float_eval]: "rnd (2128470470043409875 / 2305843009213693952) = Fin (4157168886803535 / 4503599627370496)"
  by (rule rnd_eqI [where k = "- 1" and m = "8314337773607070"]) (simp_all add: rhe_def Let_def huge_def)

lemma ev_58 [float_eval]: "rnd (3547450783405683125 / 9223372036854775808) = Fin (6928614811339225 / 18014398509481984)"
  by (rule rnd_eqI [where k = "- 2" and m = "6928614811339225"]) (simp_all add: rhe_def Let_def huge_def)

lemma ev_59 [float_eval]: "rnd (311787666510265125 / 281474976710656) = Fin (4871682289222893 / 4398046511104)"
  by (rule rnd_eqI [where k = "10" and m = "4871682289222893"]) (simp_all add: rhe_def Let_def huge_def)

lemma ev_60 [float_eval]: "rnd (866076851417403125 / 4503599627370496) = Fin (3383112700849231 / 17592186044416)"
  by (rule rnd_eqI [where k = "7" and m = "6766225401698462"]) (simp_all add: rhe_def Let_def huge_def)

lemma ev_61 [float_eval]: "rnd (22869841857740803 / 17592186044416) = Fin (5717460464435201 / 4398046511104)"
  by (rule rnd_eqI [where k = "10" and m = "5717460464435201"]) (simp_all add: rhe_def Let_def huge_def)

lemma ev_62 [float_eval]: "rnd (5717460464435201 / 4398046511104) = Fin (5717460464435201 / 4398046511104)"
  by (rule rnd_eqI [where k = "10" and m = "5717460464435201"]) (simp_all add: rhe_def Let_def huge_def)

lemma ev_63 [float_eval]: "sqrt 1690000 = 1300"
  by (rule real_sqrt_unique) simp_all

lemma ev_64 [float_eval]: "rnd (5717460464435201 / 5717460464435200) = Fin (4503599627370497 / 4503599627370496)"
  by (rule rnd_eqI [where k = "0" and m = "4503599627370497"]) (simp_all add: rhe_def Let_def huge_def)

lemma ev_65 [float_eval]: "sqrt 1623585640000 = 1274200"
  by (rule real_sqrt_unique) simp_all

lemma ev_66 [float_eval]: "rnd (- (13371 / 100)) = Fin (- (4704502391997727 / 35184372088832))"
  by (rule rnd_eqI [where k = "7" and m = "- 4704502391997727"]) (simp_all add: rhe_def Let_def huge_def)

lemma ev_67 [float_eval]: "rnd (- (629 / 100)) = Fin (- (7081910414040105 / 1125899906842624))"
  by (rule rnd_eqI [where k = "2" and m = "- 7081910414040105"]) (simp_all add: rhe_def Let_def huge_def)

lemma ev_68 [float_eval]: "sqrt 146528604010000 = 12104900"
  by (rule real_sqrt_unique) simp_all

lemma ev_69 [float_eval]: "rnd (- (13371 / 950)) = Fin (- (3961686224840191 / 281474976710656))"
  by (rule rnd_eqI [where k = "3" and m = "- 7923372449680382"]) (simp_all add: rhe_def Let_def huge_def)

lemma ev_70 [float_eval]: "rnd (- (629 / 950)) = Fin (- (2981857016437939 / 4503599627370496))"
  by (rule rnd_eqI [where k = "- 1" and m = "- 5963714032875878"]) (simp_all add: rhe_def Let_def huge_def)

lemma ev_71 [float_eval]: "sqrt 442021190490000 = 21024300"
  by (rule real_sqrt_unique) simp_all

lemma ev_72 [float_eval]: "rnd (- (4457 / 550)) = Fin (- (4561941713452341 / 562949953421312))"
  by (rule rnd_eqI [where k = "3" and m = "- 4561941713452341"]) (simp_all add: rhe_def Let_def huge_def)

lemma ev_73 [float_eval]: "rnd (- (629 / 1650)) = Fin (- (3433653534080051 / 9007199254740992))"
  by (rule rnd_eqI [where k = "- 2" and m = "- 6867307068160102"]) (simp_all add: rhe_def Let_def huge_def)

lemma ev_74 [float_eval]: "sqrt 117304062490000 = 10830700"
  by (rule real_sqrt_unique) simp_all

lemma ev_75 [float_eval]: "rnd (- (13471 / 850)) = Fin (- (4460881660316761 / 281474976710656))"
  by (rule rnd_eqI [where k = "3" and m = "- 8921763320633522"]) (simp_all add: rhe_def Let_def huge_def)

lemma ev_76 [float_eval]: "rnd (- (729 / 850)) = Fin (- (3862498974533049 / 4503599627370496))"
  by (rule rnd_eqI [where k = "- 1" and m = "- 7724997949066098"]) (simp_all add: rhe_def Let_def huge_def)

lemma ev_77 [float_eval]: "sqrt 390066450010000 = 19750100"
  by (rule real_sqrt_unique) simp_all

lemma ev_78 [float_eval]: "rnd (- (13471 / 1550)) = Fin (- (2446289942754353 / 281474976710656))"
  by (rule rnd_eqI [where k = "3" and m = "- 4892579885508706"]) (simp_all add: rhe_def Let_def huge_def)

lemma ev_79 [float_eval]: "rnd (- (729 / 1550)) = Fin (- (4236289197874957 / 9007199254740992))"
  by (rule rnd_eqI [where k = "- 2" and m = "- 8472578395749914"]) (simp_all add: rhe_def Let_def huge_def)

lemma ev_80 [float_eval]: "sqrt 79555696360000 = 8919400"
  by (rule real_sqrt_unique) simp_all

lemma ev_81 [float_eval]: "rnd (- (14321 / 700)) = Fin (- (5758575916390435 / 281474976710656))"
  by (rule rnd_eqI [where k = "4" and m = "- 5758575916390435"]) (simp_all add: rhe_def Let_def huge_def)

lemma ev_82 [float_eval]: "rnd (- (1579 / 700)) = Fin (- (5079417008298581 / 2251799813685248))"
  by (rule rnd_eqI [where k = "1" and m = "- 5079417008298581"]) (simp_all add: rhe_def Let_def huge_def)

lemma ev_83 [float_eval]: "sqrt 10000 = 100"
  by (rule real_sqrt_unique) simp_all

lemma ev_84 [float_eval]: "rnd (858993459200 / 2575197605394907) = Fin (384573218518675 / 1152921504606846976)"
  by (rule rnd_eqI [where k = "- 12" and m = "6153171496298800"]) (simp_all add: rhe_def Let_def huge_def)

lemma ev_85 [float_eval]: "rnd (48071652314834375 / 144115188075855872) = Fin (6008956539354297 / 18014398509481984)"
  by (rule rnd_eqI [where k = "- 2" and m = "6008956539354297"]) (simp_all add: rhe_def Let_def huge_def)

lemma ev_86 [float_eval]: "rnd (24023355048836281 / 18014398509481984) = Fin (3002919381104535 / 2251799813685248)"
  by (rule rnd_eqI [where k = "0" and m = "6005838762209070"]) (simp_all add: rhe_def Let_def huge_def)

lemma ev_87 [float_eval]: "rnd (2251799813685248 / 3002919381104535) = Fin (6754230476940539 / 9007199254740992)"
  by (rule rnd_eqI [where k = "- 1" and m = "6754230476940539"]) (simp_all add: rhe_def Let_def huge_def)

lemma ev_88 [float_eval]: "sqrt 902500 = 950"
  by (rule real_sqrt_unique) simp_all

lemma ev_89 [float_eval]: "rnd (8160437862400 / 2575197605394907) = Fin (7306891151854825 / 2305843009213693952)"
  by (rule rnd_eqI [where k = "- 9" and m = "7306891151854825"]) (simp_all add: rhe_def Let_def huge_def)

lemma ev_90 [float_eval]: "rnd (913361393981853125 / 288230376151711744) = Fin (1783908972620807 / 562949953421312)"
  by (rule rnd_eqI [where k = "1" and m = "7135635890483228"]) (simp_all add: rhe_def Let_def huge_def)

lemma ev_91 [float_eval]: "rnd (2346858926042119 / 562949953421312) = Fin (2346858926042119 / 562949953421312)"
  by (rule rnd_eqI [where k = "2" and m = "4693717852084238"]) (simp_all add: rhe_def Let_def huge_def)

lemma ev_92 [float_eval]: "rnd (562949953421312 / 2346858926042119) = Fin (2160591054130501 / 9007199254740992)"
  by (rule rnd_eqI [where k = "- 3" and m = "8642364216522004"]) (simp_all add: rhe_def Let_def huge_def)

lemma ev_93 [float_eval]: "sqrt 2722500 = 1650"
  by (rule real_sqrt_unique) simp_all

lemma ev_94 [float_eval]: "rnd (14173392076800 / 2575197605394907) = Fin (3172729052779069 / 576460752303423488)"
  by (rule rnd_eqI [where k = "- 8" and m = "6345458105558138"]) (simp_all add: rhe_def Let_def huge_def)

lemma ev_95 [float_eval]: "rnd (396591131597383625 / 72057594037927936) = Fin (6196736431209119 / 1125899906842624)"
  by (rule rnd_eqI [where k = "2" and m = "6196736431209119"]) (simp_all add: rhe_def Let_def huge_def)

lemma ev_96 [float_eval]: "rnd (7322636338051743 / 1125899906842624) = Fin (7322636338051743 / 1125899906842624)"
  by (rule rnd_eqI [where k = "2" and m = "7322636338051743"]) (simp_all add: rhe_def Let_def huge_def)

lemma ev_97 [float_eval]: "rnd (1125899906842624 / 7322636338051743) = Fin (173113963565409 / 1125899906842624)"
  by (rule rnd_eqI [where k = "- 3" and m = "5539646834093088"]) (simp_all add: rhe_def Let_def huge_def)

lemma ev_98 [float_eval]: "sqrt 722500 = 850"
  by (rule real_sqrt_unique) simp_all

lemma ev_99 [float_eval]: "rnd (7301444403200 / 2575197605394907) = Fin (6537744714817475 / 2305843009213693952)"
  by (rule rnd_eqI [where k = "- 9" and m = "6537744714817475"]) (simp_all add: rhe_def Let_def huge_def)

lemma ev_100 [float_eval]: "rnd (817218089352184375 / 288230376151711744) = Fin (1596129080765985 / 562949953421312)"
  by (rule rnd_eqI [where k = "1" and m = "6384516323063940"]) (simp_all add: rhe_def Let_def huge_def)

lemma ev_101 [float_eval]: "rnd (2159079034187297 / 562949953421312) = Fin (2159079034187297 / 562949953421312)"
  by (rule rnd_eqI [where k = "1" and m = "8636316136749188"]) (simp_all add: rhe_def Let_def huge_def)

lemma ev_102 [float_eval]: "rnd (562949953421312 / 2159079034187297) = Fin (4697004899426067 / 18014398509481984)"
  by (rule rnd_eqI [where k = "- 2" and m = "4697004899426067"]) (simp_all add: rhe_def Let_def huge_def)

lemma ev_103 [float_eval]: "sqrt 2402500 = 1550"
  by (rule real_sqrt_unique) simp_all

lemma ev_104 [float_eval]: "rnd (13314398617600 / 2575197605394907) = Fin (5960884887039463 / 1152921504606846976)"
  by (rule rnd_eqI [where k = "- 8" and m = "5960884887039463"]) (simp_all add: rhe_def Let_def huge_def)

lemma ev_105 [float_eval]: "rnd (745110610879932875 / 144115188075855872) = Fin (1455294161874869 / 281474976710656)"
  by (rule rnd_eqI [where k = "2" and m = "5821176647499476"]) (simp_all add: rhe_def Let_def huge_def)

lemma ev_106 [float_eval]: "rnd (1736769138585525 / 281474976710656) = Fin (1736769138585525 / 281474976710656)"
  by (rule rnd_eqI [where k = "2" and m = "6947076554342100"]) (simp_all add: rhe_def Let_def huge_def)

lemma ev_107 [float_eval]: "rnd (281474976710656 / 1736769138585525) = Fin (5839120799949915 / 36028797018963968)"
  by (rule rnd_eqI [where k = "- 3" and m = "5839120799949915"]) (simp_all add: rhe_def Let_def huge_def)

lemma ev_108 [float_eval]: "sqrt 490000 = 700"
  by (rule real_sqrt_unique) simp_all

lemma ev_109 [float_eval]: "rnd (6012954214400 / 2575197605394907) = Fin (2692012529630725 / 1152921504606846976)"
  by (rule rnd_eqI [where k = "- 9" and m = "5384025059261450"]) (simp_all add: rhe_def Let_def huge_def)

lemma ev_110 [float_eval]: "rnd (336501566203840625 / 144115188075855872) = Fin (2628918485967505 / 1125899906842624)"
  by (rule rnd_eqI [where k = "1" and m = "5257836971935010"]) (simp_all add: rhe_def Let_def huge_def)

lemma ev_111 [float_eval]: "rnd (3754818392810129 / 1125899906842624) = Fin (3754818392810129 / 1125899906842624)"
  by (rule rnd_eqI [where k = "1" and m = "7509636785620258"]) (simp_all add: rhe_def Let_def huge_def)

lemma ev_112 [float_eval]: "rnd (1125899906842624 / 3754818392810129) = Fin (84401592008789 / 281474976710656)"
  by (rule rnd_eqI [where k = "- 2" and m = "5401701888562496"]) (simp_all add: rhe_def Let_def huge_def)

lemma ev_113 [float_eval]: "rnd (57085087123865817 / 18014398509481984) = Fin (7135635890483227 / 2251799813685248)"
  by (rule rnd_eqI [where k = "1" and m = "7135635890483227"]) (simp_all add: rhe_def Let_def huge_def)

lemma ev_114 [float_eval]: "rnd (6008956539354297 / 18014398509481984) = Fin (6008956539354297 / 18014398509481984)"
  by (rule rnd_eqI [where k = "- 2" and m = "6008956539354297"]) (simp_all add: rhe_def Let_def huge_def)

lemma ev_115 [float_eval]: "rnd (12393472862418237 / 2251799813685248) = Fin (3098368215604559 / 562949953421312)"
  by (rule rnd_eqI [where k = "2" and m = "6196736431209118"]) (simp_all add: rhe_def Let_def huge_def)

lemma ev_116 [float_eval]: "sqrt 162358564 = 12742"
  by (rule real_sqrt_unique) simp_all

lemma ev_117 [float_eval]: "rnd (109452946571264 / 2575197605394907) = Fin (1531322484489049 / 36028797018963968)"
  by (rule rnd_eqI [where k = "- 5" and m = "6125289937956196"]) (simp_all add: rhe_def Let_def huge_def)

lemma ev_118 [float_eval]: "rnd (191415310561131125 / 4503599627370496) = Fin (1495432113758837 / 35184372088832)"
  by (rule rnd_eqI [where k = "5" and m = "5981728455035348"]) (simp_all add: rhe_def Let_def huge_def)

section \<open>The links of a built graph\<close>

lemma insertNodes_isl:
  "isl (insertNodes ns m) \<longleftrightarrow> (\<exists>n \<in> set ns. ID n = [])"
  by (induction ns arbitrary: m) auto

lemma insertNodes_Inl:
  "insertNodes ns m = Inl e \<Longrightarrow> e = ErrNodeIDEmpty"
  by (induction ns arbitrary: m) (auto split: if_splits)

lemma Satellite_neq_Ground: "Satellite \<noteq> Ground"
  by (simp add: Satellite_def Ground_def)

lemma connect_visible_pair:
  "connect m a b adj = (if visible_pair m a b then addEdge b a (addEdge a b adj) else adj)"
  using Satellite_neq_Ground by (auto simp: connect_def visible_pair_def)

lemma edges_of_adj_edges: "edges_of g = adj_edges (Adj g)"
  by (simp add: edges_of_def adj_edges_def)

lemma adj_edges_addEdge: "adj_edges (addEdge a b adj) = insert (mkEdge a b) (adj_edges adj)"
proof (rule set_eqI)
  fix e
  show "e \<in> adj_edges (addEdge a b adj) \<longleftrightarrow> e \<in> insert (mkEdge a b) (adj_edges adj)"
  proof
    assume "e \<in> adj_edges (addEdge a b adj)"
    then obtain k es where k: "addEdge a b adj k = Some es" "e \<in> set es"
      by (auto simp: adj_edges_def)
    show "e \<in> insert (mkEdge a b) (adj_edges adj)"
    proof (cases "k = ID a")
      case True
      with k have "e = mkEdge a b \<or> e \<in> set (adjOf adj (ID a))"
        by (auto simp: addEdge_def)
      then show ?thesis
        by (auto simp: adj_edges_def adjOf_def split: option.splits)
    next
      case False
      with k show ?thesis
        by (auto simp: addEdge_def adj_edges_def)
    qed
  next
    assume "e \<in> insert (mkEdge a b) (adj_edges adj)"
    then consider "e = mkEdge a b" | k es where "adj k = Some es" "e \<in> set es"
      by (auto simp: adj_edges_def)
    then show "e \<in> adj_edges (addEdge a b adj)"
    proof cases
      case 1
      have "addEdge a b adj (ID a) = Some (adjOf adj (ID a) @ [mkEdge a b])"
        by (simp add: addEdge_def)
      moreover from 1 have "e \<in> set (adjOf adj (ID a) @ [mkEdge a b])" by simp
      ultimately show ?thesis
        unfolding adj_edges_def by blast
    next
      case 2
      show ?thesis
      proof (cases "k = ID a")
        case True
        with 2 have "addEdge a b adj (ID a) = Some (es @ [mkEdge a b])"
          by (simp add: addEdge_def adjOf_def)
        moreover from 2 have "e \<in> set (es @ [mkEdge a b])" by simp
        ultimately show ?thesis
          unfolding adj_edges_def by blast
      next
        case False
        with 2 have "addEdge a b adj k = Some es"
          by (simp add: addEdge_def)
        with 2 show ?thesis
          unfolding adj_edges_def by blast
      qed
    qed
  qed
qed

lemma adj_edges_connect:
  "adj_edges (connect m a b adj) =
     adj_edges adj \<union> (if visible_pair m a b then {mkEdge a b, mkEdge b a} else {})"
  by (auto simp: connect_visible_pair adj_edges_addEdge)

lemma adj_edges_fold_connect:
  "adj_edges (fold (connect m a) rest adj) =
     adj_edges adj \<union> {e. \<exists>b \<in> set rest. visible_pair m a b \<and> (e = mkEdge a b \<or> e = mkEdge b a)}"
proof (induction rest arbitrary: adj)
  case Nil
  then show ?case by simp
next
  case (Cons b rest)
  show ?case
    by (simp add: Cons.IH adj_edges_connect) blast
qed

lemma adj_edges_linkAll:
  "e \<in> adj_edges (linkAll m ns adj) \<Longrightarrow>
     e \<in> adj_edges adj \<or>
     (\<exists>a \<in> set ns. \<exists>b \<in> set ns. visible_pair m a b \<and> (e = mkEdge a b \<or> e = mkEdge b a))"
proof (induction ns arbitrary: adj)
  case Nil
  then show ?case by simp
next
  case (Cons a rest)
  from Cons.prems have "e \<in> adj_edges (linkAll m rest (fold (connect m a) rest adj))" by simp
  from Cons.IH [OF this] show ?case
    by (auto simp: adj_edges_fold_connect)
qed

lemma BuildGraph_edges:
  assumes "BuildGraph nodes m = Inr g" and "e \<in> edges_of g"
  shows "\<exists>a \<in> set nodes. \<exists>b \<in> set nodes. visible_pair m a b \<and> (e = mkEdge a b \<or> e = mkEdge b a)"
proof -
  from assms(1) have "Adj g = linkAll m nodes Map.empty"
    by (auto simp: BuildGraph_def split: sum.splits)
  with assms(2) have "e \<in> adj_edges (linkAll m nodes Map.empty)"
    by (simp add: edges_of_adj_edges)
  from adj_edges_linkAll [OF this] show ?thesis
    by (auto simp: adj_edges_def)
qed

lemma insertNodes_lookup:
  "insertNodes ns m0 = Inr nm \<Longrightarrow> distinct (map ID ns) \<Longrightarrow> n \<in> set ns \<Longrightarrow> nm (ID n) = Some n"
proof (induction ns arbitrary: m0)
  case Nil
  then show ?case by simp
next
  case (Cons a ns)
  have keep: "\<And>m1 k v. insertNodes ns m1 = Inr nm \<Longrightarrow> k \<notin> ID ` set ns \<Longrightarrow> m1 k = v \<Longrightarrow> nm k = v"
  proof -
    fix m1 k v show "insertNodes ns m1 = Inr nm \<Longrightarrow> k \<notin> ID ` set ns \<Longrightarrow> m1 k = v \<Longrightarrow> nm k = v"
      by (induction ns arbitrary: m1) (auto split: if_splits)
  qed
  from Cons.prems show ?case
    by (auto split: if_splits dest: Cons.IH keep)
qed

lemma insertNodes_dom:
  "insertNodes ns m0 = Inr nm \<Longrightarrow> nm k = Some n \<Longrightarrow> m0 k = Some n \<or> (n \<in> set ns \<and> ID n = k)"
proof (induction ns arbitrary: m0)
  case Nil
  then show ?case by simp
next
  case (Cons a ns)
  from Cons.prems(1) have "insertNodes ns (m0(ID a \<mapsto> a)) = Inr nm"
    by (auto split: if_splits)
  from Cons.IH [OF this Cons.prems(2)]
  show ?case by (auto split: if_splits)
qed


lemma Elevation_ex:
  "Elevation (Position ex_ground) (Position ex_sat) = math_Asin (Fin (9007199254740991 / 9007199254740992))"
  by (simp add: Elevation_def ex_ground_def ex_sat_def sub_def scale_def dot_def norm_v_def
      fsub_def fneg_def Let_def float_eval del: math_Asin.simps)

lemma Elevation_ex_far:
  "Elevation (Position ex_ground) (Position ex_sat_far) = math_Asin (Fin (9007199254740991 / 9007199254740992))"
  by (simp add: Elevation_def ex_ground_def ex_sat_far_def sub_def scale_def dot_def norm_v_def
      fsub_def fneg_def Let_def float_eval del: math_Asin.simps)

lemma Elevation_antipodal:
  "Elevation (Position ex_ground_x) (Position ex_sat)
   = math_Asin (Fin (- (9007199254740991 / 9007199254740992)))"
  by (simp add: Elevation_def ex_ground_x_def ex_sat_def sub_def scale_def dot_def norm_v_def
      fsub_def fneg_def Let_def float_eval del: math_Asin.simps)

lemma clear_ex: "\<not> segmentIntersectsEarth (Position ex_ground) (Position ex_sat) EarthRadius"
  by (simp add: segmentIntersectsEarth_def ex_ground_def ex_sat_def sub_def dot_def fsub_def
      fneg_def Let_def EarthRadius_def epsilon_def one_minus_epsilon_def flt_def fgt_def float_eval)

lemma clear_ex_far: "\<not> segmentIntersectsEarth (Position ex_ground) (Position ex_sat_far) EarthRadius"
  by (simp add: segmentIntersectsEarth_def ex_ground_def ex_sat_far_def sub_def dot_def fsub_def
      fneg_def Let_def EarthRadius_def epsilon_def one_minus_epsilon_def flt_def fgt_def float_eval)

lemma visible_ex: "GroundToSatelliteVisible (Position ex_ground) (Position ex_sat) (Fin 0)"
  using clear_ex math_Asin_nonneg [of "9007199254740991 / 9007199254740992"]
  by (simp add: GroundToSatelliteVisible_def MeetsElevationMask_def Elevation_ex del: math_Asin.simps)

lemma visible_ex_far: "GroundToSatelliteVisible (Position ex_ground) (Position ex_sat_far) (Fin 0)"
  using clear_ex_far math_Asin_nonneg [of "9007199254740991 / 9007199254740992"]
  by (simp add: GroundToSatelliteVisible_def MeetsElevationMask_def Elevation_ex_far del: math_Asin.simps)

lemma not_visible_ex: "\<not> GroundToSatelliteVisible (Position ex_ground_x) (Position ex_sat) (Fin 0)"
  using math_Asin_negative [of "- (9007199254740991 / 9007199254740992)"]
  by (simp add: GroundToSatelliteVisible_def MeetsElevationMask_def Elevation_antipodal float_eval
      del: math_Asin.simps)

lemma visible_pair_ex: "visible_pair (Fin 0) ex_sat ex_ground"
  using visible_ex by (simp add: visible_pair_def ex_sat_def ex_ground_def)

lemma BuildGraph_ex:
  "BuildGraph [ex_sat, ex_ground] (Fin 0) =
     Inr \<lparr>Nodes = [''x'' \<mapsto> ex_sat, ''g'' \<mapsto> ex_ground],
          Adj = [''x'' \<mapsto> [mkEdge ex_sat ex_ground], ''g'' \<mapsto> [mkEdge ex_ground ex_sat]]\<rparr>"
  using visible_pair_ex
  by (simp add: BuildGraph_def connect_visible_pair addEdge_def adjOf_def)
     (simp add: ex_sat_def ex_ground_def)

lemma visible_pair_ex_far: "visible_pair (Fin 0) ex_sat_far ex_ground"
  using visible_ex_far by (simp add: visible_pair_def ex_sat_far_def ex_ground_def)

lemma BuildGraph_ex_far:
  "BuildGraph [ex_sat_far, ex_ground] (Fin 0) =
     Inr \<lparr>Nodes = [''y'' \<mapsto> ex_sat_far, ''g'' \<mapsto> ex_ground],
          Adj = [''y'' \<mapsto> [mkEdge ex_sat_far ex_ground], ''g'' \<mapsto> [mkEdge ex_ground ex_sat_far]]\<rparr>"
  using visible_pair_ex_far
  by (simp add: BuildGraph_def connect_visible_pair addEdge_def adjOf_def)
     (simp add: ex_sat_far_def ex_ground_def)

lemma edges_ofI: "Adj g k = Some es \<Longrightarrow> e \<in> set es \<Longrightarrow> e \<in> edges_of g"
  unfolding edges_of_def by blast

lemma BuildGraph_ex_dup:
  "BuildGraph [ex_sat, ex_ground, ex_ground_x] (Fin 0) =
     Inr \<lparr>Nodes = [''x'' \<mapsto> ex_ground_x, ''g'' \<mapsto> ex_ground],
          Adj = [''x'' \<mapsto> [mkEdge ex_sat ex_ground], ''g'' \<mapsto> [mkEdge ex_ground ex_sat]]\<rparr>"
proof -
  have 1: "\<not> visible_pair (Fin 0) ex_sat ex_ground_x"
    using not_visible_ex Satellite_neq_Ground by (simp add: visible_pair_def ex_sat_def ex_ground_x_def)
  have 2: "\<not> visible_pair (Fin 0) ex_ground ex_ground_x"
    using Satellite_neq_Ground by (simp add: visible_pair_def ex_ground_def ex_ground_x_def)
  show ?thesis
    using visible_pair_ex 1 2
    by (simp add: BuildGraph_def connect_visible_pair addEdge_def adjOf_def)
       (auto simp add: ex_sat_def ex_ground_def ex_ground_x_def fun_upd_twist)
qed

lemma adj_edges_RemoveEdge: "edges_of (RemoveEdge g u v) \<subseteq> edges_of g"
proof
  fix e assume "e \<in> edges_of (RemoveEdge g u v)"
  then obtain k es where k: "Adj (RemoveEdge g u v) k = Some es" "e \<in> set es"
    by (auto simp: edges_of_def)
  show "e \<in> edges_of g"
  proof (cases "k = u")
    case True
    with k have "e \<in> set (adjOf (Adj g) u)"
      by (auto simp: RemoveEdge_def Let_def split: if_splits)
    then obtain es' where "Adj g u = Some es'" "e \<in> set es'"
      by (cases "Adj g u") (auto simp: adjOf_def)
    then show ?thesis
      unfolding edges_of_def by blast
  next
    case False
    with k have "Adj g k = Some es"
      by (auto simp: RemoveEdge_def Let_def split: if_splits)
    with k show ?thesis by (auto simp: edges_of_def)
  qed
qed

lemma Nodes_RemoveEdge: "Nodes (RemoveEdge g u v) = Nodes g"
  by (simp add: RemoveEdge_def Let_def)

lemma adj_edges_RemoveNode: "edges_of (RemoveNode g n) \<subseteq> edges_of g"
  by (auto simp: edges_of_def RemoveNode_def Let_def split: if_splits option.splits)

lemma Nodes_RemoveNode: "Nodes (RemoveNode g n) k = Some v \<Longrightarrow> Nodes g k = Some v"
  by (auto simp: RemoveNode_def split: if_splits)

lemma apply_edit_shrinks:
  "edges_of (apply_edit ed g) \<subseteq> edges_of g \<and> Nodes (apply_edit ed g) \<subseteq>\<^sub>m Nodes g"
proof (cases ed)
  case (DelEdge u v)
  then show ?thesis
    using adj_edges_RemoveEdge [of g u v] by (simp add: Nodes_RemoveEdge)
next
  case (DelNode n)
  then show ?thesis
    using adj_edges_RemoveNode [of g n]
    by (auto simp: map_le_def RemoveNode_def split: if_splits)
qed

lemma apply_edits_shrink:
  "edges_of (fold apply_edit eds g) \<subseteq> edges_of g \<and> Nodes (fold apply_edit eds g) \<subseteq>\<^sub>m Nodes g"
proof (induction eds arbitrary: g)
  case Nil
  then show ?case by simp
next
  case (Cons ed eds)
  from Cons.IH [of "apply_edit ed g"] apply_edit_shrinks [of ed g]
  show ?case
    by (auto intro: map_le_trans)
qed

lemma ground_node_mono: "Nodes g' \<subseteq>\<^sub>m Nodes g \<Longrightarrow> ground_node g' k \<Longrightarrow> ground_node g k"
  by (auto simp: ground_node_def map_le_def dom_def split: option.splits)

lemma BuildGraph_Nodes_lookup:
  assumes "BuildGraph nodes m = Inr g" "distinct (map ID nodes)" "n \<in> set nodes"
  shows "Nodes g (ID n) = Some n"
proof -
  from assms(1) obtain nm where "insertNodes nodes Map.empty = Inr nm" "Nodes g = nm"
    by (auto simp: BuildGraph_def split: sum.splits)
  with insertNodes_lookup [OF this(1) assms(2,3)] show ?thesis by simp
qed

lemma visible_pair_not_both_ground: "visible_pair m a b \<Longrightarrow> \<not> (Type a = Ground \<and> Type b = Ground)"
  using Satellite_neq_Ground by (auto simp: visible_pair_def)

lemma mkEdge_sel [simp]: "From (mkEdge a b) = ID a" "To (mkEdge a b) = ID b"
  by (simp_all add: mkEdge_def Let_def)

lemma BuildGraph_no_ground_ground:
  assumes "BuildGraph nodes m = Inr g" "distinct (map ID nodes)" "e \<in> edges_of g"
  shows "\<not> ground_ground_link g e"
proof -
  from BuildGraph_edges [OF assms(1,3)]
  obtain a b where ab: "a \<in> set nodes" "b \<in> set nodes" "visible_pair m a b"
      "e = mkEdge a b \<or> e = mkEdge b a"
    by blast
  have na: "Nodes g (ID a) = Some a" and nb: "Nodes g (ID b) = Some b"
    using BuildGraph_Nodes_lookup [OF assms(1,2)] ab by auto
  from visible_pair_not_both_ground [OF ab(3)] ab(4) na nb
  show ?thesis
    by (auto simp: ground_ground_link_def ground_node_def)
qed


section \<open>The recompute step\<close>

lemma BuildGraph_Inr:
  "insertNodes nodes Map.empty = Inr nm \<Longrightarrow>
   BuildGraph nodes m = Inr \<lparr>Nodes = nm, Adj = linkAll m nodes Map.empty\<rparr>"
  by (simp add: BuildGraph_def)

lemma insertNodes_append_empty:
  "\<exists>n \<in> set ns. ID n = [] \<Longrightarrow> insertNodes ns m = Inl ErrNodeIDEmpty"
  by (induction ns arbitrary: m) auto

lemma recomputeLocked_error:
  assumes "recomputeLocked now satOrder groundOrder s = Some (s', Inl err)"
  shows "s_snapshot s' = s_snapshot s \<and> s_events s' = s_events s
         \<and> s_satellites s' = s_satellites s \<and> s_ground s' = s_ground s
         \<and> s_traffic s' = s_traffic s"
  using assms
  by (auto simp: recomputeLocked_def Let_def split: sum.splits option.splits)


lemma map_filter_set: "x \<in> set (List.map_filter f xs) \<Longrightarrow> \<exists>k. f k = Some x"
  by (auto simp: List.map_filter_def)

lemma sim_nodes_nonempty_ID:
  assumes "wf_sim s" "n \<in> set (sim_nodes s satOrder groundOrder)"
  shows "ID n \<noteq> []"
proof -
  from assms(2) consider sat where "sat \<in> set (List.map_filter (s_satellites s) satOrder)" "ID n = SatID sat"
    | gs where "gs \<in> set (List.map_filter (s_ground s) groundOrder)" "ID n = GsID gs"
    by (auto simp: sim_nodes_def)
  then show ?thesis
  proof cases
    case 1
    from map_filter_set [OF 1(1)] obtain k where "s_satellites s k = Some sat" by blast
    with assms(1) 1(2) show ?thesis by (simp add: wf_sim_def)
  next
    case 2
    from map_filter_set [OF 2(1)] obtain k where "s_ground s k = Some gs" by blast
    with assms(1) 2(2) show ?thesis by (simp add: wf_sim_def)
  qed
qed

lemma NewCoverageGrid_error:
  "NewCoverageGrid c = Some (Inl err) \<Longrightarrow> Validate c = Some err"
  by (auto simp: NewCoverageGrid_def split: option.splits)

lemma recomputeLocked_cases:
  "recomputeLocked now satOrder groundOrder s =
     (case BuildGraph (sim_nodes s satOrder groundOrder) (s_elevationMask s) of
        Inl err \<Rightarrow> Some (s, Inl err)
      | Inr graph \<Rightarrow>
          (case routeAll graph (s_traffic s) Map.empty of
             None \<Rightarrow> None
           | Some routes \<Rightarrow>
               (case NewCoverageGrid (s_gridConfig s) of
                  None \<Rightarrow> None
                | Some (Inl err) \<Rightarrow> Some (s\<lparr>s_graph := Some graph, s_routes := routes\<rparr>, Inl err)
                | Some (Inr grid) \<Rightarrow>
                    (let grid' = ApplyFootprints grid
                           (map SatFootprint (filter Active (List.map_filter (s_satellites s) satOrder)));
                         snapshot = \<lparr>Timestamp = now,
                            ActiveSatellites = map SatID (filter Active (List.map_filter (s_satellites s) satOrder)),
                            DisabledSatellites = map SatID (filter (\<lambda>sat. \<not> Active sat) (List.map_filter (s_satellites s) satOrder)),
                            Coverage = Summarize grid',
                            Heatmap = HeatmapData grid', Routes = routes\<rparr>
                     in Some (publishEvent
                                (publishEvent (s\<lparr>s_graph := Some graph, s_routes := routes, s_snapshot := snapshot\<rparr>)
                                   EventTopologyUpdated snapshot)
                                EventCoverageUpdated snapshot,
                              Inr snapshot)))))"
  unfolding recomputeLocked_def sim_nodes_def Let_def
  by (simp split: sum.split option.split)


lemma BuildGraph_ok_iff:
  "(\<exists>g. BuildGraph nodes m = Inr g) \<longleftrightarrow> (\<forall>n \<in> set nodes. ID n \<noteq> [])"
proof -
  have "isl (BuildGraph nodes m) \<longleftrightarrow> isl (insertNodes nodes Map.empty)"
    by (simp add: BuildGraph_def split: sum.splits)
  then have "\<not> isl (BuildGraph nodes m) \<longleftrightarrow> (\<forall>n \<in> set nodes. ID n \<noteq> [])"
    using insertNodes_isl [of nodes Map.empty] by blast
  moreover have "\<not> isl (BuildGraph nodes m) \<longleftrightarrow> (\<exists>g. BuildGraph nodes m = Inr g)"
    by (cases "BuildGraph nodes m") auto
  ultimately show ?thesis by simp
qed

lemma recomputeLocked_never_fails:
  assumes "wf_sim s"
  shows "recomputeLocked now satOrder groundOrder s \<noteq> Some (s', Inl err)"
proof
  assume r: "recomputeLocked now satOrder groundOrder s = Some (s', Inl err)"
  from sim_nodes_nonempty_ID [OF assms]
  obtain graph where b: "BuildGraph (sim_nodes s satOrder groundOrder) (s_elevationMask s) = Inr graph"
    using BuildGraph_ok_iff [of "sim_nodes s satOrder groundOrder" "s_elevationMask s"] by blast
  have v: "Validate (s_gridConfig s) = None"
    using assms by (simp add: wf_sim_def)
  show False
  proof (cases "routeAll graph (s_traffic s) Map.empty")
    case None
    with r b show False by (simp add: recomputeLocked_cases)
  next
    case (Some routes)
    show False
    proof (cases "NewCoverageGrid (s_gridConfig s)")
      case None
      with r b Some show False by (simp add: recomputeLocked_cases)
    next
      case g: (Some res)
      show False
      proof (cases res)
        case (Inl e)
        with g NewCoverageGrid_error v show False by fastforce
      next
        case (Inr grid)
        with r b Some g show False by (simp add: recomputeLocked_cases Let_def)
      qed
    qed
  qed
qed

lemma publishEvent_frame [simp]:
  "s_gridConfig (publishEvent s ty snap) = s_gridConfig s"
  "s_satellites (publishEvent s ty snap) = s_satellites s"
  "s_ground (publishEvent s ty snap) = s_ground s"
  "s_traffic (publishEvent s ty snap) = s_traffic s"
  "s_elevationMask (publishEvent s ty snap) = s_elevationMask s"
  "s_snapshot (publishEvent s ty snap) = s_snapshot s"
  "s_routes (publishEvent s ty snap) = s_routes s"
  "s_graph (publishEvent s ty snap) = s_graph s"
  by (simp_all add: publishEvent_def)

lemma recomputeLocked_frame:
  assumes "recomputeLocked now satOrder groundOrder s = Some (s', r)"
  shows "s_gridConfig s' = s_gridConfig s \<and> s_satellites s' = s_satellites s
         \<and> s_ground s' = s_ground s \<and> s_traffic s' = s_traffic s
         \<and> s_elevationMask s' = s_elevationMask s"
proof (cases "BuildGraph (sim_nodes s satOrder groundOrder) (s_elevationMask s)")
  case (Inl err)
  with assms show ?thesis by (simp add: recomputeLocked_cases)
next
  case (Inr graph)
  show ?thesis
  proof (cases "routeAll graph (s_traffic s) Map.empty")
    case None
    with Inr assms show ?thesis by (simp add: recomputeLocked_cases)
  next
    case (Some routes)
    show ?thesis
    proof (cases "NewCoverageGrid (s_gridConfig s)")
      case None
      with Inr Some assms show ?thesis by (simp add: recomputeLocked_cases)
    next
      case g: (Some res)
      with Inr Some assms show ?thesis
        by (cases res) (auto simp add: recomputeLocked_cases Let_def)
    qed
  qed
qed

lemma recomputeLocked_wf:
  assumes "wf_sim s" "recomputeLocked now satOrder groundOrder s = Some (s', r)"
  shows "wf_sim s'"
  using assms(1) recomputeLocked_frame [OF assms(2)]
  by (simp add: wf_sim_def)

lemma insertSatellites_nonempty:
  "insertSatellites sats m = Inr m' \<Longrightarrow> (\<forall>k sat. m k = Some sat \<longrightarrow> SatID sat \<noteq> [])
   \<Longrightarrow> m' k = Some sat \<Longrightarrow> SatID sat \<noteq> []"
proof (induction sats arbitrary: m)
  case Nil
  then show ?case by auto
next
  case (Cons a sats)
  from Cons.prems(1) have a: "SatID a \<noteq> []" "insertSatellites sats (m(SatID a \<mapsto> a\<lparr>Active := True\<rparr>)) = Inr m'"
    by (auto split: if_splits)
  show ?case
    by (rule Cons.IH [OF a(2) _ Cons.prems(3)]) (use a(1) Cons.prems(2) in auto)
qed

lemma insertGroundStations_nonempty:
  "insertGroundStations gss m = Inr m' \<Longrightarrow> (\<forall>k gs. m k = Some gs \<longrightarrow> GsID gs \<noteq> [])
   \<Longrightarrow> m' k = Some gs \<Longrightarrow> GsID gs \<noteq> []"
proof (induction gss arbitrary: m)
  case Nil
  then show ?case by auto
next
  case (Cons a gss)
  from Cons.prems(1) have a: "GsID a \<noteq> []" "insertGroundStations gss (m(GsID a \<mapsto> a)) = Inr m'"
    by (auto split: if_splits)
  show ?case
    by (rule Cons.IH [OF a(2) _ Cons.prems(3)]) (use a(1) Cons.prems(2) in auto)
qed

lemma NewSimulator_wf:
  assumes "NewSimulator now satOrder groundOrder cfg = Some (Inr sim)"
  shows "wf_sim sim"
proof -
  from assms obtain sats ground sim0 snap where
    v: "Validate (CfgGrid cfg) = None" and
    s: "insertSatellites (Satellites cfg) Map.empty = Inr sats" and
    g: "insertGroundStations (GroundStations cfg) Map.empty = Inr ground" and
    sim0: "sim0 = \<lparr>s_elevationMask = ElevationMask cfg, s_gridConfig = CfgGrid cfg,
                   s_satellites = sats, s_ground = ground, s_traffic = Traffic cfg,
                   s_graph = None, s_routes = Map.empty, s_events = [],
                   s_snapshot = zeroSnapshot\<rparr>" and
    r: "recomputeLocked now satOrder groundOrder sim0 = Some (sim, Inr snap)"
    by (auto simp: NewSimulator_def Let_def split: option.splits if_splits sum.splits)
  have "wf_sim sim0"
    using v insertSatellites_nonempty [OF s] insertGroundStations_nonempty [OF g]
    by (auto simp: wf_sim_def sim0)
  then show ?thesis using r by (rule recomputeLocked_wf)
qed

lemma run_operation_wf:
  assumes "wf_sim s" "run_operation now satOrder groundOrder s op = Some (s', r)"
  shows "wf_sim s' \<and> (\<forall>err. r = Inl err \<longrightarrow> s' = s \<and> err = ErrUnknownSatellite)"
proof (cases op)
  case (OpDisable sid)
  show ?thesis
  proof (cases "s_satellites s sid")
    case None
    with OpDisable assms show ?thesis by (auto simp: DisableSatellite_def)
  next
    case (Some sat)
    let ?s = "s\<lparr>s_satellites := (s_satellites s)(sid \<mapsto> sat\<lparr>Active := False\<rparr>)\<rparr>"
    from assms(1) Some have w: "wf_sim ?s" by (auto simp: wf_sim_def)
    from OpDisable Some assms(2) have "recomputeLocked now satOrder groundOrder ?s = Some (s', r)"
      by (simp add: DisableSatellite_def)
    with recomputeLocked_wf [OF w this] recomputeLocked_never_fails [OF w]
    show ?thesis by auto
  qed
next
  case (OpRemove sid)
  show ?thesis
  proof (cases "s_satellites s sid")
    case None
    with OpRemove assms show ?thesis by (auto simp: RemoveSatellite_def)
  next
    case (Some sat)
    let ?s = "s\<lparr>s_satellites := (s_satellites s)(sid := None)\<rparr>"
    from assms(1) have w: "wf_sim ?s" by (auto simp: wf_sim_def)
    from OpRemove Some assms(2) have "recomputeLocked now satOrder groundOrder ?s = Some (s', r)"
      by (simp add: RemoveSatellite_def)
    with recomputeLocked_wf [OF w this] recomputeLocked_never_fails [OF w]
    show ?thesis by auto
  qed
next
  case OpRecompute
  with assms(2) have "recomputeLocked now satOrder groundOrder s = Some (s', r)"
    by (simp add: Recompute_def)
  with recomputeLocked_wf [OF assms(1) this] recomputeLocked_never_fails [OF assms(1)]
  show ?thesis by auto
qed


lemma Validate_ex: "Validate \<lparr>LatStep = Fin 180, LonStep = Fin 360\<rparr> = None"
  by (simp add: Validate_def fle_def fgt_def flt_def)

lemma NewCoverageGrid_ex:
  "NewCoverageGrid \<lparr>LatStep = Fin 180, LonStep = Fin 360\<rparr>
   = Some (Inr \<lparr>GridCfg = \<lparr>LatStep = Fin 180, LonStep = Fin 360\<rparr>,
                 cells = [\<lparr>Lat = Fin 0, Lon = Fin 0, CoverageCount = 0, StrongestLink = Fin 0\<rparr>]\<rparr>)"
proof -
  have 1: "lonLoop (Fin 360) (Fin 0) (Fin 0) []
           = Some [\<lparr>Lat = Fin 0, Lon = Fin 0, CoverageCount = 0, StrongestLink = Fin 0\<rparr>]"
    by (subst lonLoop.simps, simp add: flt_def, subst lonLoop.simps, simp add: flt_def)
  have 2: "latLoop (Fin 180) (Fin 360) (Fin 0) []
           = Some [\<lparr>Lat = Fin 0, Lon = Fin 0, CoverageCount = 0, StrongestLink = Fin 0\<rparr>]"
    by (subst latLoop.simps, simp add: flt_def 1, subst latLoop.simps, simp add: flt_def)
  show ?thesis
    by (simp add: NewCoverageGrid_def Validate_ex 2)
qed
section \<open>Latency and throughput of a link\<close>

lemma fsub_Fin_not_NaN [simp]: "fsub (Fin x) (Fin y) \<noteq> NaN"
  by (simp add: fsub_def fneg_def)

lemma nn_fmul_self: "a \<noteq> NaN \<Longrightarrow> nn (fmul a a)"
  by (cases a) (simp_all add: nn_rnd)

lemma nn_dot_self:
  assumes "X v \<noteq> NaN" "Y v \<noteq> NaN" "Z v \<noteq> NaN"
  shows "nn (dot v v)"
  unfolding dot_def using assms by (intro nn_fadd nn_fmul_self)

lemma nn_fsqrt: "nn a \<Longrightarrow> nn (fsqrt a)"
  by (cases a) (simp_all add: nn_rnd)

lemma nn_SlantRange:
  assumes "finite_vec a" "finite_vec b"
  shows "nn (SlantRange a b)"
proof -
  from assms obtain x y z x' y' z' where
    "a = \<lparr>X = Fin x, Y = Fin y, Z = Fin z\<rparr>" "b = \<lparr>X = Fin x', Y = Fin y', Z = Fin z'\<rparr>"
    by (auto simp: finite_vec_def)
  then show ?thesis
    unfolding SlantRange_def norm_v_def
    by (intro nn_fsqrt nn_dot_self) (simp_all add: sub_def)
qed

lemma nn_fdiv_pos: "nn a \<Longrightarrow> 0 < c \<Longrightarrow> nn (fdiv a (Fin c))"
  by (cases a) (simp_all add: nn_rnd inf_of_sign_def)

lemma nn_fmul_pos: "nn a \<Longrightarrow> 0 < c \<Longrightarrow> nn (fmul a (Fin c))"
  by (cases a) (simp_all add: nn_rnd inf_of_sign_def)

lemma SpeedOfLightKMPerS_value: "SpeedOfLightKMPerS = Fin (2575197605394907 / 8589934592)"
  by (simp add: SpeedOfLightKMPerS_def float_eval)

lemma nn_latency:
  assumes "nn d"
  shows "nn (fmul (fdiv d SpeedOfLightKMPerS) (Fin 1000))"
  unfolding SpeedOfLightKMPerS_value using assms by (intro nn_fmul_pos nn_fdiv_pos) simp_all

lemma LatencyMS_mkEdge:
  "LatencyMS (mkEdge a b) = fmul (fdiv (SlantRange (Position a) (Position b)) SpeedOfLightKMPerS) (Fin 1000)"
  by (simp add: mkEdge_def Let_def)

lemma Throughput_mkEdge:
  "Throughput (mkEdge a b) = fdiv (Fin 1) (fadd (Fin 1) (LatencyMS (mkEdge a b)))"
  by (simp add: mkEdge_def Let_def)

lemma nn_LatencyMS_mkEdge:
  "finite_vec (Position a) \<Longrightarrow> finite_vec (Position b) \<Longrightarrow> nn (LatencyMS (mkEdge a b))"
  unfolding LatencyMS_mkEdge by (intro nn_latency nn_SlantRange)

lemma dbl_Fin1 [simp]: "dbl (Fin 1)"
  by (simp add: dbl_def)

lemma one_plus_ge: "nn l \<Longrightarrow> Fin 1 \<le> fadd (Fin 1) l \<and> nn (fadd (Fin 1) l)"
  using fadd_ge_left [of "Fin 1" l] nn_fadd [of "Fin 1" l] by simp

lemma fdiv_one_bounds:
  assumes "Fin 1 \<le> y" "y \<noteq> NaN"
  shows "nn (fdiv (Fin 1) y) \<and> fdiv (Fin 1) y \<le> Fin 1"
proof (cases y)
  case (Fin v)
  with assms have v: "1 \<le> v" by simp
  then have a: "1 / v \<le> 1" and b: "0 \<le> 1 / v" by simp_all
  from rnd_mono [OF a] have "rnd (1 / v) \<le> Fin 1" by simp
  moreover from b have "nn (rnd (1 / v))" by (rule nn_rnd)
  moreover have "fdiv (Fin 1) y = rnd (1 / v)" using Fin v by simp
  ultimately show ?thesis by simp
qed (use assms in simp_all)

lemma fdiv_one_antimono:
  assumes "Fin 1 \<le> y" "y \<le> y'" "y' \<noteq> NaN"
  shows "fdiv (Fin 1) y' \<le> fdiv (Fin 1) y"
proof (cases y)
  case y: (Fin v)
  with assms have v: "1 \<le> v" by simp
  show ?thesis
  proof (cases y')
    case (Fin v')
    with y assms have "v \<le> v'" by simp
    with v have "1 / v' \<le> 1 / v" by (simp add: frac_le)
    then have "rnd (1 / v') \<le> rnd (1 / v)" by (rule rnd_mono)
    with y Fin v \<open>v \<le> v'\<close> show ?thesis by simp
  next
    case PosInf
    have "nn (rnd (1 / v))" using v by (intro nn_rnd) simp
    with y PosInf v show ?thesis by (simp add: nn_iff)
  qed (use assms y in simp_all)
next
  case PosInf
  with assms have "y' = PosInf" by (cases y') simp_all
  with PosInf show ?thesis by simp
qed (use assms in simp_all)

lemma is_double_le_max:
  assumes "is_double v"
  shows "v \<le> (2 ^ 53 - 1) * 2 ^ 971"
proof -
  from assms obtain m e where v: "v = of_int m * pow2 e" and m: "\<bar>m\<bar> < 2 ^ 53" and e: "e \<le> 971"
    by (auto simp: is_double_def)
  show ?thesis
  proof (cases "0 \<le> m")
    case True
    from m have "m \<le> 2 ^ 53 - 1" by simp
    then have "(of_int m :: real) \<le> of_int (2 ^ 53 - 1)" by (simp only: of_int_le_iff)
    then have "(of_int m :: real) \<le> 2 ^ 53 - 1" by simp
    moreover have "pow2 e \<le> pow2 971" using e by (rule pow2_mono)
    ultimately have "of_int m * pow2 e \<le> (2 ^ 53 - 1) * pow2 971"
      using True by (intro mult_mono) simp_all
    with v show ?thesis by simp
  next
    case False
    then have "(of_int m :: real) \<le> 0" by simp
    then have "of_int m * pow2 e \<le> 0" by (simp add: mult_le_0_iff)
    with v show ?thesis by simp
  qed
qed

lemma rnd_above_max: "rnd ((2 ^ 53 - 1) * 2 ^ 971 + 1) = Fin ((2 ^ 53 - 1) * 2 ^ 971)"
  by (rule rnd_eqI [where k = 1023 and m = "2 ^ 53 - 1"]) (simp_all add: rhe_def Let_def huge_def)

lemma one_plus_finite: "is_double v \<Longrightarrow> fadd (Fin 1) (Fin v) \<noteq> PosInf"
proof -
  assume "is_double v"
  then have "1 + v \<le> (2 ^ 53 - 1) * 2 ^ 971 + 1" using is_double_le_max [of v] by simp
  then have "rnd (1 + v) \<le> rnd ((2 ^ 53 - 1) * 2 ^ 971 + 1)" by (rule rnd_mono)
  then have "rnd (1 + v) \<le> Fin ((2 ^ 53 - 1) * 2 ^ 971)" by (simp only: rnd_above_max)
  then have "rnd (1 + v) \<noteq> PosInf" by (metis float64_le_simps(5))
  then show ?thesis by simp
qed

lemma rnd_tiny: "rnd (pow2 (- 1074)) = Fin (pow2 (- 1074))"
proof (rule rnd_double)
  have "pow2 (- 1074) = of_int 1 * pow2 (- 1074)" by simp
  then show "is_double (pow2 (- 1074))" unfolding is_double_def
    by (intro exI [of _ 1] exI [of _ "- 1074"]) simp
qed

lemma fdiv_one_pos:
  assumes "is_double v" "1 \<le> v"
  shows "Fin 0 < fdiv (Fin 1) (Fin v)"
proof -
  have "v < huge" using is_double_bound [OF assms(1)] by linarith
  then have "1 / huge < 1 / v" using assms(2) by (intro divide_strict_left_mono) simp_all
  moreover have "pow2 (- 1074) \<le> 1 / huge" by (simp add: huge_def)
  ultimately have "pow2 (- 1074) \<le> 1 / v" by linarith
  then have "rnd (pow2 (- 1074)) \<le> rnd (1 / v)" by (rule rnd_mono)
  then have "Fin (pow2 (- 1074)) \<le> rnd (1 / v)" by (simp only: rnd_tiny)
  moreover have "Fin 0 < Fin (pow2 (- 1074))" by (simp del: pow2_neg_numeral)
  ultimately have "Fin 0 < rnd (1 / v)" by (rule less_le_trans [rotated])
  moreover have "fdiv (Fin 1) (Fin v) = rnd (1 / v)" using assms(2) by simp
  ultimately show ?thesis by simp
qed

lemma near_clear:
  "SatelliteToSatelliteVisible (Position near_a) (Position near_b)"
  "SatelliteToSatelliteVisible (Position near_a) (Position near_c)"
  "SatelliteToSatelliteVisible (Position near_b) (Position near_c)"
  by (simp_all add: SatelliteToSatelliteVisible_def segmentIntersectsEarth_def near_a_def near_b_def
      near_c_def sub_def dot_def fsub_def fneg_def Let_def EarthRadius_def epsilon_def
      one_minus_epsilon_def flt_def fgt_def float_eval)

lemma far_clear: "SatelliteToSatelliteVisible (Position far_a) (Position far_b)"
  by (simp add: SatelliteToSatelliteVisible_def segmentIntersectsEarth_def far_a_def far_b_def
      sub_def dot_def fsub_def fneg_def Let_def EarthRadius_def epsilon_def
      one_minus_epsilon_def flt_def fgt_def inf_of_sign_def float_eval)

lemma BuildGraph_near: "BuildGraph [near_a, near_b, near_c] (Fin 0) = Inr near_graph"
proof -
  have v: "visible_pair (Fin 0) near_a near_b" "visible_pair (Fin 0) near_a near_c"
    "visible_pair (Fin 0) near_b near_c"
    using near_clear by (simp_all add: visible_pair_def near_a_def near_b_def near_c_def)
  have i: "ID near_a = ''a''" "ID near_b = ''b''" "ID near_c = ''c''"
    by (simp_all add: near_a_def near_b_def near_c_def)
  show ?thesis
    unfolding near_graph_def
    by (simp add: BuildGraph_def connect_visible_pair v addEdge_def adjOf_def i)
qed

lemma BuildGraph_far: "BuildGraph [far_a, far_b] (Fin 0) = Inr far_graph"
proof -
  have v: "visible_pair (Fin 0) far_a far_b"
    using far_clear by (simp add: visible_pair_def far_a_def far_b_def)
  have i: "ID far_a = ''a''" "ID far_b = ''b''"
    by (simp_all add: far_a_def far_b_def)
  show ?thesis
    unfolding far_graph_def
    by (simp add: BuildGraph_def connect_visible_pair v addEdge_def adjOf_def i)
qed

lemma near_metrics:
  "LatencyMS (mkEdge near_a near_b) = Fin (1922866092593375 / 9007199254740992)"
  "LatencyMS (mkEdge near_a near_c) = Fin (7691464370373507 / 36028797018963968)"
  "Throughput (mkEdge near_a near_b) = Fin (3711306192437021 / 4503599627370496)"
  "Throughput (mkEdge near_a near_c) = Fin (3711306192437021 / 4503599627370496)"
  by (simp_all add: mkEdge_def SlantRange_def norm_v_def SpeedOfLightKMPerS_def near_a_def near_b_def
      near_c_def sub_def dot_def fsub_def fneg_def Let_def float_eval)

lemma far_metrics:
  "LatencyMS (mkEdge far_a far_b) = PosInf"
  "Throughput (mkEdge far_a far_b) = Fin 0"
  by (simp_all add: mkEdge_def SlantRange_def norm_v_def SpeedOfLightKMPerS_def far_a_def far_b_def
      sub_def dot_def fsub_def fneg_def Let_def inf_of_sign_def float_eval)

lemma ex_metrics:
  "LatencyMS (mkEdge ex_sat ex_ground) = Fin (7511195674192871 / 4503599627370496)"
  "LatencyMS (mkEdge ex_ground ex_sat) = Fin (7511195674192871 / 4503599627370496)"
  "LatencyMS (mkEdge ex_ground ex_sat_far) = Fin (7511195674192871 / 2251799813685248)"
  by (simp_all add: mkEdge_def SlantRange_def norm_v_def SpeedOfLightKMPerS_def ex_sat_def ex_ground_def
      ex_sat_far_def sub_def dot_def fsub_def fneg_def Let_def float_eval)

lemma finite_vec_ex:
  "finite_vec (Position ex_sat)" "finite_vec (Position ex_ground)" "finite_vec (Position ex_sat_far)"
  by (simp_all add: finite_vec_def ex_sat_def ex_ground_def ex_sat_far_def)

section \<open>A satellite straight above a ground point\<close>

lemma Elevation_overhead: "Elevation overhead_ground overhead_sat = NaN"
  by (simp add: Elevation_def overhead_ground_def overhead_sat_def sub_def scale_def dot_def
      norm_v_def fsub_def fneg_def Let_def float_eval)

lemma exact_elevation_overhead: "exact_elevation overhead_ground overhead_sat = pi / 2"
  by (simp add: exact_elevation_def overhead_ground_def overhead_sat_def fval_def float_eval)

lemma overhead_clear: "\<not> segment_meets_ball overhead_ground overhead_sat 6371"
proof
  assume "segment_meets_ball overhead_ground overhead_sat 6371"
  then obtain t where t: "0 \<le> t" "t \<le> 1"
    and le: "(6000 + t * 1200)\<^sup>2 + (2500 + t * 500)\<^sup>2 \<le> (6371::real)\<^sup>2"
    by (auto simp: segment_meets_ball_def overhead_ground_def overhead_sat_def fval_def)
  have "(6000::real)\<^sup>2 \<le> (6000 + t * 1200)\<^sup>2" using t by (intro power_mono) simp_all
  moreover have "(2500::real)\<^sup>2 \<le> (2500 + t * 500)\<^sup>2" using t by (intro power_mono) simp_all
  ultimately show False using le by simp
qed

section \<open>The heuristic\<close>

lemma Heuristic_unknown: "Nodes g u = None \<or> Nodes g t = None \<Longrightarrow> Heuristic g u t = Fin 0"
  by (auto simp: Heuristic_def split: option.splits)

lemma Heuristic_known:
  "Nodes g u = Some a \<Longrightarrow> Nodes g t = Some b \<Longrightarrow> Heuristic g u t = LatencyMS (mkEdge a b)"
  by (simp add: Heuristic_def LatencyMS_mkEdge Let_def)

lemma fsub_self [simp]: "fsub (Fin x) (Fin x) = Fin 0"
  by (simp add: fsub_def fneg_def)

lemma LatencyMS_mkEdge_self:
  assumes "finite_vec (Position a)"
  shows "LatencyMS (mkEdge a a) = Fin 0"
proof -
  from assms obtain x y z where "Position a = \<lparr>X = Fin x, Y = Fin y, Z = Fin z\<rparr>"
    by (auto simp: finite_vec_def)
  then show ?thesis
    by (simp add: LatencyMS_mkEdge SlantRange_def norm_v_def sub_def dot_def SpeedOfLightKMPerS_value)
qed

lemma adjOf_mem: "e \<in> set (adjOf adj k) \<longleftrightarrow> (\<exists>es. adj k = Some es \<and> e \<in> set es)"
  by (cases "adj k") (auto simp: adjOf_def)

lemma keyed_adjOf: "keyed adj \<Longrightarrow> e \<in> set (adjOf adj k) \<Longrightarrow> From e = k"
  by (auto simp: keyed_def adjOf_mem)

lemma keyed_addEdge:
  assumes "keyed adj"
  shows "keyed (addEdge a b adj)"
  unfolding keyed_def
proof (intro allI impI)
  fix k es e
  assume k: "addEdge a b adj k = Some es" and e: "e \<in> set es"
  show "From e = k"
  proof (cases "k = ID a")
    case True
    with k e have "e \<in> set (adjOf adj (ID a)) \<or> e = mkEdge a b"
      by (auto simp: addEdge_def)
    with True show ?thesis
      using keyed_adjOf [OF assms] by auto
  next
    case False
    with k have "adj k = Some es" by (simp add: addEdge_def)
    with assms e show ?thesis by (auto simp: keyed_def)
  qed
qed

lemma keyed_connect: "keyed adj \<Longrightarrow> keyed (connect m a b adj)"
  by (simp add: connect_visible_pair keyed_addEdge)

lemma keyed_fold_connect: "keyed adj \<Longrightarrow> keyed (fold (connect m a) rest adj)"
  by (induction rest arbitrary: adj) (simp_all add: keyed_connect)

lemma keyed_linkAll: "keyed adj \<Longrightarrow> keyed (linkAll m ns adj)"
  by (induction ns arbitrary: adj) (simp_all add: keyed_fold_connect)

lemma BuildGraph_keyed: "BuildGraph nodes m = Inr g \<Longrightarrow> keyed (Adj g)"
proof -
  assume "BuildGraph nodes m = Inr g"
  then have "Adj g = linkAll m nodes Map.empty"
    by (auto simp: BuildGraph_def split: sum.splits)
  moreover have "keyed Map.empty" by (simp add: keyed_def)
  ultimately show ?thesis by (simp add: keyed_linkAll)
qed

lemma find_adjOf:
  assumes "find (\<lambda>e. To e = v) (adjOf (Adj g) u) = Some e" "keyed (Adj g)"
  shows "e \<in> edges_of g \<and> From e = u \<and> To e = v"
proof -
  from assms(1) have m: "e \<in> set (adjOf (Adj g) u)" and v: "To e = v"
    by (auto simp: find_Some_iff)
  from m obtain es where es: "Adj g u = Some es" "e \<in> set es"
    by (auto simp: adjOf_mem)
  with assms(2) have "From e = u" by (auto simp: keyed_def)
  with es v show ?thesis by (auto intro: edges_ofI)
qed

lemma Heuristic_edge:
  assumes "BuildGraph nodes m = Inr g" "distinct (map ID nodes)" "e \<in> edges_of g"
  shows "Heuristic g (From e) (To e) = LatencyMS e"
proof -
  from BuildGraph_edges [OF assms(1,3)]
  obtain a b where ab: "a \<in> set nodes" "b \<in> set nodes" "e = mkEdge a b \<or> e = mkEdge b a"
    by blast
  have na: "Nodes g (ID a) = Some a" and nb: "Nodes g (ID b) = Some b"
    using BuildGraph_Nodes_lookup [OF assms(1,2)] ab by auto
  from ab(3) show ?thesis
    using Heuristic_known [OF na nb] Heuristic_known [OF nb na] by auto
qed

lemma BuildGraph_Nodes_mem:
  assumes "BuildGraph nodes m = Inr g" "Nodes g k = Some n"
  shows "n \<in> set nodes"
proof -
  from assms(1) obtain nm where "insertNodes nodes Map.empty = Inr nm" "Nodes g = nm"
    by (auto simp: BuildGraph_def split: sum.splits)
  with insertNodes_dom [OF this(1), of k n] assms(2) show ?thesis by simp
qed

lemma Heuristic_finite:
  assumes "BuildGraph nodes m = Inr g" "\<forall>n \<in> set nodes. finite_vec (Position n)"
  shows "nn (Heuristic g u t)" and "Heuristic g t t = Fin 0"
proof -
  show "nn (Heuristic g u t)"
  proof (cases "Nodes g u")
    case None
    then show ?thesis by (simp add: Heuristic_unknown)
  next
    case a: (Some a)
    show ?thesis
    proof (cases "Nodes g t")
      case None
      then show ?thesis by (simp add: Heuristic_unknown)
    next
      case (Some b)
      from BuildGraph_Nodes_mem [OF assms(1) a] BuildGraph_Nodes_mem [OF assms(1) Some] assms(2)
      have "finite_vec (Position a)" "finite_vec (Position b)" by auto
      then show ?thesis by (simp add: Heuristic_known [OF a Some] nn_LatencyMS_mkEdge)
    qed
  qed
  show "Heuristic g t t = Fin 0"
  proof (cases "Nodes g t")
    case None
    then show ?thesis by (simp add: Heuristic_unknown)
  next
    case (Some b)
    from BuildGraph_Nodes_mem [OF assms(1) Some] assms(2) have "finite_vec (Position b)" by auto
    then show ?thesis by (simp add: Heuristic_known [OF Some Some] LatencyMS_mkEdge_self)
  qed
qed

lemma dbl_LatencyMS_mkEdge [simp]: "dbl (LatencyMS (mkEdge a b))"
  by (simp add: LatencyMS_mkEdge)

lemma one_link_metrics:
  assumes "BuildGraph nodes m = Inr g" "distinct (map ID nodes)"
    and "computePathMetrics g [u, v] = Inr (lat, thr)"
  shows "Heuristic g u v = lat"
proof -
  from assms(3) obtain e where f: "find (\<lambda>e. To e = v) (adjOf (Adj g) u) = Some e"
    and l: "lat = fadd (Fin 0) (LatencyMS e)"
    by (auto simp: computePathMetrics_def split: option.splits)
  from find_adjOf [OF f BuildGraph_keyed [OF assms(1)]]
  have e: "e \<in> edges_of g" "From e = u" "To e = v" by simp_all
  from BuildGraph_edges [OF assms(1) e(1)] have "dbl (LatencyMS e)" by auto
  with l have "lat = LatencyMS e" by (simp add: fadd_zero_left)
  with Heuristic_edge [OF assms(1,2) e(1)] e show ?thesis by simp
qed

section \<open>The four satellites on a line\<close>

lemma ID_line: "ID line_a = ''a''" "ID line_b = ''b''" "ID line_c = ''c''" "ID line_d = ''d''"
  by (simp_all add: line_a_def line_b_def line_c_def line_d_def)

lemma line_clear:
  "SatelliteToSatelliteVisible (Position line_a) (Position line_b)"
  "SatelliteToSatelliteVisible (Position line_a) (Position line_c)"
  "SatelliteToSatelliteVisible (Position line_a) (Position line_d)"
  "SatelliteToSatelliteVisible (Position line_b) (Position line_c)"
  "SatelliteToSatelliteVisible (Position line_b) (Position line_d)"
  "SatelliteToSatelliteVisible (Position line_c) (Position line_d)"
  by (simp_all add: SatelliteToSatelliteVisible_def segmentIntersectsEarth_def line_a_def line_b_def
      line_c_def line_d_def sub_def dot_def fsub_def fneg_def Let_def EarthRadius_def epsilon_def
      one_minus_epsilon_def flt_def fgt_def float_eval)

lemma BuildGraph_line: "BuildGraph [line_a, line_b, line_c, line_d] (Fin 0) = Inr line_graph"
proof -
  have v: "visible_pair (Fin 0) line_a line_b" "visible_pair (Fin 0) line_a line_c"
    "visible_pair (Fin 0) line_a line_d" "visible_pair (Fin 0) line_b line_c"
    "visible_pair (Fin 0) line_b line_d" "visible_pair (Fin 0) line_c line_d"
    using line_clear by (simp_all add: visible_pair_def line_a_def line_b_def line_c_def line_d_def)
  show ?thesis
    unfolding line_graph_def
    by (simp add: BuildGraph_def connect_visible_pair v addEdge_def adjOf_def ID_line)
qed

lemma line_latency:
  "LatencyMS (mkEdge line_a line_b) = Fin (6008956539354297 / 18014398509481984)"
  "LatencyMS (mkEdge line_a line_c) = Fin (1783908972620807 / 562949953421312)"
  "LatencyMS (mkEdge line_a line_d) = Fin (6196736431209119 / 1125899906842624)"
  "LatencyMS (mkEdge line_b line_c) = Fin (1596129080765985 / 562949953421312)"
  "LatencyMS (mkEdge line_b line_d) = Fin (1455294161874869 / 281474976710656)"
  "LatencyMS (mkEdge line_c line_d) = Fin (2628918485967505 / 1125899906842624)"
  "LatencyMS (mkEdge line_b line_a) = Fin (6008956539354297 / 18014398509481984)"
  "LatencyMS (mkEdge line_c line_a) = Fin (1783908972620807 / 562949953421312)"
  "LatencyMS (mkEdge line_d line_a) = Fin (6196736431209119 / 1125899906842624)"
  "LatencyMS (mkEdge line_c line_b) = Fin (1596129080765985 / 562949953421312)"
  "LatencyMS (mkEdge line_d line_b) = Fin (1455294161874869 / 281474976710656)"
  "LatencyMS (mkEdge line_d line_c) = Fin (2628918485967505 / 1125899906842624)"
  by (simp_all add: mkEdge_def SlantRange_def norm_v_def SpeedOfLightKMPerS_def line_a_def line_b_def
      line_c_def line_d_def sub_def dot_def fsub_def fneg_def Let_def float_eval)

lemma line_throughput:
  "Throughput (mkEdge line_a line_b) = Fin (6754230476940539 / 9007199254740992)"
  "Throughput (mkEdge line_a line_c) = Fin (2160591054130501 / 9007199254740992)"
  "Throughput (mkEdge line_a line_d) = Fin (173113963565409 / 1125899906842624)"
  "Throughput (mkEdge line_b line_c) = Fin (4697004899426067 / 18014398509481984)"
  "Throughput (mkEdge line_b line_d) = Fin (5839120799949915 / 36028797018963968)"
  "Throughput (mkEdge line_c line_d) = Fin (84401592008789 / 281474976710656)"
  by (simp_all add: mkEdge_def SlantRange_def norm_v_def SpeedOfLightKMPerS_def line_a_def line_b_def
      line_c_def line_d_def sub_def dot_def fsub_def fneg_def Let_def float_eval)

lemma line_Heuristic:
  "Heuristic line_graph ''a'' ''c'' = Fin (1783908972620807 / 562949953421312)"
  "Heuristic line_graph ''b'' ''c'' = Fin (1596129080765985 / 562949953421312)"
  "Heuristic line_graph ''a'' ''d'' = Fin (6196736431209119 / 1125899906842624)"
  "Heuristic line_graph ''b'' ''d'' = Fin (1455294161874869 / 281474976710656)"
  "Heuristic line_graph ''c'' ''d'' = Fin (2628918485967505 / 1125899906842624)"
  "Heuristic line_graph ''d'' ''d'' = Fin 0"
  by (simp_all add: Heuristic_def line_graph_def SlantRange_def norm_v_def SpeedOfLightKMPerS_def
      line_a_def line_b_def line_c_def line_d_def sub_def dot_def fsub_def fneg_def Let_def float_eval)

lemma line_path_abc:
  "computePathMetrics line_graph [''a'', ''b'', ''c'']
   = Inr (Fin (7135635890483227 / 2251799813685248), Throughput (mkEdge line_b line_c))"
  by (simp add: computePathMetrics_def line_graph_def adjOf_def ID_line line_latency line_throughput
      flt_def float_eval)

lemma line_path_abcd:
  "computePathMetrics line_graph [''a'', ''b'', ''c'', ''d'']
   = Inr (Fin (3098368215604559 / 562949953421312), Throughput (mkEdge line_b line_c))"
  by (simp add: computePathMetrics_def line_graph_def adjOf_def ID_line line_latency line_throughput
      flt_def float_eval)

lemma ID_ex: "ID ex_sat = ''x''" "ID ex_ground = ''g''" "ID ex_ground_x = ''x''" "ID ex_sat_far = ''y''"
  by (simp_all add: ex_sat_def ex_ground_def ex_ground_x_def ex_sat_far_def)

lemma computePathMetrics_ex:
  "computePathMetrics
     \<lparr>Nodes = nm, Adj = [''x'' \<mapsto> [mkEdge ex_sat ex_ground], ''g'' \<mapsto> [mkEdge ex_ground ex_sat]]\<rparr>
     [''x'', ''g'']
   = Inr (LatencyMS (mkEdge ex_sat ex_ground), Throughput (mkEdge ex_sat ex_ground))"
proof -
  have "dbl (LatencyMS (mkEdge ex_sat ex_ground))" by (rule dbl_LatencyMS_mkEdge)
  then have "fadd (Fin 0) (LatencyMS (mkEdge ex_sat ex_ground)) = LatencyMS (mkEdge ex_sat ex_ground)"
    by (simp add: fadd_zero_left)
  moreover have "flt (Throughput (mkEdge ex_sat ex_ground)) PosInf"
    by (simp add: Throughput_mkEdge ex_metrics flt_def float_eval)
  ultimately show ?thesis
    by (simp add: computePathMetrics_def adjOf_def mkEdge_sel ID_ex)
qed

lemma dup_Heuristic:
  "Heuristic dup_graph ''x'' ''g'' = Fin (1495432113758837 / 35184372088832)"
  by (simp add: Heuristic_def dup_graph_def SlantRange_def norm_v_def SpeedOfLightKMPerS_def
      ex_ground_def ex_ground_x_def sub_def dot_def fsub_def fneg_def Let_def float_eval)
section \<open>Claim C4: which node lists the builder rejects\<close>

text \<open>
  Claim C4, as the code has it. \<^verbatim>\<open>BuildGraph\<close> fails exactly when some node has the empty
  identity, and then with the empty-identity error; a list with a repeated identity and no
  empty one is accepted (the later entry replaces the earlier one in the node map).
\<close>

theorem BuildGraph_fails_iff_empty_ID:
  "(isl (BuildGraph nodes elevationMask) \<longleftrightarrow> (\<exists>n \<in> set nodes. ID n = []))
   \<and> (isl (BuildGraph nodes elevationMask) \<longleftrightarrow> BuildGraph nodes elevationMask = Inl ErrNodeIDEmpty)"
proof -
  have a: "isl (BuildGraph nodes elevationMask) \<longleftrightarrow> (\<exists>n \<in> set nodes. ID n = [])"
    using insertNodes_isl [of nodes Map.empty]
    by (auto simp: BuildGraph_def split: sum.splits)
  have b: "isl (BuildGraph nodes elevationMask) \<longleftrightarrow> BuildGraph nodes elevationMask = Inl ErrNodeIDEmpty"
    using insertNodes_Inl [of nodes Map.empty]
    by (auto simp: BuildGraph_def split: sum.splits)
  from a b show ?thesis by blast
qed

theorem BuildGraph_fails_iff_empty_ID_witness:
  "BuildGraph [\<lparr>ID = ''g'', Type = Ground, Position = \<lparr>X = Fin 6371, Y = Fin 0, Z = Fin 0\<rparr>\<rparr>,
               \<lparr>ID = [], Type = Satellite, Position = \<lparr>X = Fin 7000, Y = Fin 0, Z = Fin 0\<rparr>\<rparr>] (Fin 0)
   = Inl ErrNodeIDEmpty"
proof -
  let ?ns = "[\<lparr>ID = ''g'', Type = Ground, Position = \<lparr>X = Fin 6371, Y = Fin 0, Z = Fin 0\<rparr>\<rparr>,
              \<lparr>ID = [], Type = Satellite, Position = \<lparr>X = Fin 7000, Y = Fin 0, Z = Fin 0\<rparr>\<rparr>]"
  have "\<exists>n \<in> set ?ns. ID n = []" by simp
  then show ?thesis
    using BuildGraph_fails_iff_empty_ID [of ?ns "Fin 0"] by blast
qed

text \<open>
  Two ground nodes with the same identity: the claim asks for an error, the code returns a
  graph whose node map holds the second entry.
\<close>

theorem BuildGraph_duplicate_ID_accepted:
  "BuildGraph [\<lparr>ID = ''a'', Type = Ground, Position = \<lparr>X = Fin 6371, Y = Fin 0, Z = Fin 0\<rparr>\<rparr>,
               \<lparr>ID = ''a'', Type = Ground, Position = \<lparr>X = Fin 0, Y = Fin 6371, Z = Fin 0\<rparr>\<rparr>] (Fin 0)
   = Inr \<lparr>Nodes = [''a'' \<mapsto> \<lparr>ID = ''a'', Type = Ground, Position = \<lparr>X = Fin 0, Y = Fin 6371, Z = Fin 0\<rparr>\<rparr>],
          Adj = Map.empty\<rparr>"
  by (simp add: BuildGraph_def connect_def Ground_def Satellite_def)

section \<open>Claim C9: no link between two ground nodes\<close>

text \<open>
  Claim C9, as the code has it. For every node list that \<^verbatim>\<open>BuildGraph\<close> accepts and whose
  identities are pairwise distinct, the graph has no link whose from-node and to-node are
  both ground nodes, and this stays true after any sequence of \<^verbatim>\<open>RemoveEdge\<close> and
  \<^verbatim>\<open>RemoveNode\<close> operations.
\<close>

theorem no_ground_ground_link:
  assumes "BuildGraph nodes elevationMask = Inr g"
    and "distinct (map ID nodes)"
    and "e \<in> edges_of (fold apply_edit eds g)"
  shows "\<not> ground_ground_link (fold apply_edit eds g) e"
proof
  assume gg: "ground_ground_link (fold apply_edit eds g) e"
  from apply_edits_shrink [of eds g] assms(3)
  have e: "e \<in> edges_of g" and le: "Nodes (fold apply_edit eds g) \<subseteq>\<^sub>m Nodes g"
    by auto
  from gg le have "ground_ground_link g e"
    by (auto simp: ground_ground_link_def intro: ground_node_mono)
  with BuildGraph_no_ground_ground [OF assms(1,2) e] show False by simp
qed

text \<open>The theorem at the two-node graph, after removing one link and an absent node.\<close>

theorem no_ground_ground_link_witness:
  "\<not> ground_ground_link
       (fold apply_edit [DelEdge ''g'' ''x'', DelNode ''y'']
          \<lparr>Nodes = [''x'' \<mapsto> ex_sat, ''g'' \<mapsto> ex_ground],
           Adj = [''x'' \<mapsto> [mkEdge ex_sat ex_ground], ''g'' \<mapsto> [mkEdge ex_ground ex_sat]]\<rparr>)
       (mkEdge ex_sat ex_ground)"
proof -
  let ?g = "\<lparr>Nodes = [''x'' \<mapsto> ex_sat, ''g'' \<mapsto> ex_ground],
           Adj = [''x'' \<mapsto> [mkEdge ex_sat ex_ground], ''g'' \<mapsto> [mkEdge ex_ground ex_sat]]\<rparr>"
  have d: "distinct (map ID [ex_sat, ex_ground])"
    by (simp add: ex_sat_def ex_ground_def)
  have "Adj (fold apply_edit [DelEdge ''g'' ''x'', DelNode ''y''] ?g) ''x'' = Some [mkEdge ex_sat ex_ground]"
    by (simp add: RemoveEdge_def RemoveNode_def adjOf_def ex_sat_def ex_ground_def)
  moreover have "mkEdge ex_sat ex_ground \<in> set [mkEdge ex_sat ex_ground]" by simp
  ultimately have m: "mkEdge ex_sat ex_ground \<in> edges_of (fold apply_edit [DelEdge ''g'' ''x'', DelNode ''y''] ?g)"
    unfolding edges_of_def by blast
  show ?thesis
    by (rule no_ground_ground_link [OF BuildGraph_ex d m])
qed

text \<open>
  Without distinct identities the claim fails: \<^verbatim>\<open>BuildGraph\<close> accepts a list in which a
  ground node reuses the identity of a satellite. The link made for the satellite then
  joins two identities that the node map both holds as ground nodes.
\<close>

theorem ground_ground_link_with_duplicate_ID:
  "BuildGraph [ex_sat, ex_ground, ex_ground_x] (Fin 0) =
     Inr \<lparr>Nodes = [''x'' \<mapsto> ex_ground_x, ''g'' \<mapsto> ex_ground],
          Adj = [''x'' \<mapsto> [mkEdge ex_sat ex_ground], ''g'' \<mapsto> [mkEdge ex_ground ex_sat]]\<rparr>
   \<and> mkEdge ex_sat ex_ground
       \<in> edges_of \<lparr>Nodes = [''x'' \<mapsto> ex_ground_x, ''g'' \<mapsto> ex_ground],
                   Adj = [''x'' \<mapsto> [mkEdge ex_sat ex_ground], ''g'' \<mapsto> [mkEdge ex_ground ex_sat]]\<rparr>
   \<and> ground_ground_link
        \<lparr>Nodes = [''x'' \<mapsto> ex_ground_x, ''g'' \<mapsto> ex_ground],
         Adj = [''x'' \<mapsto> [mkEdge ex_sat ex_ground], ''g'' \<mapsto> [mkEdge ex_ground ex_sat]]\<rparr>
        (mkEdge ex_sat ex_ground)"
proof (intro conjI)
  show "BuildGraph [ex_sat, ex_ground, ex_ground_x] (Fin 0) =
     Inr \<lparr>Nodes = [''x'' \<mapsto> ex_ground_x, ''g'' \<mapsto> ex_ground],
          Adj = [''x'' \<mapsto> [mkEdge ex_sat ex_ground], ''g'' \<mapsto> [mkEdge ex_ground ex_sat]]\<rparr>"
    by (rule BuildGraph_ex_dup)
  have "Adj \<lparr>Nodes = [''x'' \<mapsto> ex_ground_x, ''g'' \<mapsto> ex_ground],
                   Adj = [''x'' \<mapsto> [mkEdge ex_sat ex_ground], ''g'' \<mapsto> [mkEdge ex_ground ex_sat]]\<rparr> ''x''
        = Some [mkEdge ex_sat ex_ground]" by simp
  moreover have "mkEdge ex_sat ex_ground \<in> set [mkEdge ex_sat ex_ground]" by simp
  ultimately show "mkEdge ex_sat ex_ground
       \<in> edges_of \<lparr>Nodes = [''x'' \<mapsto> ex_ground_x, ''g'' \<mapsto> ex_ground],
                   Adj = [''x'' \<mapsto> [mkEdge ex_sat ex_ground], ''g'' \<mapsto> [mkEdge ex_ground ex_sat]]\<rparr>"
    unfolding edges_of_def by blast
  show "ground_ground_link
        \<lparr>Nodes = [''x'' \<mapsto> ex_ground_x, ''g'' \<mapsto> ex_ground],
         Adj = [''x'' \<mapsto> [mkEdge ex_sat ex_ground], ''g'' \<mapsto> [mkEdge ex_ground ex_sat]]\<rparr>
        (mkEdge ex_sat ex_ground)"
    by (simp add: ground_ground_link_def ground_node_def ex_sat_def ex_ground_def ex_ground_x_def)
qed

section \<open>Claim C10: latency and throughput of a link\<close>

text \<open>
  Claim C10, as the code has it. For node lists whose positions have finite coordinates,
  every link that \<^verbatim>\<open>BuildGraph\<close> creates has a latency that is at least 0 (it is \<open>+Inf\<close> when
  the distance overflows) and a throughput in \<open>[0, 1]\<close>, computed as \<open>1 / (1 + latency)\<close> in
  \<^verbatim>\<open>float64\<close>; the throughput is 0 exactly when the latency is \<open>+Inf\<close>; and of any two
  created links, the one with the greater or equal latency has the smaller or equal
  throughput.
\<close>

theorem link_metrics:
  assumes "BuildGraph nodes elevationMask = Inr g" and "e \<in> edges_of g"
    and "BuildGraph nodes' elevationMask' = Inr g'" and "e' \<in> edges_of g'"
    and "\<forall>n \<in> set nodes. finite_vec (Position n)"
    and "\<forall>n \<in> set nodes'. finite_vec (Position n)"
  shows "fle (Fin 0) (LatencyMS e)
         \<and> Throughput e = fdiv (Fin 1) (fadd (Fin 1) (LatencyMS e))
         \<and> fle (Fin 0) (Throughput e) \<and> fle (Throughput e) (Fin 1)
         \<and> (Throughput e = Fin 0 \<longleftrightarrow> LatencyMS e = PosInf)
         \<and> (fle (LatencyMS e) (LatencyMS e') \<longrightarrow> fle (Throughput e') (Throughput e))"
proof -
  from BuildGraph_edges [OF assms(1,2)] assms(5) obtain a b where
    e: "e = mkEdge a b" and "finite_vec (Position a)" "finite_vec (Position b)" by blast
  then have l: "nn (LatencyMS e)" by (simp add: nn_LatencyMS_mkEdge)
  have t: "Throughput e = fdiv (Fin 1) (fadd (Fin 1) (LatencyMS e))"
    by (simp add: e Throughput_mkEdge)
  from BuildGraph_edges [OF assms(3,4)] assms(6) obtain a' b' where
    e': "e' = mkEdge a' b'" and "finite_vec (Position a')" "finite_vec (Position b')" by blast
  then have l': "nn (LatencyMS e')" by (simp add: nn_LatencyMS_mkEdge)
  have t': "Throughput e' = fdiv (Fin 1) (fadd (Fin 1) (LatencyMS e'))"
    by (simp add: e' Throughput_mkEdge)
  let ?y = "fadd (Fin 1) (LatencyMS e)" and ?y' = "fadd (Fin 1) (LatencyMS e')"
  from one_plus_ge [OF l] have y: "Fin 1 \<le> ?y" "nn ?y" by simp_all
  from one_plus_ge [OF l'] have y': "Fin 1 \<le> ?y'" "nn ?y'" by simp_all
  from y have yn: "?y \<noteq> NaN" by (auto simp: nn_iff)
  from y' have yn': "?y' \<noteq> NaN" by (auto simp: nn_iff)
  from fdiv_one_bounds [OF y(1) yn] have b: "nn (Throughput e)" "Throughput e \<le> Fin 1"
    by (simp_all add: t)
  from fdiv_one_bounds [OF y'(1) yn'] have b': "nn (Throughput e')" by (simp add: t')
  have 1: "fle (Fin 0) (LatencyMS e)" using l by (simp add: fle_def nn_iff)
  have 3: "fle (Fin 0) (Throughput e)" "fle (Throughput e) (Fin 1)"
    using b by (simp_all add: fle_def nn_iff)
  have 4: "Throughput e = Fin 0 \<longleftrightarrow> LatencyMS e = PosInf"
  proof
    assume "LatencyMS e = PosInf"
    then show "Throughput e = Fin 0" by (simp add: t)
  next
    assume z: "Throughput e = Fin 0"
    show "LatencyMS e = PosInf"
    proof (rule ccontr)
      assume n: "LatencyMS e \<noteq> PosInf"
      with l obtain x where x: "LatencyMS e = Fin x" by (cases "LatencyMS e") simp_all
      have "dbl (LatencyMS e)" by (simp add: e LatencyMS_mkEdge)
      with x have dx: "is_double x" by (simp add: dbl_def)
      from one_plus_finite [OF dx] x have "?y \<noteq> PosInf" by simp
      with y(2) obtain v where v: "?y = Fin v" by (cases ?y) simp_all
      have "dbl ?y" by simp
      with v have dv: "is_double v" by (simp add: dbl_def)
      from y(1) v have "1 \<le> v" by simp
      from fdiv_one_pos [OF dv this] z show False by (simp add: t v)
    qed
  qed
  have 5: "fle (LatencyMS e) (LatencyMS e') \<longrightarrow> fle (Throughput e') (Throughput e)"
  proof
    assume "fle (LatencyMS e) (LatencyMS e')"
    then have "LatencyMS e \<le> LatencyMS e'" by (simp add: fle_def)
    then have "?y \<le> ?y'" using l l' by (intro fadd_mono_right) simp_all
    from fdiv_one_antimono [OF y(1) this yn'] b b'
    show "fle (Throughput e') (Throughput e)" by (auto simp: fle_def t t' nn_iff)
  qed
  from 1 t 3 4 5 show ?thesis by blast
qed

text \<open>The theorem at the 500 km link and the 1000 km link of two built graphs.\<close>

theorem link_metrics_witness:
  "fle (Fin 0) (LatencyMS (mkEdge ex_sat ex_ground))
   \<and> Throughput (mkEdge ex_sat ex_ground)
       = fdiv (Fin 1) (fadd (Fin 1) (LatencyMS (mkEdge ex_sat ex_ground)))
   \<and> fle (Fin 0) (Throughput (mkEdge ex_sat ex_ground))
   \<and> fle (Throughput (mkEdge ex_sat ex_ground)) (Fin 1)
   \<and> fle (LatencyMS (mkEdge ex_sat ex_ground)) (LatencyMS (mkEdge ex_ground ex_sat_far))
   \<and> fle (Throughput (mkEdge ex_ground ex_sat_far)) (Throughput (mkEdge ex_sat ex_ground))"
proof -
  have le: "fle (LatencyMS (mkEdge ex_sat ex_ground)) (LatencyMS (mkEdge ex_ground ex_sat_far))"
    by (simp add: ex_metrics fle_def)
  have m: "mkEdge ex_sat ex_ground \<in> edges_of
       \<lparr>Nodes = [''x'' \<mapsto> ex_sat, ''g'' \<mapsto> ex_ground],
        Adj = [''x'' \<mapsto> [mkEdge ex_sat ex_ground], ''g'' \<mapsto> [mkEdge ex_ground ex_sat]]\<rparr>"
    by (rule edges_ofI [of _ "''x''" "[mkEdge ex_sat ex_ground]"]) simp_all
  have m': "mkEdge ex_ground ex_sat_far \<in> edges_of
       \<lparr>Nodes = [''y'' \<mapsto> ex_sat_far, ''g'' \<mapsto> ex_ground],
        Adj = [''y'' \<mapsto> [mkEdge ex_sat_far ex_ground], ''g'' \<mapsto> [mkEdge ex_ground ex_sat_far]]\<rparr>"
    by (rule edges_ofI [of _ "''g''" "[mkEdge ex_ground ex_sat_far]"]) simp_all
  have f: "\<forall>n \<in> set [ex_sat, ex_ground]. finite_vec (Position n)"
    "\<forall>n \<in> set [ex_sat_far, ex_ground]. finite_vec (Position n)"
    by (simp_all add: finite_vec_ex)
  from link_metrics [OF BuildGraph_ex m BuildGraph_ex_far m' f] le
  show ?thesis by blast
qed

text \<open>
  The claim as stated fails. In the graph built from the satellites \<open>a\<close>, \<open>b\<close>, \<open>c\<close> the link
  from \<open>a\<close> to \<open>c\<close> has a strictly greater latency than the link from \<open>a\<close> to \<open>b\<close>
  (0.2134810209268175 against 0.2134810209268173) and the same throughput,
  0.8240755172555005: \<open>1 + latency\<close> rounds both away. And between two satellites whose
  squared distance overflows the latency is \<open>+Inf\<close> and the throughput is 0, outside
  \<open>(0, 1]\<close>.
\<close>

theorem throughput_not_strictly_decreasing:
  "BuildGraph [near_a, near_b, near_c] (Fin 0) = Inr near_graph
   \<and> mkEdge near_a near_b \<in> edges_of near_graph
   \<and> mkEdge near_a near_c \<in> edges_of near_graph
   \<and> LatencyMS (mkEdge near_a near_b) = Fin (1922866092593375 / 9007199254740992)
   \<and> LatencyMS (mkEdge near_a near_c) = Fin (7691464370373507 / 36028797018963968)
   \<and> flt (LatencyMS (mkEdge near_a near_b)) (LatencyMS (mkEdge near_a near_c))
   \<and> Throughput (mkEdge near_a near_b) = Throughput (mkEdge near_a near_c)
   \<and> BuildGraph [far_a, far_b] (Fin 0) = Inr far_graph
   \<and> mkEdge far_a far_b \<in> edges_of far_graph
   \<and> LatencyMS (mkEdge far_a far_b) = PosInf
   \<and> Throughput (mkEdge far_a far_b) = Fin 0"
proof -
  have 1: "mkEdge near_a near_b \<in> edges_of near_graph"
    by (rule edges_ofI [of _ "''a''" "[mkEdge near_a near_b, mkEdge near_a near_c]"])
       (simp_all add: near_graph_def)
  have 2: "mkEdge near_a near_c \<in> edges_of near_graph"
    by (rule edges_ofI [of _ "''a''" "[mkEdge near_a near_b, mkEdge near_a near_c]"])
       (simp_all add: near_graph_def)
  have 3: "mkEdge far_a far_b \<in> edges_of far_graph"
    by (rule edges_ofI [of _ "''a''" "[mkEdge far_a far_b]"]) (simp_all add: far_graph_def)
  have 4: "flt (LatencyMS (mkEdge near_a near_b)) (LatencyMS (mkEdge near_a near_c))"
    by (simp add: near_metrics flt_def)
  from BuildGraph_near BuildGraph_far 1 2 3 4 show ?thesis
    by (simp add: near_metrics far_metrics)
qed

section \<open>Claim C8: the visibility rules\<close>

text \<open>
  Claim C8 at a ground point 6500 km from the centre of the Earth and a satellite 1300 km
  straight above it, with the mask 0. The elevation angle is a right angle and no point of
  the segment is within 6371 km of the centre, so the claim asks for a visible pair. In
  \<^verbatim>\<open>Elevation\<close> the quotient handed to \<^verbatim>\<open>math.Asin\<close> rounds to \<open>1 + 2\<close> to the power \<open>-52\<close>, the
  result is a NaN, the comparison with the mask is false and
  \<^verbatim>\<open>GroundToSatelliteVisible\<close> returns false.
\<close>

theorem overhead_satellite_not_visible:
  "Elevation overhead_ground overhead_sat = NaN
   \<and> \<not> GroundToSatelliteVisible overhead_ground overhead_sat (Fin 0)
   \<and> exact_elevation overhead_ground overhead_sat = pi / 2
   \<and> \<not> segment_meets_ball overhead_ground overhead_sat 6371"
  using Elevation_overhead exact_elevation_overhead overhead_clear
  by (simp add: GroundToSatelliteVisible_def MeetsElevationMask_def fge_def fle_def)

section \<open>Claim C6: the heuristic\<close>



section \<open>Claim C5: what the constructor rejects\<close>

text \<open>
  Claim C5 at a configuration with one satellite and two ground stations that share the
  identity \<open>g\<close>: the claim asks for an error. \<^verbatim>\<open>NewSimulator\<close> returns a simulator; the
  second station has replaced the first in the roster, and the satellite is active.
\<close>

theorem NewSimulator_accepts_duplicate_ground_ID:
  "(case NewSimulator 0 [''s''] [''g''] dup_ground_config of
      Some (Inr sim) \<Rightarrow>
        s_ground sim = [''g'' \<mapsto> \<lparr>GsID = ''g'', GsPosition = \<lparr>X = Fin 0, Y = Fin 6371, Z = Fin 0\<rparr>\<rparr>]
        \<and> dom (s_satellites sim) = {''s''}
        \<and> ActiveSatellites (s_snapshot sim) = [''s'']
    | _ \<Rightarrow> False)"
proof -
  show ?thesis
    by (simp add: NewSimulator_def dup_ground_config_def recomputeLocked_def Validate_ex NewCoverageGrid_ex
        List.map_filter_simps BuildGraph_def Let_def publishEvent_def
        eventCapacity_def split: sum.splits)
qed

section \<open>Claim C3: a failed operation\<close>

lemma reachable_wf: "reachable s \<Longrightarrow> wf_sim s"
proof (induction rule: reachable.induct)
  case (initial now satOrder groundOrder cfg s)
  then show ?case by (rule NewSimulator_wf)
next
  case (step s now satOrder groundOrder op s' r)
  from run_operation_wf [OF step.IH step.hyps(2)] show ?case by simp
qed

lemma NewSimulator_ex:
  "\<exists>sim. NewSimulator 0 [''s''] [''g''] ex_config = Some (Inr sim)
         \<and> s_satellites sim ''t'' = None"
proof -
  show ?thesis
    by (simp add: NewSimulator_def ex_config_def recomputeLocked_def Validate_ex NewCoverageGrid_ex
        List.map_filter_simps BuildGraph_def Let_def publishEvent_def
        eventCapacity_def split: sum.splits)
qed





end
